(* ===== verification/Prelude.thy ===== *)
theory Prelude
  imports Complex_Main "HOL-Library.Word" "HOL-Library.Signed_Division"
begin

text \<open>
  What every component shares.

  \<^item> The exceptions the daemon raises (\<^verbatim>\<open>sitter/exception.h\<close>, the standard library's
    ones, and the reads outside of a vector, which C++ leaves undefined) as the
    datatype \<open>exn\<close>.
  \<^item> A computation that reads and writes a state and may raise: \<open>('s, 'a) act\<close>. The
    state survives an exception, as the objects of the program do.
  \<^item> Decimal text (\<^verbatim>\<open>std::to_string\<close>, \<^verbatim>\<open>std::stoll\<close>) and the
    \<^verbatim>\<open>std::string\<close> searches the sources use.
\<close>

named_theorems act_simps \<open>unfolds a computation applied to a state\<close>
named_theorems inv_intros \<open>an operation keeps an invariant\<close>

section \<open>Exceptions\<close>

datatype exn =
    Invalid_parameter string
  | Invalid_name string
  | Missing_parameter string
  | Logic_error string
  | Out_of_range string
  | Std_invalid_argument
  | Std_out_of_range
  | Regex_error
  | Undefined_behavior

section \<open>Computations with a state and exceptions\<close>

type_synonym ('s, 'a) act = "'s \<Rightarrow> (exn + 'a) \<times> 's"

definition ret :: "'a \<Rightarrow> ('s, 'a) act" where
  "ret x = (\<lambda>s. (Inr x, s))"

definition throw :: "exn \<Rightarrow> ('s, 'a) act" where
  "throw e = (\<lambda>s. (Inl e, s))"

definition andthen :: "('s, 'a) act \<Rightarrow> ('a \<Rightarrow> ('s, 'b) act) \<Rightarrow> ('s, 'b) act" where
  "andthen m f = (\<lambda>s. case m s of (Inl e, s') \<Rightarrow> (Inl e, s') | (Inr x, s') \<Rightarrow> f x s')"

definition get :: "('s \<Rightarrow> 'a) \<Rightarrow> ('s, 'a) act" where
  "get f = (\<lambda>s. (Inr (f s), s))"

definition modify :: "('s \<Rightarrow> 's) \<Rightarrow> ('s, unit) act" where
  "modify f = (\<lambda>s. (Inr (), f s))"

definition unless :: "bool \<Rightarrow> ('s, unit) act \<Rightarrow> ('s, unit) act" where
  "unless b m = (if b then ret () else m)"

primrec for_each :: "('a \<Rightarrow> ('s, unit) act) \<Rightarrow> 'a list \<Rightarrow> ('s, unit) act" where
  "for_each f [] = ret ()"
| "for_each f (x # xs) = andthen (f x) (\<lambda>_. for_each f xs)"

definition runs :: "('s, 'a) act \<Rightarrow> 's \<Rightarrow> 's" where
  "runs m s = snd (m s)"

lemma ret_apply [simp, act_simps]: "ret x s = (Inr x, s)"
  by (simp add: ret_def)

lemma throw_apply [simp, act_simps]: "throw e s = (Inl e, s)"
  by (simp add: throw_def)

lemma get_apply [simp, act_simps]: "get f s = (Inr (f s), s)"
  by (simp add: get_def)

lemma modify_apply [simp, act_simps]: "modify f s = (Inr (), f s)"
  by (simp add: modify_def)

lemma andthen_Inr [simp]: "m s = (Inr x, s') \<Longrightarrow> andthen m f s = f x s'"
  by (simp add: andthen_def)

lemma andthen_Inl [simp]: "m s = (Inl e, s') \<Longrightarrow> andthen m f s = (Inl e, s')"
  by (simp add: andthen_def)

lemma andthen_apply [act_simps]:
  "andthen m f s = (case m s of (Inl e, s') \<Rightarrow> (Inl e, s') | (Inr x, s') \<Rightarrow> f x s')"
  by (simp add: andthen_def)

lemma andthen_ret_left [simp]: "andthen (ret x) f = f x"
  by (simp add: andthen_def fun_eq_iff)

lemma andthen_throw [simp]: "andthen (throw e) f = throw e"
  by (simp add: andthen_def fun_eq_iff throw_def)

lemma andthen_assoc:
  "andthen (andthen m f) g = andthen m (\<lambda>x. andthen (f x) g)"
  by (auto simp: andthen_def fun_eq_iff split: prod.splits sum.splits)

lemma unless_True [simp]: "unless True m = ret ()"
  by (simp add: unless_def)

lemma unless_False [simp]: "unless False m = m"
  by (simp add: unless_def)

lemma andthen_returns_iff:
  "andthen m f s = (Inr y, t) \<longleftrightarrow> (\<exists>x u. m s = (Inr x, u) \<and> f x u = (Inr y, t))"
  by (auto simp: andthen_def split: prod.splits sum.splits)

lemma andthen_raises_iff:
  "andthen m f s = (Inl e, t) \<longleftrightarrow>
     m s = (Inl e, t) \<or> (\<exists>x u. m s = (Inr x, u) \<and> f x u = (Inl e, t))"
  by (auto simp: andthen_def split: prod.splits sum.splits)

lemma for_each_append:
  "for_each f (xs @ ys) = andthen (for_each f xs) (\<lambda>_. for_each f ys)"
  by (induction xs) (simp_all add: andthen_assoc)

subsection \<open>What a computation keeps, whatever its result\<close>

definition keeps :: "('s \<Rightarrow> 's \<Rightarrow> bool) \<Rightarrow> ('s, 'a) act \<Rightarrow> bool" where
  "keeps R m \<longleftrightarrow> (\<forall>s. R s (snd (m s)))"

lemma keepsI [intro?]: "(\<And>s. R s (snd (m s))) \<Longrightarrow> keeps R m"
  by (simp add: keeps_def)

lemma keepsD: "keeps R m \<Longrightarrow> R s (snd (m s))"
  by (simp add: keeps_def)

lemma keeps_result: "keeps R m \<Longrightarrow> m s = (r, t) \<Longrightarrow> R s t"
  by (metis keepsD snd_conv)

lemma keeps_ret [inv_intros]: "reflp R \<Longrightarrow> keeps R (ret x)"
  by (simp add: keeps_def reflpD)

lemma keeps_throw [inv_intros]: "reflp R \<Longrightarrow> keeps R (throw e)"
  by (simp add: keeps_def reflpD)

lemma keeps_get [inv_intros]: "reflp R \<Longrightarrow> keeps R (get f)"
  by (simp add: keeps_def reflpD)

lemma keeps_modify: "(\<And>s. R s (f s)) \<Longrightarrow> keeps R (modify f)"
  by (simp add: keeps_def)

lemma keeps_andthen [inv_intros]:
  assumes "transp R" and "keeps R m" and "\<And>x. keeps R (f x)"
  shows "keeps R (andthen m f)"
proof (rule keepsI)
  fix s
  obtain r u where m: "m s = (r, u)" by fastforce
  have Rsu: "R s u" using assms(2) m by (rule keeps_result)
  show "R s (snd (andthen m f s))"
  proof (cases r)
    case (Inl e)
    with m Rsu show ?thesis by simp
  next
    case (Inr x)
    have "R u (snd (f x u))" using assms(3) by (rule keepsD)
    with Inr m Rsu show ?thesis using assms(1) by (auto dest: transpD)
  qed
qed

lemma keeps_if [inv_intros]:
  "(b \<Longrightarrow> keeps R m) \<Longrightarrow> (\<not> b \<Longrightarrow> keeps R n) \<Longrightarrow> keeps R (if b then m else n)"
  by simp

lemma keeps_unless [inv_intros]: "reflp R \<Longrightarrow> keeps R m \<Longrightarrow> keeps R (unless b m)"
  by (simp add: unless_def keeps_ret)

lemma keeps_for_each [inv_intros]:
  assumes "reflp R" and "transp R" and "\<And>x. x \<in> set xs \<Longrightarrow> keeps R (f x)"
  shows "keeps R (for_each f xs)"
  using assms(3) by (induction xs) (auto intro: keeps_ret keeps_andthen assms(1,2))

subsection \<open>Objects inside the state\<close>

text \<open>
  A computation on one of two objects, and a computation with an object of its own that it
  drops at its end.
\<close>

definition on_fst :: "('a, 'x) act \<Rightarrow> ('a \<times> 'b, 'x) act" where
  "on_fst m = (\<lambda>(a, b). case m a of (r, a') \<Rightarrow> (r, (a', b)))"

definition on_snd :: "('b, 'x) act \<Rightarrow> ('a \<times> 'b, 'x) act" where
  "on_snd m = (\<lambda>(a, b). case m b of (r, b') \<Rightarrow> (r, (a, b')))"

definition with_local :: "'a \<Rightarrow> ('a \<times> 's, 'x) act \<Rightarrow> ('s, 'x) act" where
  "with_local a m = (\<lambda>s. case m (a, s) of (r, (_, s')) \<Rightarrow> (r, s'))"

definition second :: "('b \<Rightarrow> 'b \<Rightarrow> bool) \<Rightarrow> ('a \<times> 'b) \<Rightarrow> ('a \<times> 'b) \<Rightarrow> bool" where
  "second R p q \<longleftrightarrow> R (snd p) (snd q)"

lemma on_fst_apply [act_simps]: "on_fst m (a, b) = (fst (m a), (snd (m a), b))"
  by (simp add: on_fst_def split: prod.split)

lemma on_snd_apply [act_simps]: "on_snd m (a, b) = (fst (m b), (a, snd (m b)))"
  by (simp add: on_snd_def split: prod.split)

lemma with_local_apply [act_simps]: "with_local a m s = (fst (m (a, s)), snd (snd (m (a, s))))"
  by (simp add: with_local_def split: prod.split)

lemma reflp_second [intro]: "reflp R \<Longrightarrow> reflp (second R)"
  by (simp add: second_def reflp_def)

lemma transp_second [intro]: "transp R \<Longrightarrow> transp (second R)"
  unfolding transp_def second_def by blast

lemma keeps_on_fst [inv_intros]: "reflp R \<Longrightarrow> keeps (second R) (on_fst m)"
  by (auto simp: keeps_def second_def on_fst_apply reflpD)

lemma keeps_on_snd [inv_intros]: "keeps R m \<Longrightarrow> keeps (second R) (on_snd m)"
  by (auto simp: keeps_def second_def on_snd_apply)

lemma keeps_with_local [inv_intros]: "keeps (second R) m \<Longrightarrow> keeps R (with_local a m)"
  by (auto simp: keeps_def second_def with_local_apply dest: spec [where x = "(a, _)"])

subsection \<open>Relations that know whether the computation raised\<close>

text \<open>
  \<open>obeys\<close> is the same for a relation that is also told whether the computation raised, as what comes
  after it does not run then. \<open>composes\<close> is what makes it hold of every computation whose parts
  obey it.
\<close>

definition obeys :: "(bool \<Rightarrow> 's \<Rightarrow> 's \<Rightarrow> bool) \<Rightarrow> ('s, 'a) act \<Rightarrow> bool" where
  "obeys R m \<longleftrightarrow> (\<forall>s. R (isl (fst (m s))) s (snd (m s)))"

definition composes :: "(bool \<Rightarrow> 's \<Rightarrow> 's \<Rightarrow> bool) \<Rightarrow> bool" where
  "composes R \<longleftrightarrow> (\<forall>b s. R b s s) \<and> (\<forall>b s t u. R False s t \<longrightarrow> R b t u \<longrightarrow> R b s u)"

lemma obeys_always: "obeys (\<lambda>_. R) m \<longleftrightarrow> keeps R m"
  by (simp add: obeys_def keeps_def)

lemma composes_always: "composes (\<lambda>_. R) \<longleftrightarrow> reflp R \<and> transp R"
  by (auto simp: composes_def reflp_def transp_def)

lemma obeysI: "(\<And>s. R (isl (fst (m s))) s (snd (m s))) \<Longrightarrow> obeys R m"
  by (simp add: obeys_def)

lemma obeysD: "obeys R m \<Longrightarrow> R (isl (fst (m s))) s (snd (m s))"
  by (simp add: obeys_def)

lemma obeys_result: "obeys R m \<Longrightarrow> m s = (r, t) \<Longrightarrow> R (isl r) s t"
  by (metis obeysD fst_conv snd_conv)

lemma composes_refl: "composes R \<Longrightarrow> R b s s"
  by (simp add: composes_def)

lemma composes_trans: "composes R \<Longrightarrow> R False s t \<Longrightarrow> R b t u \<Longrightarrow> R b s u"
  unfolding composes_def by blast

lemma composes_second: "composes R \<Longrightarrow> composes (\<lambda>b. second (R b))"
  unfolding composes_def second_def by blast

lemma obeys_ret: "composes R \<Longrightarrow> obeys R (ret x)"
  by (simp add: obeys_def composes_refl)

lemma obeys_throw: "composes R \<Longrightarrow> obeys R (throw e)"
  by (simp add: obeys_def composes_refl)

lemma obeys_get: "composes R \<Longrightarrow> obeys R (get f)"
  by (simp add: obeys_def composes_refl)

lemma obeys_andthen:
  assumes "composes R" and "obeys R m" and "\<And>x. obeys R (f x)"
  shows "obeys R (andthen m f)"
proof (rule obeysI)
  fix s
  obtain r u where m: "m s = (r, u)" by fastforce
  have Rsu: "R (isl r) s u" using assms(2) m by (rule obeys_result)
  show "R (isl (fst (andthen m f s))) s (snd (andthen m f s))"
  proof (cases r)
    case (Inl e)
    with m Rsu show ?thesis by simp
  next
    case (Inr x)
    have "R (isl (fst (f x u))) u (snd (f x u))" using assms(3) by (rule obeysD)
    with Inr m Rsu show ?thesis using composes_trans [OF assms(1)] by simp
  qed
qed

lemma obeys_if: "(b \<Longrightarrow> obeys R m) \<Longrightarrow> (\<not> b \<Longrightarrow> obeys R n) \<Longrightarrow> obeys R (if b then m else n)"
  by simp

lemma obeys_unless: "composes R \<Longrightarrow> obeys R m \<Longrightarrow> obeys R (unless b m)"
  by (simp add: unless_def obeys_ret)

lemma obeys_for_each:
  assumes "composes R" and "\<And>x. x \<in> set xs \<Longrightarrow> obeys R (f x)"
  shows "obeys R (for_each f xs)"
  using assms(2) by (induction xs) (auto intro: obeys_ret obeys_andthen assms(1))

lemma obeys_on_fst: "composes R \<Longrightarrow> obeys (\<lambda>b. second (R b)) (on_fst m)"
  by (auto simp: obeys_def second_def on_fst_apply composes_refl)

lemma obeys_on_snd: "obeys R m \<Longrightarrow> obeys (\<lambda>b. second (R b)) (on_snd m)"
  by (auto simp: obeys_def second_def on_snd_apply)

lemma obeys_with_local: "obeys (\<lambda>b. second (R b)) m \<Longrightarrow> obeys R (with_local a m)"
  by (auto simp: obeys_def second_def with_local_apply dest: spec [where x = "(a, _)"])

section \<open>Divisions\<close>

text \<open>The division of C++, towards 0, keeps the order.\<close>

lemma sdiv_mono:
  fixes a b c :: int
  assumes "a \<le> b" and "0 < c"
  shows "a sdiv c \<le> b sdiv c"
proof (cases "0 \<le> a")
  case True
  then show ?thesis using assms
    by (simp add: signed_divide_int_def sgn_if zdiv_mono1 pos_imp_zdiv_nonneg_iff)
next
  case False
  note a = this
  show ?thesis
  proof (cases "0 \<le> b")
    case True
    have "0 \<le> \<bar>a\<bar> div c" "0 \<le> \<bar>b\<bar> div c" using assms(2) by (simp_all add: pos_imp_zdiv_nonneg_iff)
    then show ?thesis using a True assms(2) by (simp add: signed_divide_int_def sgn_if)
  next
    case False
    have "(- b) div c \<le> (- a) div c" using assms by (intro zdiv_mono1) simp_all
    then show ?thesis using a False assms(2) by (simp add: signed_divide_int_def)
  qed
qed

section \<open>Text\<close>

definition digit_char :: "nat \<Rightarrow> char" where
  "digit_char d = ''0123456789'' ! (d mod 10)"

fun nat_text :: "nat \<Rightarrow> string" where
  "nat_text n = (if n < 10 then [digit_char n] else nat_text (n div 10) @ [digit_char n])"

declare nat_text.simps [simp del]

definition int_text :: "int \<Rightarrow> string" where
  "int_text i = (if i < 0 then CHR ''-'' # nat_text (nat (- i)) else nat_text (nat i))"

definition digit_val :: "char \<Rightarrow> nat option" where
  "digit_val c = (let k = of_char c :: nat in if 48 \<le> k \<and> k \<le> 57 then Some (k - 48) else None)"

text \<open>The leading digits of a text, as a number, and how many there were.\<close>

fun read_digits :: "nat \<Rightarrow> string \<Rightarrow> nat" where
  "read_digits acc [] = acc"
| "read_digits acc (c # cs) =
     (case digit_val c of None \<Rightarrow> acc | Some d \<Rightarrow> read_digits (10 * acc + d) cs)"

definition is_blank :: "char \<Rightarrow> bool" where
  "is_blank c \<longleftrightarrow> c \<in> {CHR '' '', CHR 0x09, CHR 0x0A, CHR 0x0B, CHR 0x0C, CHR 0x0D}"

text \<open>
  \<^verbatim>\<open>std::stoll\<close>: leading blanks, an optional sign, digits; the rest is ignored. It raises
  \<^verbatim>\<open>std::invalid_argument\<close> without a digit, \<^verbatim>\<open>std::out_of_range\<close> outside of 64 bits.
\<close>

definition stoll :: "string \<Rightarrow> exn + int" where
  "stoll str =
     (let t = dropWhile is_blank str;
          neg = (t \<noteq> [] \<and> hd t = CHR ''-'');
          u = (if t \<noteq> [] \<and> (hd t = CHR ''-'' \<or> hd t = CHR ''+'') then tl t else t)
      in if u = [] \<or> digit_val (hd u) = None then Inl Std_invalid_argument
         else let n = int (read_digits 0 u); v = (if neg then - n else n)
              in if v < - (2 ^ 63) \<or> 2 ^ 63 \<le> v then Inl Std_out_of_range else Inr v)"

text \<open>\<^verbatim>\<open>std::string::find(char)\<close> and the two halves around the character found.\<close>

fun cut_at :: "char \<Rightarrow> string \<Rightarrow> (string \<times> string) option" where
  "cut_at c [] = None"
| "cut_at c (x # xs) =
     (if x = c then Some ([], xs)
      else case cut_at c xs of None \<Rightarrow> None | Some (a, b) \<Rightarrow> Some (x # a, b))"

lemma cut_at_shorter: "cut_at c xs = Some (a, b) \<Longrightarrow> length b < length xs"
  by (induction xs arbitrary: a) (auto split: if_splits option.splits)

lemma cut_at_first: "c \<notin> set a \<Longrightarrow> cut_at c (a @ c # b) = Some (a, b)"
  by (induction a) auto

lemma cut_at_none: "c \<notin> set a \<Longrightarrow> cut_at c a = None"
  by (induction a) auto

text \<open>\<^verbatim>\<open>substr(p + 1)\<close> after \<^verbatim>\<open>find_last_of\<close>, the whole text when the character is absent.\<close>

definition after_last :: "char \<Rightarrow> string \<Rightarrow> string" where
  "after_last c str = rev (takeWhile (\<lambda>x. x \<noteq> c) (rev str))"

text \<open>\<^verbatim>\<open>std::string::find(std::string)\<close>: the text from the first occurrence on.\<close>

fun find_text :: "string \<Rightarrow> string \<Rightarrow> string option" where
  "find_text pat [] = (if pat = [] then Some [] else None)"
| "find_text pat (c # cs) =
     (if take (length pat) (c # cs) = pat then Some (c # cs) else find_text pat cs)"

subsection \<open>Reading back a decimal text\<close>

lemma digit_val_digit_char [simp]: "digit_val (digit_char d) = Some (d mod 10)"
proof -
  have "\<forall>k \<in> {..<10}. digit_val (''0123456789'' ! k) = Some k"
    by code_simp
  then show ?thesis
    by (simp add: digit_char_def)
qed

lemma read_digits_append_text:
  "read_digits acc (nat_text n @ rest) = read_digits (acc * 10 ^ length (nat_text n) + n) rest"
proof (induction n arbitrary: acc rest rule: nat_text.induct)
  case (1 n)
  show ?case
  proof (cases "n < 10")
    case True
    then show ?thesis by (simp add: nat_text.simps [of n] mult.commute)
  next
    case False
    have eq: "nat_text n = nat_text (n div 10) @ [digit_char n]"
      using False by (simp add: nat_text.simps [of n])
    have "read_digits acc (nat_text n @ rest)
        = read_digits (acc * 10 ^ length (nat_text (n div 10)) + n div 10) (digit_char n # rest)"
      using "1.IH" [OF False] by (simp add: eq)
    also have "\<dots> = read_digits (acc * 10 ^ length (nat_text n) + (10 * (n div 10) + n mod 10)) rest"
      by (simp add: eq algebra_simps)
    finally show ?thesis by simp
  qed
qed

lemma read_digits_nat_text [simp]: "read_digits 0 (nat_text n) = n"
  using read_digits_append_text [of 0 n "[]"] by simp

lemma nat_text_not_empty [simp]: "nat_text n \<noteq> []"
  by (subst nat_text.simps) simp

lemma hd_nat_text: "\<exists>d. hd (nat_text n) = digit_char d"
proof (induction n rule: nat_text.induct)
  case (1 n)
  then show ?case
    by (subst nat_text.simps) (auto simp: hd_append)
qed


lemma digit_char_cases:
  "digit_char d \<in> set ''0123456789''"
  unfolding digit_char_def by (rule nth_mem) simp

lemma digit_char_not_blank [simp]: "\<not> is_blank (digit_char d)"
proof -
  have "\<forall>c \<in> set ''0123456789''. \<not> is_blank c" by code_simp
  then show ?thesis using digit_char_cases by blast
qed

lemma digit_char_not_sign [simp]: "digit_char d \<noteq> CHR ''-''" "digit_char d \<noteq> CHR ''+''"
proof -
  have "\<forall>c \<in> set ''0123456789''. c \<noteq> CHR ''-'' \<and> c \<noteq> CHR ''+''" by code_simp
  then show "digit_char d \<noteq> CHR ''-''" "digit_char d \<noteq> CHR ''+''"
    using digit_char_cases [of d] by blast+
qed

lemma nat_text_Cons: "\<exists>d cs. nat_text n = digit_char d # cs"
  using hd_nat_text [of n] nat_text_not_empty [of n] by (metis list.collapse)

text \<open>\<^verbatim>\<open>std::stoll(std::to_string(n))\<close> is n.\<close>

lemma stoll_nat_text: "n < 2 ^ 63 \<Longrightarrow> stoll (nat_text n) = Inr (int n)"
proof -
  assume n: "n < 2 ^ 63"
  obtain d cs where t: "nat_text n = digit_char d # cs" using nat_text_Cons by blast
  have r: "read_digits 0 (digit_char d # cs) = n" using read_digits_nat_text [of n] t by simp
  have "stoll (digit_char d # cs) =
      (if int n < - (2 ^ 63) \<or> 2 ^ 63 \<le> int n then Inl Std_out_of_range else Inr (int n))"
    using r by (simp add: stoll_def Let_def del: read_digits.simps)
  then show ?thesis using n t by simp
qed

end
