(* ===== verification/Host.thy ===== *)
theory Host
  imports Prelude
begin

text \<open>
  What the daemon reaches outside of its own sources: the libraries it links with
  (advgetopt, snapdev, as2js, the regular expressions of the standard library), and the
  document and files it writes.

  Nothing here defines such a library. The record \<open>ext\<close> collects the library functions
  the sources call, each with the type of the C++ function: a conversion with an
  \<^emph>\<open>out\<close> argument takes the value the argument had and gives back the boolean and the
  value it has afterwards. The JSON document is the list of calls made on it, in order.
  The named hypotheses say what the sources rely on.
\<close>

section \<open>The JSON document, as the calls made on it\<close>

text \<open>
  A \<^verbatim>\<open>json_value_ref\<close> is a path from the root of the document. \<open>Key\<close> is
  \<^verbatim>\<open>operator [] (name)\<close>; \<open>Item n\<close> is the reference the n-th \<^verbatim>\<open>operator [] (-1)\<close> on
  that array returned, which is a name for the element and nothing more.
\<close>

datatype jstep = Key string | Item nat

type_synonym jref = "jstep list"

datatype jval = JStr string | JInt int | JNum rat | JBool bool

datatype jcall =
    Member jref                  \<comment> \<open>\<^verbatim>\<open>ref[name]\<close> evaluated on its own\<close>
  | Append jref                  \<comment> \<open>\<^verbatim>\<open>ref[-1]\<close>\<close>
  | Assign jref jval             \<comment> \<open>\<^verbatim>\<open>ref = value\<close>\<close>

type_synonym jdoc = "jcall list"

definition sub :: "jref \<Rightarrow> string \<Rightarrow> jref" where
  "sub r k = r @ [Key k]"

definition appended :: "jdoc \<Rightarrow> jref \<Rightarrow> nat" where
  "appended d r = count_list d (Append r)"

section \<open>The library functions\<close>

record ext =
  x_duration :: "string \<Rightarrow> rat option"        \<comment> \<open>\<^verbatim>\<open>validator_duration::convert_string\<close>, \<open>None\<close> for false\<close>
  x_integer :: "string \<Rightarrow> int \<Rightarrow> bool \<times> int"   \<comment> \<open>\<^verbatim>\<open>validator_integer::convert_string\<close>\<close>
  x_double :: "string \<Rightarrow> rat \<Rightarrow> bool \<times> rat"    \<comment> \<open>\<^verbatim>\<open>validator_double::convert_string\<close>\<close>
  x_split :: "string \<Rightarrow> string \<Rightarrow> string list" \<comment> \<open>\<^verbatim>\<open>split_string\<close> (text, separator)\<close>
  x_trim :: "string \<Rightarrow> string"                \<comment> \<open>\<^verbatim>\<open>snapdev::trim_string\<close>\<close>
  x_is_true :: "string \<Rightarrow> bool"               \<comment> \<open>\<^verbatim>\<open>advgetopt::is_true\<close>\<close>
  x_join :: "string \<Rightarrow> string list \<Rightarrow> string" \<comment> \<open>\<^verbatim>\<open>snapdev::join_strings\<close> (separator, texts)\<close>
  x_regex :: "string \<Rightarrow> string \<Rightarrow> bool option" \<comment> \<open>\<^verbatim>\<open>std::regex_match\<close> (pattern, text), \<open>None\<close> for an invalid pattern\<close>
  x_mkdir_p :: "string \<Rightarrow> int"                \<comment> \<open>\<^verbatim>\<open>snapdev::mkdir_p\<close>\<close>
  x_can_write :: "string \<Rightarrow> bool"             \<comment> \<open>\<^verbatim>\<open>file_contents::write_all\<close> succeeds on that path\<close>
  x_json_text :: "jdoc \<Rightarrow> string"             \<comment> \<open>\<^verbatim>\<open>json.get_value()->to_string()\<close>\<close>
  x_json_members :: "jdoc \<Rightarrow> jref \<Rightarrow> nat"     \<comment> \<open>size of the object at that reference\<close>
  x_hostname :: "string"                      \<comment> \<open>\<^verbatim>\<open>snapdev::gethostname()\<close>\<close>

text \<open>
  A configuration file read by advgetopt: \<^verbatim>\<open>has_parameter()\<close> and \<^verbatim>\<open>get_parameter()\<close> of
  \<^verbatim>\<open>conf_file\<close>, the latter giving an empty text for an absent parameter, and
  \<^verbatim>\<open>get_sections()\<close>.
\<close>

record conf =
  c_param :: "string \<rightharpoonup> string"
  c_sections :: "string list"

definition param :: "conf \<Rightarrow> string \<Rightarrow> string" where
  "param c name = (case c_param c name of None \<Rightarrow> [] | Some t \<Rightarrow> t)"

definition has_param :: "conf \<Rightarrow> string \<Rightarrow> bool" where
  "has_param c name \<longleftrightarrow> c_param c name \<noteq> None"

text \<open>
  A failed integer conversion leaves the variable it was given alone. The getters and the
  loaders rely on it: they store their default first and convert into the same variable.
\<close>

definition integer_keeps :: "ext \<Rightarrow> bool" where
  "integer_keeps X \<longleftrightarrow> (\<forall>t v. \<not> fst (x_integer X t v) \<longrightarrow> snd (x_integer X t v) = v)"

text \<open>A decimal text written by \<^verbatim>\<open>std::to_string\<close> is read back as the number.\<close>

definition integer_reads_text :: "ext \<Rightarrow> bool" where
  "integer_reads_text X \<longleftrightarrow> (\<forall>i v. x_integer X (int_text i) v = (True, i))"

text \<open>\<^verbatim>\<open>mkdir_p()\<close> answers like the system calls: 0 for success.\<close>

definition mkdir_succeeds :: "ext \<Rightarrow> string \<Rightarrow> bool" where
  "mkdir_succeeds X path \<longleftrightarrow> x_mkdir_p X path = 0"

lemma integer_keepsD: "integer_keeps X \<Longrightarrow> x_integer X t v = (False, w) \<Longrightarrow> w = v"
  by (metis fst_conv integer_keeps_def snd_conv)

section \<open>A concrete host\<close>

text \<open>
  The host the witnesses run on: decimal conversions, a splitter that drops the empty
  parts, directories that can be created and files that can be written. No property
  depends on it.
\<close>

definition plain_number :: "string \<Rightarrow> int option" where
  "plain_number t =
     (if t \<noteq> [] \<and> list_all (\<lambda>c. digit_val c \<noteq> None) t then Some (int (read_digits 0 t))
      else if t \<noteq> [] \<and> hd t = CHR ''-'' \<and> tl t \<noteq> [] \<and> list_all (\<lambda>c. digit_val c \<noteq> None) (tl t)
      then Some (- int (read_digits 0 (tl t))) else None)"

fun plain_split :: "char \<Rightarrow> string \<Rightarrow> string \<Rightarrow> string list" where
  "plain_split c cur [] = (if cur = [] then [] else [rev cur])"
| "plain_split c cur (x # xs) =
     (if x = c then (if cur = [] then plain_split c [] xs else rev cur # plain_split c [] xs)
      else plain_split c (x # cur) xs)"

definition plain_trim :: "string \<Rightarrow> string" where
  "plain_trim t = rev (dropWhile is_blank (rev (dropWhile is_blank t)))"

fun plain_join :: "string \<Rightarrow> string list \<Rightarrow> string" where
  "plain_join sep [] = []"
| "plain_join sep [x] = x"
| "plain_join sep (x # y # zs) = x @ sep @ plain_join sep (y # zs)"

definition plain_host :: ext where
  "plain_host = \<lparr>
     x_duration = (\<lambda>t. map_option of_int (plain_number t)),
     x_integer = (\<lambda>t v. case plain_number t of None \<Rightarrow> (False, v) | Some n \<Rightarrow> (True, n)),
     x_double = (\<lambda>t v. case plain_number t of None \<Rightarrow> (False, v) | Some n \<Rightarrow> (True, of_int n)),
     x_split = (\<lambda>t sep. if sep = [] then [t] else plain_split (hd sep) [] t),
     x_trim = plain_trim,
     x_is_true = (\<lambda>t. t = ''true''),
     x_join = plain_join,
     x_regex = (\<lambda>p t. Some (p = t)),
     x_mkdir_p = (\<lambda>_. 0),
     x_can_write = (\<lambda>_. True),
     x_json_text = (\<lambda>d. nat_text (length d)),
     x_json_members = (\<lambda>d r. length d),
     x_hostname = ''host''\<rparr>"

lemma plain_host_keeps: "integer_keeps plain_host"
  by (simp add: integer_keeps_def plain_host_def split: option.splits)

lemma nat_text_digits: "list_all (\<lambda>c. digit_val c \<noteq> None) (nat_text n)"
proof (induction n rule: nat_text.induct)
  case (1 n)
  show ?case
  proof (cases "n < 10")
    case True
    then show ?thesis by (simp add: nat_text.simps [of n])
  next
    case False
    then show ?thesis using "1.IH" by (simp add: nat_text.simps [of n])
  qed
qed

lemma plain_number_nat_text [simp]: "plain_number (nat_text n) = Some (int n)"
  by (simp add: plain_number_def nat_text_digits del: not_None_eq)

lemma digit_val_minus [simp]: "digit_val (CHR ''-'') = None"
  by code_simp

lemma plain_number_int_text [simp]: "plain_number (int_text i) = Some i"
  by (simp add: int_text_def)
     (simp add: plain_number_def nat_text_digits del: not_None_eq)

lemma plain_host_reads_text: "integer_reads_text plain_host"
  by (simp add: integer_reads_text_def plain_host_def)

end
