(* ===== verification/Server_State.thy ===== *)
theory Server_State
  imports Host
begin

text \<open>
  The state of the \<^verbatim>\<open>server\<close> object (\<^verbatim>\<open>sitter/sitter.h\<close>, \<^verbatim>\<open>sitter/sitter.cpp\<close>) and what the daemon
  leaves behind through it: the files of the cache, the lines sent to the logger, the JSON
  document of the current run, the emails handed to the mail library. Also the writes to
  the document and to the files that every plugin uses.
\<close>

section \<open>The constants of the settings\<close>

definition MINIMUM_STATISTICS_FREQUENCY :: int where [simp]: "MINIMUM_STATISTICS_FREQUENCY = 60"
definition DEFAULT_STATISTICS_FREQUENCY :: int where [simp]: "DEFAULT_STATISTICS_FREQUENCY = 60"
definition MINIMUM_STATISTICS_PERIOD :: int where [simp]: "MINIMUM_STATISTICS_PERIOD = 3600"
definition DEFAULT_STATISTICS_PERIOD :: int where [simp]: "DEFAULT_STATISTICS_PERIOD = 604800"
definition ROUND_STATISTICS_PERIOD :: int where [simp]: "ROUND_STATISTICS_PERIOD = 3600"
definition DEFAULT_STATISTICS_TTL :: int where [simp]: "DEFAULT_STATISTICS_TTL = 604800"
definition MINIMUM_STATISTICS_TTL :: int where [simp]: "MINIMUM_STATISTICS_TTL = 3600"
definition DEFAULT_ERROR_REPORT_SETTLE_TIME :: int where [simp]: "DEFAULT_ERROR_REPORT_SETTLE_TIME = 300"
definition MINIMUM_ERROR_REPORT_SETTLE_TIME :: int where [simp]: "MINIMUM_ERROR_REPORT_SETTLE_TIME = 60"
definition DEFAULT_ERROR_REPORT_LOW_PRIORITY :: int where [simp]: "DEFAULT_ERROR_REPORT_LOW_PRIORITY = 10"
definition MINIMUM_ERROR_REPORT_LOW_PRIORITY :: int where [simp]: "MINIMUM_ERROR_REPORT_LOW_PRIORITY = 1"
definition MAXIMUM_ERROR_REPORT_LOW_PRIORITY :: int where [simp]: "MAXIMUM_ERROR_REPORT_LOW_PRIORITY = 50"
definition DEFAULT_ERROR_REPORT_LOW_SPAN :: int where [simp]: "DEFAULT_ERROR_REPORT_LOW_SPAN = 604800"
definition MINIMUM_ERROR_REPORT_LOW_SPAN :: int where [simp]: "MINIMUM_ERROR_REPORT_LOW_SPAN = 86400"
definition DEFAULT_ERROR_REPORT_MEDIUM_PRIORITY :: int where [simp]: "DEFAULT_ERROR_REPORT_MEDIUM_PRIORITY = 50"
definition MINIMUM_ERROR_REPORT_MEDIUM_PRIORITY :: int where [simp]: "MINIMUM_ERROR_REPORT_MEDIUM_PRIORITY = 10"
definition MAXIMUM_ERROR_REPORT_MEDIUM_PRIORITY :: int where [simp]: "MAXIMUM_ERROR_REPORT_MEDIUM_PRIORITY = 90"
definition DEFAULT_ERROR_REPORT_MEDIUM_SPAN :: int where [simp]: "DEFAULT_ERROR_REPORT_MEDIUM_SPAN = 259200"
definition MINIMUM_ERROR_REPORT_MEDIUM_SPAN :: int where [simp]: "MINIMUM_ERROR_REPORT_MEDIUM_SPAN = 3600"
definition DEFAULT_ERROR_REPORT_CRITICAL_PRIORITY :: int where [simp]: "DEFAULT_ERROR_REPORT_CRITICAL_PRIORITY = 90"
definition MINIMUM_ERROR_REPORT_CRITICAL_PRIORITY :: int where [simp]: "MINIMUM_ERROR_REPORT_CRITICAL_PRIORITY = 1"
definition MAXIMUM_ERROR_REPORT_CRITICAL_PRIORITY :: int where [simp]: "MAXIMUM_ERROR_REPORT_CRITICAL_PRIORITY = 100"
definition DEFAULT_ERROR_REPORT_CRITICAL_SPAN :: int where [simp]: "DEFAULT_ERROR_REPORT_CRITICAL_SPAN = 86400"
definition MINIMUM_ERROR_REPORT_CRITICAL_SPAN :: int where [simp]: "MINIMUM_ERROR_REPORT_CRITICAL_SPAN = 300"

section \<open>The severities of the logger\<close>

text \<open>The levels \<^verbatim>\<open>append_error()\<close> chooses from, in the order of its ladder.\<close>

datatype severity = Important | Minor | Warning | Major | Error | Severe

fun severity_rank :: "severity \<Rightarrow> nat" where
  "severity_rank Important = 0"
| "severity_rank Minor = 1"
| "severity_rank Warning = 2"
| "severity_rank Major = 3"
| "severity_rank Error = 4"
| "severity_rank Severe = 5"

section \<open>The server object\<close>

record email =
  em_from :: string
  em_to :: string
  em_subject :: string
  em_body :: string
  em_attachment :: string
  em_start_date :: string

text \<open>
  \<open>opt_defined\<close> and \<open>opt_string\<close> are \<^verbatim>\<open>f_opts.is_defined()\<close> and \<^verbatim>\<open>f_opts.get_string()\<close>.
  Dates are seconds since the epoch; the two communicatord dates are nanoseconds, as a
  \<^verbatim>\<open>timespec_ex\<close> compares.
\<close>

record server =
  opt_defined :: "string \<Rightarrow> bool"
  opt_string :: "string \<Rightarrow> string"
  f_statistics_frequency :: int
  f_statistics_period :: int
  f_statistics_ttl :: int
  f_error_report_settle_time :: int
  f_error_report_low_priority :: int
  f_error_report_low_span :: int
  f_error_report_medium_priority :: int
  f_error_report_medium_span :: int
  f_error_report_critical_priority :: int
  f_error_report_critical_span :: int
  f_error_count :: int
  f_max_error_priority :: int
  f_stopping :: bool
  f_force_restart :: bool
  f_communicatord_connected :: int
  f_communicatord_disconnected :: int
  f_cache_path :: string
  f_ticks :: int
  files :: "string \<rightharpoonup> string"
  logged :: "(severity \<times> string \<times> int) list"
  doc :: jdoc
  outbox :: "email list"

definition new_server :: "(string \<Rightarrow> bool) \<Rightarrow> (string \<Rightarrow> string) \<Rightarrow> int \<Rightarrow> server" where
  "new_server def_opt str_opt now = \<lparr>
     opt_defined = def_opt,
     opt_string = str_opt,
     f_statistics_frequency = -1,
     f_statistics_period = -1,
     f_statistics_ttl = -1,
     f_error_report_settle_time = -1,
     f_error_report_low_priority = -1,
     f_error_report_low_span = -1,
     f_error_report_medium_priority = -1,
     f_error_report_medium_span = -1,
     f_error_report_critical_priority = -1,
     f_error_report_critical_span = -1,
     f_error_count = 0,
     f_max_error_priority = 0,
     f_stopping = False,
     f_force_restart = False,
     f_communicatord_connected = 0,
     f_communicatord_disconnected = now,
     f_cache_path = [],
     f_ticks = 0,
     files = Map.empty,
     logged = [],
     doc = [],
     outbox = []\<rparr>"

definition get_server_parameter :: "string \<Rightarrow> server \<Rightarrow> string" where
  "get_server_parameter name s = (if opt_defined s name then opt_string s name else [])"

section \<open>Writing to the document and to files\<close>

definition member :: "jref \<Rightarrow> (server, unit) act" where
  "member r = modify (\<lambda>s. s\<lparr>doc := doc s @ [Member r]\<rparr>)"

definition assign :: "jref \<Rightarrow> jval \<Rightarrow> (server, unit) act" where
  "assign r v = modify (\<lambda>s. s\<lparr>doc := doc s @ [Assign r v]\<rparr>)"

definition append_item :: "jref \<Rightarrow> (server, jref) act" where
  "append_item r = (\<lambda>s. (Inr (r @ [Item (appended (doc s) r)]), s\<lparr>doc := doc s @ [Append r]\<rparr>))"

definition write_all :: "ext \<Rightarrow> string \<Rightarrow> string \<Rightarrow> (server, bool) act" where
  "write_all X path text = (\<lambda>s.
     if x_can_write X path then (Inr True, s\<lparr>files := (files s)(path \<mapsto> text)\<rparr>)
     else (Inr False, s))"

definition unlink :: "string \<Rightarrow> (server, unit) act" where
  "unlink path = modify (\<lambda>s. s\<lparr>files := (files s)(path := None)\<rparr>)"

lemma member_apply [simp, act_simps]: "member r s = (Inr (), s\<lparr>doc := doc s @ [Member r]\<rparr>)"
  by (simp add: member_def)

lemma assign_apply [simp, act_simps]: "assign r v s = (Inr (), s\<lparr>doc := doc s @ [Assign r v]\<rparr>)"
  by (simp add: assign_def)

lemma append_item_apply [simp, act_simps]:
  "append_item r s = (Inr (r @ [Item (appended (doc s) r)]), s\<lparr>doc := doc s @ [Append r]\<rparr>)"
  by (simp add: append_item_def)

lemma unlink_apply [simp, act_simps]:
  "unlink path s = (Inr (), s\<lparr>files := (files s)(path := None)\<rparr>)"
  by (simp add: unlink_def)

lemma write_all_apply [act_simps]:
  "write_all X path text s =
     (if x_can_write X path then (Inr True, s\<lparr>files := (files s)(path \<mapsto> text)\<rparr>)
      else (Inr False, s))"
  by (simp add: write_all_def)

text \<open>Several members of one object, in order.\<close>

definition assign_all :: "jref \<Rightarrow> (string \<times> jval) list \<Rightarrow> (server, unit) act" where
  "assign_all r kvs = for_each (\<lambda>(k, v). assign (sub r k) v) kvs"

lemma assign_all_apply [act_simps]:
  "assign_all r kvs s = (Inr (), s\<lparr>doc := doc s @ map (\<lambda>(k, v). Assign (sub r k) v) kvs\<rparr>)"
proof (induction kvs arbitrary: s)
  case Nil
  then show ?case by (simp add: assign_all_def)
next
  case (Cons kv kvs)
  then show ?case by (cases kv) (simp add: assign_all_def)
qed

section \<open>A linear order on severities\<close>

instantiation severity :: linorder
begin

definition less_eq_severity :: "severity \<Rightarrow> severity \<Rightarrow> bool" where
  "less_eq_severity a b \<longleftrightarrow> severity_rank a \<le> severity_rank b"

definition less_severity :: "severity \<Rightarrow> severity \<Rightarrow> bool" where
  "less_severity a b \<longleftrightarrow> severity_rank a < severity_rank b"

lemma severity_rank_inject: "severity_rank a = severity_rank b \<longleftrightarrow> a = b"
  by (cases a; cases b) simp_all

instance
  by standard (auto simp: less_eq_severity_def less_severity_def severity_rank_inject)

end

end
