(* ===== verification/Settings.thy ===== *)
theory Settings
  imports Server_State
begin

text \<open>
  The settings of the server: the lazily cached getters of \<^verbatim>\<open>sitter/sitter.cpp\<close> and
  \<^verbatim>\<open>clear_cache()\<close>, which fluid-settings calls when a value changes.

  A getter reads its option, validates it, stores it in its member and returns it; -1 means
  not loaded. The locale \<open>cached_setting\<close> is the contract the callers rely on, interpreted
  below on the getters that honour it. Values are mathematical integers; the bounds at the
  end say when they are 64-bit values.
\<close>

section \<open>The getters\<close>

text \<open>A duration, rounded up; a negative one gives the default, an invalid one too.\<close>

definition duration_or :: "ext \<Rightarrow> string \<Rightarrow> int \<Rightarrow> int" where
  "duration_or X str dflt =
     (case x_duration X str of
        None \<Rightarrow> dflt
      | Some d \<Rightarrow> (if \<lceil>d\<rceil> < 0 then dflt else \<lceil>d\<rceil>))"

definition get_statistics_frequency :: "ext \<Rightarrow> (server, int) act" where
  "get_statistics_frequency X s =
     (if f_statistics_frequency s \<le> 0 then
        let str = opt_string s ''statistics_frequency'';
            v = duration_or X str DEFAULT_STATISTICS_FREQUENCY;
            s' = s\<lparr>f_statistics_frequency := max MINIMUM_STATISTICS_FREQUENCY v\<rparr>
        in (Inr (f_statistics_frequency s'), s')
      else (Inr (f_statistics_frequency s), s))"

definition round_up_period :: "int \<Rightarrow> int" where
  "round_up_period p =
     ((p + (ROUND_STATISTICS_PERIOD - 1)) sdiv ROUND_STATISTICS_PERIOD) * ROUND_STATISTICS_PERIOD"

definition get_statistics_period :: "ext \<Rightarrow> (server, int) act" where
  "get_statistics_period X s =
     (if f_statistics_period s \<le> 0 then
        let str = opt_string s ''statistics_period'';
            v = duration_or X str DEFAULT_STATISTICS_PERIOD;
            v = max MINIMUM_STATISTICS_PERIOD v;
            s' = s\<lparr>f_statistics_period := round_up_period v\<rparr>
        in (Inr (f_statistics_period s'), s')
      else (Inr (f_statistics_period s), s))"

definition get_statistics_ttl :: "ext \<Rightarrow> (server, int) act" where
  "get_statistics_ttl X s =
     (if f_statistics_ttl s < 0 then
        let str = opt_string s ''statistics_ttl'' in
        if str = ''off'' then (Inr 0, s\<lparr>f_statistics_ttl := 0\<rparr>)
        else if str = ''use-period'' then
          (case get_statistics_period X s of
             (Inl e, s1) \<Rightarrow> (Inl e, s1)
           | (Inr p, s1) \<Rightarrow> (Inr p, s1\<lparr>f_statistics_ttl := p\<rparr>))
        else
          let v = max MINIMUM_STATISTICS_TTL (duration_or X str DEFAULT_STATISTICS_TTL)
          in (Inr v, s\<lparr>f_statistics_ttl := v\<rparr>)
      else (Inr (f_statistics_ttl s), s))"

text \<open>
  The settle time is stored in the branch of a valid duration only: with an invalid one
  the member stays at -1, which is what the getter returns.
\<close>

definition get_error_report_settle_time :: "ext \<Rightarrow> (server, int) act" where
  "get_error_report_settle_time X s =
     (if f_error_report_settle_time s < 0 then
        let str = opt_string s ''error_report_settle_time'' in
        case x_duration X str of
          None \<Rightarrow> (Inr (f_error_report_settle_time s), s)
        | Some d \<Rightarrow>
            let v = (if \<lceil>d\<rceil> < 0 then DEFAULT_ERROR_REPORT_SETTLE_TIME else \<lceil>d\<rceil>);
                s' = s\<lparr>f_error_report_settle_time := max MINIMUM_ERROR_REPORT_SETTLE_TIME v\<rparr>
            in (Inr (f_error_report_settle_time s'), s')
      else (Inr (f_error_report_settle_time s), s))"

subsection \<open>Priorities and spans\<close>

text \<open>
  The option is \<open>priority[,span]\<close>. \<open>second_part\<close> is \<^verbatim>\<open>prio_span[1]\<close> when there is a
  second, non-empty, part. Reading \<^verbatim>\<open>prio_span[0]\<close> of an empty list is undefined.
\<close>

definition second_part :: "string list \<Rightarrow> string option" where
  "second_part ps = (case ps of _ # b # _ \<Rightarrow> (if b = [] then None else Some b) | _ \<Rightarrow> None)"

definition low_priority_of :: "ext \<Rightarrow> string \<Rightarrow> int \<Rightarrow> int" where
  "low_priority_of X t cur =
     (case x_integer X t cur of (ok, v) \<Rightarrow>
        if ok then
          (if v < MINIMUM_ERROR_REPORT_LOW_PRIORITY then MINIMUM_ERROR_REPORT_LOW_PRIORITY
           else if v > MAXIMUM_ERROR_REPORT_LOW_PRIORITY then MAXIMUM_ERROR_REPORT_LOW_PRIORITY
           else v)
        else v)"

definition low_span_of :: "ext \<Rightarrow> string \<Rightarrow> int \<Rightarrow> int" where
  "low_span_of X t cur =
     (case x_duration X t of
        None \<Rightarrow> cur
      | Some d \<Rightarrow>
          (if \<lceil>d\<rceil> \<le> 0 then DEFAULT_ERROR_REPORT_LOW_SPAN
           else if \<lceil>d\<rceil> < MINIMUM_ERROR_REPORT_LOW_SPAN then MINIMUM_ERROR_REPORT_LOW_SPAN
           else \<lceil>d\<rceil>))"

definition get_error_report_low_priority :: "ext \<Rightarrow> (server, int) act" where
  "get_error_report_low_priority X s =
     (if f_error_report_low_priority s < 0 then
        let s1 = s\<lparr>f_error_report_low_priority := DEFAULT_ERROR_REPORT_LOW_PRIORITY,
                   f_error_report_low_span := DEFAULT_ERROR_REPORT_LOW_SPAN\<rparr>;
            str = opt_string s ''error_report_low_priority'' in
        if str = [] then (Inr (f_error_report_low_priority s1), s1)
        else case x_split X str '','' of
          [] \<Rightarrow> (Inl Undefined_behavior, s1)
        | p # ps \<Rightarrow>
            let s2 = s1\<lparr>f_error_report_low_priority :=
                          low_priority_of X p (f_error_report_low_priority s1)\<rparr>;
                s3 = (case second_part (p # ps) of
                        None \<Rightarrow> s2
                      | Some t \<Rightarrow> s2\<lparr>f_error_report_low_span :=
                                       low_span_of X t (f_error_report_low_span s2)\<rparr>)
            in (Inr (f_error_report_low_priority s3), s3)
      else (Inr (f_error_report_low_priority s), s))"

definition get_error_report_low_span :: "ext \<Rightarrow> (server, int) act" where
  "get_error_report_low_span X =
     andthen (get_error_report_low_priority X) (\<lambda>_. get f_error_report_low_span)"

definition medium_priority_of :: "ext \<Rightarrow> string \<Rightarrow> int \<Rightarrow> int" where
  "medium_priority_of X t cur =
     (case x_integer X t cur of (ok, v) \<Rightarrow>
        if ok then
          (if v < MINIMUM_ERROR_REPORT_MEDIUM_PRIORITY then MINIMUM_ERROR_REPORT_MEDIUM_PRIORITY
           else if v > MAXIMUM_ERROR_REPORT_MEDIUM_PRIORITY then MAXIMUM_ERROR_REPORT_MEDIUM_PRIORITY
           else v)
        else v)"

definition medium_span_of :: "ext \<Rightarrow> string \<Rightarrow> int \<Rightarrow> int" where
  "medium_span_of X t cur =
     (case x_duration X t of
        None \<Rightarrow> cur
      | Some d \<Rightarrow>
          (if \<lceil>d\<rceil> < 0 then DEFAULT_ERROR_REPORT_MEDIUM_SPAN
           else if \<lceil>d\<rceil> < MINIMUM_ERROR_REPORT_MEDIUM_SPAN then MINIMUM_ERROR_REPORT_MEDIUM_SPAN
           else \<lceil>d\<rceil>))"

definition get_error_report_medium_priority :: "ext \<Rightarrow> (server, int) act" where
  "get_error_report_medium_priority X s =
     (if f_error_report_medium_priority s < 0 then
        let s1 = s\<lparr>f_error_report_medium_priority := DEFAULT_ERROR_REPORT_MEDIUM_PRIORITY,
                   f_error_report_medium_span := DEFAULT_ERROR_REPORT_MEDIUM_SPAN\<rparr>;
            str = opt_string s ''error_report_medium_priority'' in
        if str = [] then (Inr (f_error_report_medium_priority s1), s1)
        else case x_split X str '','' of
          [] \<Rightarrow> (Inl Undefined_behavior, s1)
        | p # ps \<Rightarrow>
            let s2 = s1\<lparr>f_error_report_medium_priority :=
                          medium_priority_of X p (f_error_report_medium_priority s1)\<rparr>;
                s3 = (case second_part (p # ps) of
                        None \<Rightarrow> s2
                      | Some t \<Rightarrow> s2\<lparr>f_error_report_medium_span :=
                                       medium_span_of X t (f_error_report_medium_span s2)\<rparr>)
            in (Inr (f_error_report_medium_priority s3), s3)
      else (Inr (f_error_report_medium_priority s), s))"

definition get_error_report_medium_span :: "ext \<Rightarrow> (server, int) act" where
  "get_error_report_medium_span X =
     andthen (get_error_report_medium_priority X) (\<lambda>_. get f_error_report_medium_span)"

text \<open>
  The critical priority differs: a value out of range gives the default, not the bound; and
  with more than two parts the getter returns \<^verbatim>\<open>false\<close>, that is 0, with the defaults stored.
\<close>

definition critical_priority_of :: "ext \<Rightarrow> string \<Rightarrow> int \<Rightarrow> int" where
  "critical_priority_of X t cur =
     (case x_integer X t cur of (ok, v) \<Rightarrow>
        if ok then
          (if v < MINIMUM_ERROR_REPORT_CRITICAL_PRIORITY then DEFAULT_ERROR_REPORT_CRITICAL_PRIORITY
           else if v > MAXIMUM_ERROR_REPORT_CRITICAL_PRIORITY then DEFAULT_ERROR_REPORT_CRITICAL_PRIORITY
           else v)
        else v)"

definition critical_span_of :: "ext \<Rightarrow> string \<Rightarrow> int \<Rightarrow> int" where
  "critical_span_of X t cur =
     (case x_duration X t of
        None \<Rightarrow> cur
      | Some d \<Rightarrow>
          (if \<lceil>d\<rceil> < 0 then DEFAULT_ERROR_REPORT_CRITICAL_SPAN
           else if \<lceil>d\<rceil> < MINIMUM_ERROR_REPORT_CRITICAL_SPAN then MINIMUM_ERROR_REPORT_CRITICAL_SPAN
           else \<lceil>d\<rceil>))"

definition get_error_report_critical_priority :: "ext \<Rightarrow> (server, int) act" where
  "get_error_report_critical_priority X s =
     (if f_error_report_critical_priority s < 0 then
        let s1 = s\<lparr>f_error_report_critical_priority := DEFAULT_ERROR_REPORT_CRITICAL_PRIORITY,
                   f_error_report_critical_span := DEFAULT_ERROR_REPORT_CRITICAL_SPAN\<rparr>;
            str = opt_string s ''error_report_critical_priority'' in
        if str = [] then (Inr (f_error_report_critical_priority s1), s1)
        else if length (x_split X str '','') > 2 then (Inr 0, s1)
        else case x_split X str '','' of
          [] \<Rightarrow> (Inl Undefined_behavior, s1)
        | p # ps \<Rightarrow>
            let s2 = s1\<lparr>f_error_report_critical_priority :=
                          critical_priority_of X p (f_error_report_critical_priority s1)\<rparr>;
                s3 = (case second_part (p # ps) of
                        None \<Rightarrow> s2
                      | Some t \<Rightarrow> s2\<lparr>f_error_report_critical_span :=
                                       critical_span_of X t (f_error_report_critical_span s2)\<rparr>)
            in (Inr (f_error_report_critical_priority s3), s3)
      else (Inr (f_error_report_critical_priority s), s))"

definition get_error_report_critical_span :: "ext \<Rightarrow> (server, int) act" where
  "get_error_report_critical_span X =
     andthen (get_error_report_critical_priority X) (\<lambda>_. get f_error_report_critical_span)"

section \<open>Forgetting a value\<close>

definition clear_cache :: "string \<Rightarrow> server \<Rightarrow> server" where
  "clear_cache name s =
     (if name = [] then s
      else if hd name = CHR ''e'' then
        (if name = ''error-report-settle-time'' then s\<lparr>f_error_report_settle_time := -1\<rparr>
         else if name = ''error-report-low-priority''
         then s\<lparr>f_error_report_low_priority := -1, f_error_report_low_span := -1\<rparr>
         else if name = ''error-report-medium-priority''
         then s\<lparr>f_error_report_medium_priority := -1, f_error_report_medium_span := -1\<rparr>
         else if name = ''error-report-critical-priority''
         then s\<lparr>f_error_report_critical_priority := -1, f_error_report_critical_span := -1\<rparr>
         else s)
      else if hd name = CHR ''s'' then
        (if name = ''statistics-frequency'' then s\<lparr>f_statistics_frequency := -1\<rparr>
         else if name = ''statistics-period''
         then s\<lparr>f_statistics_period := -1, f_statistics_ttl := -1\<rparr>
         else if name = ''statistics-ttl'' then s\<lparr>f_statistics_ttl := -1\<rparr>
         else s)
      else s)"

section \<open>Values in range\<close>

definition stats_ok :: "server \<Rightarrow> bool" where
  "stats_ok s \<longleftrightarrow>
     (f_statistics_frequency s \<le> 0 \<or> 60 \<le> f_statistics_frequency s) \<and>
     (f_statistics_period s \<le> 0 \<or> 3600 \<le> f_statistics_period s \<and> 3600 dvd f_statistics_period s) \<and>
     (f_statistics_ttl s < 0 \<or> f_statistics_ttl s = 0 \<or> 3600 \<le> f_statistics_ttl s) \<and>
     (f_error_report_settle_time s < 0 \<or> 60 \<le> f_error_report_settle_time s)"

definition low_ok :: "server \<Rightarrow> bool" where
  "low_ok s \<longleftrightarrow> f_error_report_low_priority s < 0 \<or>
     f_error_report_low_priority s \<in> {1..50} \<and> 86400 \<le> f_error_report_low_span s"

definition medium_ok :: "server \<Rightarrow> bool" where
  "medium_ok s \<longleftrightarrow> f_error_report_medium_priority s < 0 \<or>
     f_error_report_medium_priority s \<in> {10..90} \<and> 3600 \<le> f_error_report_medium_span s"

definition critical_ok :: "server \<Rightarrow> bool" where
  "critical_ok s \<longleftrightarrow> f_error_report_critical_priority s < 0 \<or>
     f_error_report_critical_priority s \<in> {1..100} \<and> 300 \<le> f_error_report_critical_span s"

definition settings_ok :: "server \<Rightarrow> bool" where
  "settings_ok s \<longleftrightarrow> stats_ok s \<and> low_ok s \<and> medium_ok s \<and> critical_ok s"

lemmas settings_defs = settings_ok_def stats_ok_def low_ok_def medium_ok_def critical_ok_def

lemma duration_or_nonneg [simp]: "0 \<le> d \<Longrightarrow> 0 \<le> duration_or X t d"
  by (simp add: duration_or_def split: option.splits)

lemma round_up_period_eq: "0 \<le> p \<Longrightarrow> round_up_period p = (p + 3599) div 3600 * 3600"
  by (simp add: round_up_period_def signed_divide_int_def)

lemma round_up_period_bounds:
  assumes "0 \<le> p"
  shows "p \<le> round_up_period p" and "round_up_period p < p + 3600" and "3600 dvd round_up_period p"
proof -
  have "p + 3599 = (p + 3599) div 3600 * 3600 + (p + 3599) mod 3600" by simp
  moreover have "(p + 3599) mod 3600 < 3600" "0 \<le> (p + 3599) mod 3600" by simp_all
  ultimately show "p \<le> round_up_period p" and "round_up_period p < p + 3600"
    unfolding round_up_period_eq [OF assms] by linarith+
  show "3600 dvd round_up_period p" by (simp add: round_up_period_eq [OF assms])
qed

lemma low_priority_of_range:
  "integer_keeps X \<Longrightarrow> cur \<in> {1..50} \<Longrightarrow> low_priority_of X t cur \<in> {1..50}"
  by (auto simp: low_priority_of_def dest: integer_keepsD split: prod.splits)

lemma medium_priority_of_range:
  "integer_keeps X \<Longrightarrow> cur \<in> {10..90} \<Longrightarrow> medium_priority_of X t cur \<in> {10..90}"
  by (auto simp: medium_priority_of_def dest: integer_keepsD split: prod.splits)

lemma critical_priority_of_range:
  "integer_keeps X \<Longrightarrow> cur \<in> {1..100} \<Longrightarrow> critical_priority_of X t cur \<in> {1..100}"
  by (auto simp: critical_priority_of_def dest: integer_keepsD split: prod.splits)

lemma low_span_of_range: "86400 \<le> cur \<Longrightarrow> 86400 \<le> low_span_of X t cur"
  by (auto simp: low_span_of_def split: option.splits)

lemma medium_span_of_range: "3600 \<le> cur \<Longrightarrow> 3600 \<le> medium_span_of X t cur"
  by (auto simp: medium_span_of_def split: option.splits)

lemma critical_span_of_range: "300 \<le> cur \<Longrightarrow> 300 \<le> critical_span_of X t cur"
  by (auto simp: critical_span_of_def split: option.splits)

lemmas part_ranges =
  low_priority_of_range medium_priority_of_range critical_priority_of_range
  low_span_of_range medium_span_of_range critical_span_of_range

subsection \<open>What each getter leaves in its member\<close>

text \<open>
  The outcome of a priority getter from a state where nothing was loaded, shared by the
  proofs on the three levels: both members end in range, and the value returned is the
  member.
\<close>

lemma low_fetch:
  assumes "get_error_report_low_priority X s = (r, t)" and "integer_keeps X" and "low_ok s"
  shows "low_ok t" and "0 \<le> f_error_report_low_priority t"
    and "r = Inl Undefined_behavior \<or> r = Inr (f_error_report_low_priority t)"
    and "t = s\<lparr>f_error_report_low_priority := f_error_report_low_priority t,
               f_error_report_low_span := f_error_report_low_span t\<rparr>"
proof -
  have "low_priority_of X p 10 \<in> {1..50}" for p
    using assms(2) by (rule low_priority_of_range) simp
  then have 1: "1 \<le> low_priority_of X p 10" "low_priority_of X p 10 \<le> 50" for p
    by auto
  have 2: "0 \<le> low_priority_of X p 10" for p using 1(1) [of p] by linarith
  have 3: "86400 \<le> low_span_of X p 604800" for p by (rule low_span_of_range) simp
  show "low_ok t" "0 \<le> f_error_report_low_priority t"
    "r = Inl Undefined_behavior \<or> r = Inr (f_error_report_low_priority t)"
    "t = s\<lparr>f_error_report_low_priority := f_error_report_low_priority t,
          f_error_report_low_span := f_error_report_low_span t\<rparr>"
    using assms(1,3) 1 2 3
    by (auto simp: get_error_report_low_priority_def low_ok_def Let_def
        split: if_splits list.splits option.splits)
qed

lemma medium_fetch:
  assumes "get_error_report_medium_priority X s = (r, t)" and "integer_keeps X" and "medium_ok s"
  shows "medium_ok t" and "0 \<le> f_error_report_medium_priority t"
    and "r = Inl Undefined_behavior \<or> r = Inr (f_error_report_medium_priority t)"
    and "t = s\<lparr>f_error_report_medium_priority := f_error_report_medium_priority t,
               f_error_report_medium_span := f_error_report_medium_span t\<rparr>"
proof -
  have "medium_priority_of X p 50 \<in> {10..90}" for p
    using assms(2) by (rule medium_priority_of_range) simp
  then have 1: "10 \<le> medium_priority_of X p 50" "medium_priority_of X p 50 \<le> 90" for p
    by auto
  have 2: "0 \<le> medium_priority_of X p 50" for p using 1(1) [of p] by linarith
  have 3: "3600 \<le> medium_span_of X p 259200" for p by (rule medium_span_of_range) simp
  show "medium_ok t" "0 \<le> f_error_report_medium_priority t"
    "r = Inl Undefined_behavior \<or> r = Inr (f_error_report_medium_priority t)"
    "t = s\<lparr>f_error_report_medium_priority := f_error_report_medium_priority t,
          f_error_report_medium_span := f_error_report_medium_span t\<rparr>"
    using assms(1,3) 1 2 3
    by (auto simp: get_error_report_medium_priority_def medium_ok_def Let_def
        split: if_splits list.splits option.splits)
qed

lemma critical_fetch:
  assumes "get_error_report_critical_priority X s = (r, t)" and "integer_keeps X" and "critical_ok s"
  shows "critical_ok t" and "0 \<le> f_error_report_critical_priority t"
    and "r = Inl Undefined_behavior \<or> r = Inr 0 \<or> r = Inr (f_error_report_critical_priority t)"
    and "t = s\<lparr>f_error_report_critical_priority := f_error_report_critical_priority t,
               f_error_report_critical_span := f_error_report_critical_span t\<rparr>"
proof -
  have "critical_priority_of X p 90 \<in> {1..100}" for p
    using assms(2) by (rule critical_priority_of_range) simp
  then have 1: "1 \<le> critical_priority_of X p 90" "critical_priority_of X p 90 \<le> 100" for p
    by auto
  have 2: "0 \<le> critical_priority_of X p 90" for p using 1(1) [of p] by linarith
  have 3: "300 \<le> critical_span_of X p 86400" for p by (rule critical_span_of_range) simp
  show "critical_ok t" "0 \<le> f_error_report_critical_priority t"
    "r = Inl Undefined_behavior \<or> r = Inr 0 \<or> r = Inr (f_error_report_critical_priority t)"
    "t = s\<lparr>f_error_report_critical_priority := f_error_report_critical_priority t,
          f_error_report_critical_span := f_error_report_critical_span t\<rparr>"
    using assms(1,3) 1 2 3
    by (auto simp: get_error_report_critical_priority_def critical_ok_def Let_def
        split: if_splits list.splits option.splits)
qed

lemma frequency_fetch:
  assumes "get_statistics_frequency X s = (r, t)" and "stats_ok s"
  shows "60 \<le> f_statistics_frequency t" and "r = Inr (f_statistics_frequency t)"
    and "t = s\<lparr>f_statistics_frequency := f_statistics_frequency t\<rparr>"
  using assms by (auto simp: get_statistics_frequency_def stats_ok_def Let_def split: if_splits)

lemma period_fetch:
  assumes "get_statistics_period X s = (r, t)" and "stats_ok s"
  shows "3600 \<le> f_statistics_period t" and "3600 dvd f_statistics_period t"
    and "r = Inr (f_statistics_period t)"
    and "t = s\<lparr>f_statistics_period := f_statistics_period t\<rparr>"
proof -
  have "3600 \<le> round_up_period (max 3600 p)" for p
    using round_up_period_bounds(1) [of "max 3600 p"] by linarith
  moreover have "3600 dvd round_up_period (max 3600 p)" for p
    by (rule round_up_period_bounds(3)) simp
  ultimately show "3600 \<le> f_statistics_period t" "3600 dvd f_statistics_period t"
    "r = Inr (f_statistics_period t)" "t = s\<lparr>f_statistics_period := f_statistics_period t\<rparr>"
    using assms by (auto simp: get_statistics_period_def stats_ok_def Let_def split: if_splits)
qed

lemma ttl_fetch:
  assumes "get_statistics_ttl X s = (r, t)" and "stats_ok s"
  shows "f_statistics_ttl t = 0 \<or> 3600 \<le> f_statistics_ttl t" and "r = Inr (f_statistics_ttl t)"
    and "t = s\<lparr>f_statistics_ttl := f_statistics_ttl t, f_statistics_period := f_statistics_period t\<rparr>"
    and "stats_ok t"
proof -
  obtain r1 t1 where p: "get_statistics_period X s = (r1, t1)" by fastforce
  note period = period_fetch [OF p assms(2)]
  show "f_statistics_ttl t = 0 \<or> 3600 \<le> f_statistics_ttl t" "r = Inr (f_statistics_ttl t)"
    using assms p period(1,3)
    by (auto simp: get_statistics_ttl_def stats_ok_def Let_def split: if_splits)
  show *: "t = s\<lparr>f_statistics_ttl := f_statistics_ttl t, f_statistics_period := f_statistics_period t\<rparr>"
  proof (cases "f_statistics_ttl s < 0 \<and> opt_string s ''statistics_ttl'' = ''use-period''")
    case True
    have "t = t1\<lparr>f_statistics_ttl := f_statistics_period t1\<rparr>"
      using True assms(1) p period(3) by (simp add: get_statistics_ttl_def)
    then show ?thesis by (subst (asm) period(4)) simp
  next
    case False
    then show ?thesis
      using assms(1) by (auto simp: get_statistics_ttl_def Let_def split: if_splits)
  qed
  show "stats_ok t"
  proof (cases "f_statistics_ttl s < 0 \<and> opt_string s ''statistics_ttl'' = ''use-period''")
    case True
    have "t = t1\<lparr>f_statistics_ttl := f_statistics_period t1\<rparr>"
      using True assms(1) p period(3) by (simp add: get_statistics_ttl_def)
    moreover obtain q where "t1 = s\<lparr>f_statistics_period := q\<rparr>" using period(4) by blast
    then have "stats_ok t1" using assms(2) period(1,2) by (simp add: stats_ok_def)
    ultimately show ?thesis using period(1) by (simp add: stats_ok_def)
  next
    case False
    then show ?thesis
      using assms by (auto simp: get_statistics_ttl_def stats_ok_def Let_def split: if_splits)
  qed
qed

lemma settle_fetch:
  assumes "get_error_report_settle_time X s = (r, t)" and "stats_ok s"
  shows "f_error_report_settle_time t < 0 \<or> 60 \<le> f_error_report_settle_time t"
    and "r = Inr (f_error_report_settle_time t)"
    and "t = s\<lparr>f_error_report_settle_time := f_error_report_settle_time t\<rparr>"
  using assms
  by (auto simp: get_error_report_settle_time_def stats_ok_def Let_def
      split: if_splits option.splits)


lemma frequency_fetch_ok:
  assumes "settings_ok s" and "get_statistics_frequency X s = (r, t)"
  shows "settings_ok t"
proof -
  note ok = assms(1) [unfolded settings_ok_def]
  note f = frequency_fetch [OF assms(2) conjunct1 [OF ok]]
  obtain v where "t = s\<lparr>f_statistics_frequency := v\<rparr>" using f(3) by blast
  then show ?thesis using f(1) ok by (simp add: settings_defs)
qed

lemma period_fetch_ok:
  assumes "settings_ok s" and "get_statistics_period X s = (r, t)"
  shows "settings_ok t"
proof -
  note ok = assms(1) [unfolded settings_ok_def]
  note f = period_fetch [OF assms(2) conjunct1 [OF ok]]
  obtain v where "t = s\<lparr>f_statistics_period := v\<rparr>" using f(4) by blast
  then show ?thesis using f(1,2) ok by (simp add: settings_defs)
qed

lemma settle_fetch_ok:
  assumes "settings_ok s" and "get_error_report_settle_time X s = (r, t)"
  shows "settings_ok t"
proof -
  note ok = assms(1) [unfolded settings_ok_def]
  note f = settle_fetch [OF assms(2) conjunct1 [OF ok]]
  obtain v where "t = s\<lparr>f_error_report_settle_time := v\<rparr>" using f(3) by blast
  then show ?thesis using f(1) ok by (simp add: settings_defs)
qed

lemma ttl_fetch_ok:
  assumes "settings_ok s" and "get_statistics_ttl X s = (r, t)"
  shows "settings_ok t"
proof -
  note ok = assms(1) [unfolded settings_ok_def]
  note f = ttl_fetch [OF assms(2) conjunct1 [OF ok]]
  obtain v w where "t = s\<lparr>f_statistics_ttl := v, f_statistics_period := w\<rparr>" using f(3) by blast
  then show ?thesis
    using f(4) ok by (simp add: settings_ok_def low_ok_def medium_ok_def critical_ok_def)
qed

lemma low_fetch_ok:
  assumes "integer_keeps X" and "settings_ok s" and "get_error_report_low_priority X s = (r, t)"
  shows "settings_ok t"
proof -
  have ok: "stats_ok s" "low_ok s" "medium_ok s" "critical_ok s"
    using assms(2) by (simp_all add: settings_ok_def)
  note f = low_fetch [OF assms(3,1) ok(2)]
  obtain v w where "t = s\<lparr>f_error_report_low_priority := v, f_error_report_low_span := w\<rparr>"
    using f(4) by blast
  then show ?thesis
    using f(1) ok by (simp add: settings_ok_def stats_ok_def medium_ok_def critical_ok_def)
qed

lemma medium_fetch_ok:
  assumes "integer_keeps X" and "settings_ok s" and "get_error_report_medium_priority X s = (r, t)"
  shows "settings_ok t"
proof -
  have ok: "stats_ok s" "low_ok s" "medium_ok s" "critical_ok s"
    using assms(2) by (simp_all add: settings_ok_def)
  note f = medium_fetch [OF assms(3,1) ok(3)]
  obtain v w where "t = s\<lparr>f_error_report_medium_priority := v, f_error_report_medium_span := w\<rparr>"
    using f(4) by blast
  then show ?thesis
    using f(1) ok by (simp add: settings_ok_def stats_ok_def low_ok_def critical_ok_def)
qed

lemma critical_fetch_ok:
  assumes "integer_keeps X" and "settings_ok s" and "get_error_report_critical_priority X s = (r, t)"
  shows "settings_ok t"
proof -
  have ok: "stats_ok s" "low_ok s" "medium_ok s" "critical_ok s"
    using assms(2) by (simp_all add: settings_ok_def)
  note f = critical_fetch [OF assms(3,1) ok(4)]
  obtain v w where "t = s\<lparr>f_error_report_critical_priority := v, f_error_report_critical_span := w\<rparr>"
    using f(4) by blast
  then show ?thesis
    using f(1) ok by (simp add: settings_ok_def stats_ok_def low_ok_def medium_ok_def)
qed

lemmas fetch_ok =
  frequency_fetch_ok period_fetch_ok ttl_fetch_ok settle_fetch_ok
  low_fetch_ok medium_fetch_ok critical_fetch_ok

lemma clear_cache_ok: "settings_ok s \<Longrightarrow> settings_ok (clear_cache name s)"
  by (auto simp: clear_cache_def settings_defs)

lemma new_server_settings_ok [simp]: "settings_ok (new_server d o' now)"
  by (simp add: new_server_def settings_defs)

section \<open>The contract of a cached setting\<close>

locale cached_setting =
  fixes fetch :: "('s, int) act"
    and peek :: "'s \<Rightarrow> int"
    and loaded :: "int \<Rightarrow> bool"
    and lawful :: "'s \<Rightarrow> bool"
  assumes hit: "loaded (peek s) \<Longrightarrow> fetch s = (Inr (peek s), s)"
    and fill: "lawful s \<Longrightarrow> fetch s = (Inr v, t) \<Longrightarrow> peek t = v \<and> loaded v"
begin

lemma fetch_again:
  assumes "lawful s" and "fetch s = (Inr v, t)"
  shows "fetch t = (Inr v, t)"
  using fill [OF assms] hit [of t] by simp

end

locale ranged_setting = cached_setting +
  fixes range :: "int \<Rightarrow> bool" and good :: "'a \<Rightarrow> bool"
  assumes good_range: "good s \<Longrightarrow> loaded (peek s) \<Longrightarrow> range (peek s)"
    and good_fetch: "lawful s \<Longrightarrow> good s \<Longrightarrow> fetch s = (r, t) \<Longrightarrow> good t"
begin

lemma fetched_in_range:
  assumes "lawful s" and "good s" and "fetch s = (Inr v, t)"
  shows "range v"
  using fill [OF assms(1,3)] good_fetch [OF assms] good_range [of t] by simp

end

text \<open>
  The getters that honour it. The critical priority does when its option has at most two
  parts, the settle time when its option is a valid duration; the integer conversions are
  the ones of the host.
\<close>

interpretation frequency: ranged_setting
  "get_statistics_frequency X" f_statistics_frequency "\<lambda>v. 0 < v" "\<lambda>s. True"
  "\<lambda>v. 60 \<le> v" stats_ok for X
proof unfold_locales
  show "f_statistics_frequency t = v \<and> 0 < v"
    if "get_statistics_frequency X s = (Inr v, t)" for s v t
    using that by (auto simp: get_statistics_frequency_def Let_def split: if_splits)
  show "stats_ok t" if "stats_ok s" "get_statistics_frequency X s = (r, t)" for s r t
  proof -
    note f = frequency_fetch [OF that(2,1)]
    obtain v where "t = s\<lparr>f_statistics_frequency := v\<rparr>" using f(3) by blast
    then show ?thesis using f(1) that(1) by (simp add: stats_ok_def)
  qed
qed (auto simp: get_statistics_frequency_def stats_ok_def)


interpretation period: ranged_setting
  "get_statistics_period X" f_statistics_period "\<lambda>v. 0 < v" "\<lambda>s. True"
  "\<lambda>v. 3600 \<le> v \<and> 3600 dvd v" stats_ok for X
proof unfold_locales
  fix s t v
  assume g: "get_statistics_period X s = (Inr v, t)"
  have "3600 \<le> round_up_period (max 3600 p)" for p
    using round_up_period_bounds(1) [of "max 3600 p"] by linarith
  then have "0 < round_up_period (max 3600 p)" for p
    by (metis less_le_trans zero_less_numeral)
  then show "f_statistics_period t = v \<and> 0 < v"
    using g by (auto simp: get_statistics_period_def Let_def split: if_splits)
next
  fix s r t
  assume "stats_ok s" and g: "get_statistics_period X s = (r, t)"
  note f = period_fetch [OF g this(1)]
  obtain v where "t = s\<lparr>f_statistics_period := v\<rparr>" using f(4) by blast
  then show "stats_ok t" using f(1,2) \<open>stats_ok s\<close> by (simp add: stats_ok_def)
qed (auto simp: get_statistics_period_def stats_ok_def)

interpretation ttl: ranged_setting
  "get_statistics_ttl X" f_statistics_ttl "\<lambda>v. 0 \<le> v" "\<lambda>s. True"
  "\<lambda>v. v = 0 \<or> 3600 \<le> v" stats_ok for X
proof unfold_locales
  fix s t v
  assume g: "get_statistics_ttl X s = (Inr v, t)"
  obtain r u where p: "get_statistics_period X s = (r, u)" by fastforce
  show "f_statistics_ttl t = v \<and> 0 \<le> v"
    using g p period.fill [of X s]
    by (auto simp: get_statistics_ttl_def Let_def split: if_splits sum.splits intro: less_imp_le)
next
  fix s r t
  assume "stats_ok s" and "get_statistics_ttl X s = (r, t)"
  then show "stats_ok t" by (blast intro: ttl_fetch(4))
qed (auto simp: get_statistics_ttl_def stats_ok_def)

interpretation settle: ranged_setting
  "get_error_report_settle_time X" f_error_report_settle_time "\<lambda>v. 0 \<le> v"
  "\<lambda>s. 0 \<le> f_error_report_settle_time s \<or>
       x_duration X (opt_string s ''error_report_settle_time'') \<noteq> None"
  "\<lambda>v. 60 \<le> v" stats_ok for X
proof unfold_locales
  fix s t v
  assume "0 \<le> f_error_report_settle_time s \<or>
      x_duration X (opt_string s ''error_report_settle_time'') \<noteq> None"
    and "get_error_report_settle_time X s = (Inr v, t)"
  then show "f_error_report_settle_time t = v \<and> 0 \<le> v"
    by (auto simp: get_error_report_settle_time_def Let_def split: if_splits option.splits)
next
  fix s r t
  assume "stats_ok s" and g: "get_error_report_settle_time X s = (r, t)"
  note f = settle_fetch [OF g this(1)]
  obtain v where "t = s\<lparr>f_error_report_settle_time := v\<rparr>" using f(3) by blast
  then show "stats_ok t" using f(1) \<open>stats_ok s\<close> by (simp add: stats_ok_def)
qed (auto simp: get_error_report_settle_time_def stats_ok_def)

lemma priority_hits:
  "0 \<le> f_error_report_low_priority s \<Longrightarrow>
     get_error_report_low_priority X s = (Inr (f_error_report_low_priority s), s)"
  "0 \<le> f_error_report_medium_priority s \<Longrightarrow>
     get_error_report_medium_priority X s = (Inr (f_error_report_medium_priority s), s)"
  "0 \<le> f_error_report_critical_priority s \<Longrightarrow>
     get_error_report_critical_priority X s = (Inr (f_error_report_critical_priority s), s)"
  by (simp_all add: get_error_report_low_priority_def get_error_report_medium_priority_def
      get_error_report_critical_priority_def)

interpretation low: ranged_setting
  "get_error_report_low_priority X" f_error_report_low_priority "\<lambda>v. 0 \<le> v"
  "\<lambda>s. integer_keeps X" "\<lambda>v. v \<in> {1..50}" low_ok for X
proof unfold_locales
  fix s t v
  assume k: "integer_keeps X" and g: "get_error_report_low_priority X s = (Inr v, t)"
  show "f_error_report_low_priority t = v \<and> 0 \<le> v"
  proof (cases "0 \<le> f_error_report_low_priority s")
    case True
    then show ?thesis using g by (auto simp: priority_hits)
  next
    case False
    then have "low_ok s" by (simp add: low_ok_def)
    from low_fetch(2,3) [OF g k this] show ?thesis by auto
  qed
next
  fix s r t
  assume "integer_keeps X" "low_ok s" "get_error_report_low_priority X s = (r, t)"
  then show "low_ok t" by (blast intro: low_fetch(1))
qed (auto simp: priority_hits low_ok_def)

interpretation medium: ranged_setting
  "get_error_report_medium_priority X" f_error_report_medium_priority "\<lambda>v. 0 \<le> v"
  "\<lambda>s. integer_keeps X" "\<lambda>v. v \<in> {10..90}" medium_ok for X
proof unfold_locales
  fix s t v
  assume k: "integer_keeps X" and g: "get_error_report_medium_priority X s = (Inr v, t)"
  show "f_error_report_medium_priority t = v \<and> 0 \<le> v"
  proof (cases "0 \<le> f_error_report_medium_priority s")
    case True
    then show ?thesis using g by (auto simp: priority_hits)
  next
    case False
    then have "medium_ok s" by (simp add: medium_ok_def)
    from medium_fetch(2,3) [OF g k this] show ?thesis by auto
  qed
next
  fix s r t
  assume "integer_keeps X" "medium_ok s" "get_error_report_medium_priority X s = (r, t)"
  then show "medium_ok t" by (blast intro: medium_fetch(1))
qed (auto simp: priority_hits medium_ok_def)

lemma critical_short:
  assumes "get_error_report_critical_priority X s = (Inr v, t)" and "integer_keeps X"
    and "f_error_report_critical_priority s < 0"
    and "length (x_split X (opt_string s ''error_report_critical_priority'') '','') \<le> 2"
  shows "v = f_error_report_critical_priority t"
  using assms
  by (auto simp: get_error_report_critical_priority_def Let_def
      split: if_splits list.splits option.splits)

interpretation critical: ranged_setting
  "get_error_report_critical_priority X" f_error_report_critical_priority "\<lambda>v. 0 \<le> v"
  "\<lambda>s. integer_keeps X \<and>
       length (x_split X (opt_string s ''error_report_critical_priority'') '','') \<le> 2"
  "\<lambda>v. v \<in> {1..100}" critical_ok for X
proof unfold_locales
  fix s t v
  assume k: "integer_keeps X \<and>
       length (x_split X (opt_string s ''error_report_critical_priority'') '','') \<le> 2"
    and g: "get_error_report_critical_priority X s = (Inr v, t)"
  show "f_error_report_critical_priority t = v \<and> 0 \<le> v"
  proof (cases "0 \<le> f_error_report_critical_priority s")
    case True
    then show ?thesis using g by (auto simp: priority_hits)
  next
    case False
    then have "critical_ok s" by (simp add: critical_ok_def)
    with critical_fetch(2) [OF g] critical_short [OF g] k False show ?thesis by auto
  qed
next
  fix s r t
  assume "integer_keeps X \<and>
       length (x_split X (opt_string s ''error_report_critical_priority'') '','') \<le> 2"
    "critical_ok s" "get_error_report_critical_priority X s = (r, t)"
  then show "critical_ok t" by (blast intro: critical_fetch(1))
qed (auto simp: priority_hits critical_ok_def)

end
