(* ===== verification/Server.thy ===== *)
theory Server
  imports Settings
begin

text \<open>
  The other operations of \<^verbatim>\<open>sitter/sitter.cpp\<close>: the error sink the plugins report to
  (\<^verbatim>\<open>clear_errors()\<close>, \<^verbatim>\<open>append_error()\<close> and its counters), the description of a process in the
  document (\<^verbatim>\<open>output_process()\<close>), the path of a cache file, the RUSAGE message, the
  communicatord status.

  The locale \<open>error_sink\<close> is the contract of the reports: what the counters are after any
  sequence of them. It is interpreted on \<open>append_error\<close>.
\<close>

section \<open>Errors\<close>

definition clear_errors :: "server \<Rightarrow> server" where
  "clear_errors s = s\<lparr>f_error_count := 0, f_max_error_priority := 0\<rparr>"

definition error_severity :: "int \<Rightarrow> severity" where
  "error_severity priority =
     (if priority \<ge> 90 then Severe
      else if priority \<ge> 70 then Error
      else if priority \<ge> 50 then Major
      else if priority \<ge> 35 then Warning
      else if priority \<ge> 10 then Minor
      else Important)"

text \<open>
  The counters and the log line come first; a priority outside of 0 to 100 raises then, and
  the document gets the error only otherwise.
\<close>

definition append_error :: "jref \<Rightarrow> string \<Rightarrow> string \<Rightarrow> int \<Rightarrow> (server, unit) act" where
  "append_error r plugin_name message priority =
     andthen (modify (\<lambda>s. s\<lparr>
         f_max_error_priority := (if priority > f_max_error_priority s then priority
                                  else f_max_error_priority s),
         f_error_count := f_error_count s + 1,
         logged := logged s @ [(error_severity priority, plugin_name, priority)]\<rparr>)) (\<lambda>_.
     if priority < 0 \<or> priority > 100 then
       throw (Invalid_parameter (''priority must be between 0 and 100 inclusive, ''
                                 @ int_text priority @ '' is not valid.''))
     else
       andthen (append_item (sub r ''error'')) (\<lambda>err.
       assign_all err [(''plugin_name'', JStr plugin_name),
                       (''message'', JStr message),
                       (''priority'', JInt priority)]))"

definition get_error_count :: "server \<Rightarrow> int" where
  "get_error_count s = f_error_count s"

definition get_max_error_priority :: "server \<Rightarrow> int" where
  "get_max_error_priority s = f_max_error_priority s"

section \<open>A process in the document\<close>

record process_info =
  pi_command :: string
  pi_pcpu :: rat
  pi_total_size :: int
  pi_rss :: int
  pi_tty_major :: int
  pi_tty_minor :: int
  pi_utime :: int
  pi_stime :: int
  pi_cutime :: int
  pi_cstime :: int

definition output_process ::
    "string \<Rightarrow> jref \<Rightarrow> process_info option \<Rightarrow> string \<Rightarrow> int \<Rightarrow> (server, bool) act" where
  "output_process plugin_name json info process_name priority =
     andthen (append_item (sub json ''process'')) (\<lambda>process.
     andthen (assign (sub process ''name'') (JStr process_name)) (\<lambda>_.
     case info of
       None \<Rightarrow>
         andthen (assign (sub process ''error'') (JStr ''missing'')) (\<lambda>_.
         andthen (append_error json plugin_name
             (''can't find mandatory processs \"'' @ process_name
              @ ''\" in the list of processes. network health is not available.'')
             priority) (\<lambda>_.
         ret False))
     | Some i \<Rightarrow>
         andthen (assign_all process
           [(''cmdline'', JStr (pi_command i)),
            (''pcpu'', JNum (pi_pcpu i)),
            (''total_size'', JInt (pi_total_size i)),
            (''resident'', JInt (pi_rss i)),
            (''tty'', JStr (int_text (pi_tty_major i) @ '','' @ int_text (pi_tty_minor i))),
            (''utime'', JStr (int_text (pi_utime i))),
            (''stime'', JStr (int_text (pi_stime i))),
            (''cutime'', JStr (int_text (pi_cutime i))),
            (''cstime'', JStr (int_text (pi_cstime i)))]) (\<lambda>_.
         ret True)))"

section \<open>The path of a cache file\<close>

text \<open>
  The path is remembered when \<^verbatim>\<open>!mkdir_p()\<close> is false, that is when \<^verbatim>\<open>mkdir_p()\<close> does not
  return 0.
\<close>

definition get_cache_path :: "ext \<Rightarrow> string \<Rightarrow> (server, string) act" where
  "get_cache_path X filename s =
     (if f_cache_path s = [] then
        let s1 = s\<lparr>f_cache_path := opt_string s ''cache_path''\<rparr> in
        if x_mkdir_p X (f_cache_path s1) = 0 then (Inr [], s1\<lparr>f_cache_path := []\<rparr>)
        else (Inr (f_cache_path s1 @ ''/'' @ filename), s1)
      else (Inr (f_cache_path s @ ''/'' @ filename), s))"

section \<open>The RUSAGE message\<close>

text \<open>
  \<open>msg\<close> is \<^verbatim>\<open>message.get_parameter()\<close>, \<open>now\<close> is \<^verbatim>\<open>time(nullptr)\<close>. The document is one of its own.
  Adding a \<^verbatim>\<open>time_t\<close> to the file name appends the character with that code.
\<close>

definition rusage_doc :: "(string \<Rightarrow> string) \<Rightarrow> int \<Rightarrow> jdoc" where
  "rusage_doc msg now =
     (let e = [Key ''rusage''] in
      [Member e] @
      map (\<lambda>k. Assign (sub e k) (JStr (msg k)))
        [''process_name'', ''pid'', ''user_time'', ''system_time'', ''maxrss'',
         ''minor_page_fault'', ''major_page_fault'', ''in_block'', ''out_block'',
         ''volontary_context_switches'', ''involontary_context_switches'']
      @ [Assign (sub e ''date'') (JInt now)])"

definition rusage_filename :: "string \<Rightarrow> string \<Rightarrow> int \<Rightarrow> string" where
  "rusage_filename data_path process_name now =
     data_path @ ''/rusage/'' @ process_name @ ''-''
     @ [char_of ((now sdiv 3600) smod 24)] @ ''.json''"

definition record_usage :: "ext \<Rightarrow> (string \<Rightarrow> string) \<Rightarrow> int \<Rightarrow> (server, unit) act" where
  "record_usage X msg now s =
     (let data_path = get_server_parameter ''data_path'' s in
      if data_path = [] then (Inr (), s)
      else if x_mkdir_p X (data_path @ ''/rusage/'') \<noteq> 0 then (Inr (), s)
      else andthen (write_all X (rusage_filename data_path (msg ''process_name'') now)
                      (x_json_text X (rusage_doc msg now))) (\<lambda>_. ret ()) s)"

definition msg_rusage :: "ext \<Rightarrow> (string \<Rightarrow> string) \<Rightarrow> int \<Rightarrow> (server, unit) act" where
  "msg_rusage X msg now = record_usage X msg now"

section \<open>The communicatord status\<close>

definition set_communicatord_connected :: "int \<Rightarrow> bool \<Rightarrow> server \<Rightarrow> server" where
  "set_communicatord_connected now status s =
     (if status then s\<lparr>f_communicatord_connected := now\<rparr>
      else s\<lparr>f_communicatord_disconnected := now\<rparr>)"

definition get_communicatord_is_connected :: "server \<Rightarrow> bool" where
  "get_communicatord_is_connected s \<longleftrightarrow>
     f_communicatord_disconnected s < f_communicatord_connected s"

definition get_communicatord_connected_on :: "server \<Rightarrow> int" where
  "get_communicatord_connected_on s = f_communicatord_connected s"

definition get_communicatord_disconnected_on :: "server \<Rightarrow> int" where
  "get_communicatord_disconnected_on s = f_communicatord_disconnected s"

section \<open>The ticks handed to the plugins\<close>

definition set_ticks :: "int \<Rightarrow> server \<Rightarrow> server" where
  "set_ticks n s = s\<lparr>f_ticks := n\<rparr>"

definition get_ticks :: "server \<Rightarrow> int" where
  "get_ticks s = f_ticks s"

section \<open>What a report does\<close>

lemma append_error_apply [act_simps]:
  "append_error r p m prio s =
     (let s1 = s\<lparr>f_max_error_priority := max prio (f_max_error_priority s),
                 f_error_count := f_error_count s + 1,
                 logged := logged s @ [(error_severity prio, p, prio)]\<rparr>;
          e = sub r ''error'' @ [Item (appended (doc s) (sub r ''error''))]
      in if prio < 0 \<or> 100 < prio
         then (Inl (Invalid_parameter (''priority must be between 0 and 100 inclusive, ''
                 @ int_text prio @ '' is not valid.'')), s1)
         else (Inr (), s1\<lparr>doc := doc s @ [Append (sub r ''error''),
                 Assign (sub e ''plugin_name'') (JStr p),
                 Assign (sub e ''message'') (JStr m),
                 Assign (sub e ''priority'') (JInt prio)]\<rparr>))"
  by (simp add: append_error_def Let_def assign_all_apply max_def)

text \<open>The priorities of the errors reported so far.\<close>

definition priorities :: "server \<Rightarrow> int list" where
  "priorities s = map (snd \<circ> snd) (logged s)"

lemma reports_updates [simp]:
  "priorities (s\<lparr>doc := d\<rparr>) = priorities s"
  "priorities (s\<lparr>files := fs\<rparr>) = priorities s"
  "priorities (s\<lparr>f_cache_path := cp\<rparr>) = priorities s"
  "get_server_parameter n (s\<lparr>doc := d\<rparr>) = get_server_parameter n s"
  by (simp_all add: priorities_def get_server_parameter_def)

lemma append_error_outcome:
  "fst (append_error r p m prio s) = (if prio < 0 \<or> 100 < prio
     then Inl (Invalid_parameter (''priority must be between 0 and 100 inclusive, ''
                 @ int_text prio @ '' is not valid.'')) else Inr ())"
  "priorities (snd (append_error r p m prio s)) = priorities s @ [prio]"
  "logged (snd (append_error r p m prio s)) = logged s @ [(error_severity prio, p, prio)]"
  "files (snd (append_error r p m prio s)) = files s"
  "f_cache_path (snd (append_error r p m prio s)) = f_cache_path s"
  "get_server_parameter n (snd (append_error r p m prio s)) = get_server_parameter n s"
  by (simp_all add: append_error_apply Let_def priorities_def get_server_parameter_def)

lemma append_error_ok:
  "0 \<le> prio \<Longrightarrow> prio \<le> 100 \<Longrightarrow>
     append_error r p m prio s = (Inr (), snd (append_error r p m prio s))"
  by (simp add: append_error_apply Let_def)

text \<open>
  What a plugin may do to the server: report errors, extend the document, ask for the cache
  path and change files. The counters are exactly those of the errors it logged.
\<close>

definition worst_of :: "int \<Rightarrow> (severity \<times> string \<times> int) list \<Rightarrow> int" where
  "worst_of w l = fold max (map (snd \<circ> snd) l) w"

definition plugin_frame :: "server \<Rightarrow> server \<Rightarrow> bool" where
  "plugin_frame s t \<longleftrightarrow> (\<exists>l d.
     t = s\<lparr>f_error_count := f_error_count s + int (length l),
           f_max_error_priority := worst_of (f_max_error_priority s) l,
           logged := logged s @ l, doc := doc s @ d,
           f_cache_path := f_cache_path t, files := files t\<rparr>)"

lemma worst_of_Nil [simp]: "worst_of w [] = w"
  by (simp add: worst_of_def)

lemma worst_of_append: "worst_of w (l @ l') = worst_of (worst_of w l) l'"
  by (simp add: worst_of_def)

lemma worst_of_Cons [simp]: "worst_of w ((v, p, n) # l) = worst_of (max n w) l"
  by (simp add: worst_of_def)

lemma worst_of_ge: "w \<le> worst_of w l"
proof (induction l arbitrary: w)
  case Nil
  then show ?case by simp
next
  case (Cons e l)
  show ?case using Cons [of "max (snd (snd e)) w"] by (cases e) simp
qed

lemma worst_of_bounds:
  "worst_of w l \<le> b \<longleftrightarrow> w \<le> b \<and> (\<forall>(v, p, n) \<in> set l. n \<le> b)"
  by (induction l arbitrary: w) auto

lemma worst_of_attained: "worst_of w l = w \<or> (\<exists>v p. (v, p, worst_of w l) \<in> set l)"
proof (induction l arbitrary: w)
  case Nil
  then show ?case by simp
next
  case (Cons e l)
  obtain v p n where e: "e = (v, p, n)" by (cases e)
  show ?case using Cons [of "max n w"] by (auto simp: e max_def split: if_splits)
qed

lemma plugin_frameI:
  "t = s\<lparr>f_error_count := f_error_count s + int (length l),
         f_max_error_priority := worst_of (f_max_error_priority s) l,
         logged := logged s @ l, doc := doc s @ d,
         f_cache_path := f_cache_path t, files := files t\<rparr> \<Longrightarrow> plugin_frame s t"
  unfolding plugin_frame_def by blast

lemma plugin_frame_refl [simp, intro]: "plugin_frame s s"
  by (rule plugin_frameI [where l = "[]" and d = "[]"]) simp

lemma plugin_frame_doc: "plugin_frame s (s\<lparr>doc := doc s @ d\<rparr>)"
  by (rule plugin_frameI [where l = "[]" and d = d]) simp

lemma plugin_frame_files: "plugin_frame s (s\<lparr>files := fs\<rparr>)"
  by (rule plugin_frameI [where l = "[]" and d = "[]"]) simp

lemma plugin_frame_cache: "plugin_frame s (s\<lparr>f_cache_path := cp\<rparr>)"
  by (rule plugin_frameI [where l = "[]" and d = "[]"]) simp

lemma plugin_frame_report:
  "plugin_frame s (s\<lparr>f_max_error_priority := max n (f_max_error_priority s),
     f_error_count := f_error_count s + 1,
     logged := logged s @ [(v, p, n)], doc := doc s @ d\<rparr>)"
  by (rule plugin_frameI [where l = "[(v, p, n)]" and d = d]) simp

lemma plugin_frame_rejected:
  "plugin_frame s (s\<lparr>f_max_error_priority := max n (f_max_error_priority s),
     f_error_count := f_error_count s + 1,
     logged := logged s @ [(v, p, n)]\<rparr>)"
  by (rule plugin_frameI [where l = "[(v, p, n)]" and d = "[]"]) simp

lemma plugin_frame_trans [trans]:
  assumes "plugin_frame s t" and "plugin_frame t u"
  shows "plugin_frame s u"
proof -
  obtain l d where t: "t = s\<lparr>f_error_count := f_error_count s + int (length l),
           f_max_error_priority := worst_of (f_max_error_priority s) l,
           logged := logged s @ l, doc := doc s @ d,
           f_cache_path := f_cache_path t, files := files t\<rparr>"
    using assms(1) unfolding plugin_frame_def by blast
  obtain l' d' where u: "u = t\<lparr>f_error_count := f_error_count t + int (length l'),
           f_max_error_priority := worst_of (f_max_error_priority t) l',
           logged := logged t @ l', doc := doc t @ d',
           f_cache_path := f_cache_path u, files := files u\<rparr>"
    using assms(2) unfolding plugin_frame_def by blast
  have "u = s\<lparr>f_error_count := f_error_count s + int (length (l @ l')),
           f_max_error_priority := worst_of (f_max_error_priority s) (l @ l'),
           logged := logged s @ (l @ l'), doc := doc s @ (d @ d'),
           f_cache_path := f_cache_path u, files := files u\<rparr>"
    by (subst u, subst (1 2 3 4 5) t) (simp add: worst_of_append)
  then show ?thesis unfolding plugin_frame_def by blast
qed

lemma reflp_plugin_frame [simp, intro]: "reflp plugin_frame"
  by (simp add: reflpI)

lemma transp_plugin_frame [simp, intro]: "transp plugin_frame"
  by (rule transpI) (rule plugin_frame_trans)

lemma plugin_frame_components:
  assumes "plugin_frame s t"
  shows "\<exists>l d. logged t = logged s @ l \<and> doc t = doc s @ d
      \<and> f_error_count t = f_error_count s + int (length l)
      \<and> f_max_error_priority t = worst_of (f_max_error_priority s) l"
    and "opt_defined t = opt_defined s" and "opt_string t = opt_string s"
    and "f_statistics_frequency t = f_statistics_frequency s"
    and "f_communicatord_connected t = f_communicatord_connected s"
    and "f_communicatord_disconnected t = f_communicatord_disconnected s"
    and "f_ticks t = f_ticks s" and "f_stopping t = f_stopping s" and "outbox t = outbox s"
    and "settings_ok t = settings_ok s" and "f_force_restart t = f_force_restart s"
proof -
  obtain l d cp fs where t: "t = s\<lparr>f_error_count := f_error_count s + int (length l),
           f_max_error_priority := worst_of (f_max_error_priority s) l,
           logged := logged s @ l, doc := doc s @ d,
           f_cache_path := cp, files := fs\<rparr>"
    using assms unfolding plugin_frame_def by blast
  show "\<exists>l d. logged t = logged s @ l \<and> doc t = doc s @ d
      \<and> f_error_count t = f_error_count s + int (length l)
      \<and> f_max_error_priority t = worst_of (f_max_error_priority s) l"
    unfolding t by auto
  show "opt_defined t = opt_defined s" "opt_string t = opt_string s"
    "f_statistics_frequency t = f_statistics_frequency s"
    "f_communicatord_connected t = f_communicatord_connected s"
    "f_communicatord_disconnected t = f_communicatord_disconnected s"
    "f_ticks t = f_ticks s" "f_stopping t = f_stopping s" "outbox t = outbox s"
    "settings_ok t = settings_ok s" "f_force_restart t = f_force_restart s"
    by (simp_all add: t settings_defs)
qed

subsection \<open>The frame of each operation\<close>

lemma keeps_member [inv_intros]: "keeps plugin_frame (member r)"
  by (simp add: keeps_def plugin_frame_doc)

lemma keeps_assign [inv_intros]: "keeps plugin_frame (assign r v)"
  by (simp add: keeps_def plugin_frame_doc)

lemma keeps_append_item [inv_intros]: "keeps plugin_frame (append_item r)"
  by (simp add: keeps_def plugin_frame_doc)

lemma keeps_assign_all [inv_intros]: "keeps plugin_frame (assign_all r kvs)"
  by (simp add: keeps_def assign_all_apply plugin_frame_doc)

lemma keeps_unlink [inv_intros]: "keeps plugin_frame (unlink path)"
  by (simp add: keeps_def plugin_frame_files)

lemma keeps_write_all [inv_intros]: "keeps plugin_frame (write_all X path text)"
  by (simp add: keeps_def write_all_apply plugin_frame_files)

lemma keeps_get_cache_path [inv_intros]: "keeps plugin_frame (get_cache_path X name)"
  by (simp add: keeps_def get_cache_path_def Let_def plugin_frame_cache)

lemma keeps_append_error [inv_intros]: "keeps plugin_frame (append_error r p m prio)"
  by (simp add: keeps_def append_error_apply Let_def plugin_frame_report plugin_frame_rejected)

lemmas plugin_keeps = keeps_ret keeps_throw keeps_get keeps_andthen keeps_if keeps_unless
  keeps_for_each keeps_member keeps_assign keeps_append_item keeps_assign_all keeps_unlink
  keeps_write_all keeps_get_cache_path keeps_append_error

text \<open>An operation that only extends the document.\<close>

definition doc_only :: "server \<Rightarrow> server \<Rightarrow> bool" where
  "doc_only s t \<longleftrightarrow> (\<exists>d. t = s\<lparr>doc := doc s @ d\<rparr>)"

lemma reflp_doc_only [simp, intro]: "reflp doc_only"
  unfolding reflp_def doc_only_def by (metis append_Nil2 server.surjective server.update_convs(23))

lemma transp_doc_only [simp, intro]: "transp doc_only"
  unfolding transp_def doc_only_def by auto

lemma keeps_doc_only:
  "keeps doc_only (member r)" "keeps doc_only (assign r v)" "keeps doc_only (append_item r)"
  "keeps doc_only (assign_all r kvs)"
  by (auto simp: keeps_def doc_only_def assign_all_apply)

lemmas doc_keeps = keeps_ret keeps_throw keeps_get keeps_andthen keeps_if keeps_unless
  keeps_for_each keeps_doc_only

section \<open>The contract of the reports\<close>

locale error_sink =
  fixes report :: "'r \<Rightarrow> string \<Rightarrow> string \<Rightarrow> int \<Rightarrow> ('s, unit) act"
    and count :: "'s \<Rightarrow> int"
    and worst :: "'s \<Rightarrow> int"
  assumes count_report: "count (snd (report r p m prio s)) = count s + 1"
    and worst_report: "worst (snd (report r p m prio s)) = max prio (worst s)"
    and accepts: "0 \<le> prio \<Longrightarrow> prio \<le> 100 \<Longrightarrow> fst (report r p m prio s) = Inr ()"
    and rejects: "prio < 0 \<or> 100 < prio \<Longrightarrow> isl (fst (report r p m prio s))"
begin

lemma reports_counted:
  assumes "\<forall>(r, p, m, prio) \<in> set es. 0 \<le> prio \<and> prio \<le> 100"
    and "for_each (\<lambda>(r, p, m, prio). report r p m prio) es s = (res, t)"
  shows "res = Inr () \<and> count t = count s + int (length es)
         \<and> worst t = fold max (map (\<lambda>(r, p, m, prio). prio) es) (worst s)"
  using assms
proof (induction es arbitrary: s)
  case Nil
  then show ?case by simp
next
  case (Cons e es)
  obtain r p m prio where e: "e = (r, p, m, prio)" by (cases e)
  obtain u where u: "report r p m prio s = (Inr (), u)"
    using accepts [of prio r p m s] Cons.prems(1) by (auto simp: e prod_eq_iff)
  have "count u = count s + 1" "worst u = max prio (worst s)"
    using count_report [of r p m prio s] worst_report [of r p m prio s] u by simp_all
  with Cons.IH [of u] Cons.prems u show ?case by (simp add: e)
qed

lemma first_bad_priority_stops:
  assumes "\<forall>(r, p, m, prio) \<in> set es. 0 \<le> prio \<and> prio \<le> 100"
    and "prio < 0 \<or> 100 < prio"
    and "for_each (\<lambda>(r, p, m, prio). report r p m prio) (es @ (r, p, m, prio) # fs) s = (res, t)"
  shows "isl res \<and> count t = count s + int (length es) + 1"
proof -
  obtain u where u: "for_each (\<lambda>(r, p, m, prio). report r p m prio) es s = (Inr (), u)"
    and c: "count u = count s + int (length es)"
    using reports_counted [OF assms(1)] by (metis surj_pair)
  obtain e v where "report r p m prio u = (Inl e, v)"
    using rejects [OF assms(2), of r p m u] by (metis isl_def prod.collapse)
  then show ?thesis
    using assms(3) u c count_report [of r p m prio u] by (auto simp: for_each_append)
qed

end

interpretation sink: error_sink append_error f_error_count f_max_error_priority
  by unfold_locales (auto simp: append_error_apply Let_def)

section \<open>Histories of the communicatord status\<close>

fun statuses :: "(int \<times> bool) list \<Rightarrow> server \<Rightarrow> server" where
  "statuses [] s = s"
| "statuses ((now, status) # h) s = statuses h (set_communicatord_connected now status s)"

lemma statuses_append: "statuses (h @ k) s = statuses k (statuses h s)"
  by (induction h s rule: statuses.induct) simp_all

lemma statuses_bound:
  assumes "\<forall>(n, b) \<in> set h. n < now"
    and "f_communicatord_connected s < now" and "f_communicatord_disconnected s < now"
  shows "f_communicatord_connected (statuses h s) < now \<and> f_communicatord_disconnected (statuses h s) < now"
  using assms
proof (induction h s rule: statuses.induct)
  case (2 n b h s)
  then show ?case by (simp add: set_communicatord_connected_def)
qed simp

section \<open>Properties\<close>

text \<open>
  Once the errors are cleared, any sequence of reports with priorities from 0 to 100 is
  accepted, the error count is the number of reports and the maximum priority the greatest
  of theirs; a report with another priority raises, and is counted all the same.
\<close>

theorem reports_since_clear_errors:
  assumes "\<forall>(r, p, m, prio) \<in> set es. 0 \<le> prio \<and> prio \<le> 100"
  shows "(\<exists>t. for_each (\<lambda>(r, p, m, prio). append_error r p m prio) es (clear_errors s) = (Inr (), t)
           \<and> get_error_count t = int (length es)
           \<and> get_max_error_priority t = fold max (map (\<lambda>(r, p, m, prio). prio) es) 0)
     \<and> (prio < 0 \<or> 100 < prio \<longrightarrow>
         (\<exists>e t. for_each (\<lambda>(r, p, m, prio). append_error r p m prio) (es @ (r, p, m, prio) # fs)
                  (clear_errors s) = (Inl e, t)
              \<and> get_error_count t = int (length es) + 1))"
proof -
  obtain res t where t: "for_each (\<lambda>(r, p, m, prio). append_error r p m prio) es (clear_errors s) = (res, t)"
    by fastforce
  obtain bad u where u: "for_each (\<lambda>(r, p, m, prio). append_error r p m prio) (es @ (r, p, m, prio) # fs)
      (clear_errors s) = (bad, u)" by fastforce
  show ?thesis
    using sink.reports_counted [OF assms t] sink.first_bad_priority_stops [OF assms _ u] t u
    by (cases bad) (auto simp: clear_errors_def get_error_count_def get_max_error_priority_def)
qed

theorem reports_since_clear_errors_witness:
  "\<exists>e t. for_each (\<lambda>(r, p, m, prio). append_error r p m prio)
      ([([], ''cpu'', ''busy'', 75)] @ ([], ''disk'', ''full'', 120) # [])
      (clear_errors (new_server (\<lambda>_. True) (\<lambda>_. []) 0)) = (Inl e, t) \<and> get_error_count t = 2"
  using reports_since_clear_errors [of "[([], ''cpu'', ''busy'', 75)]"
      "new_server (\<lambda>_. True) (\<lambda>_. []) 0" 120 "[]" "''disk''" "''full''" "[]"]
  by simp

text \<open>
  When \<^verbatim>\<open>mkdir_p()\<close> answers 0 for the cache directory, as it does on success,
  \<^verbatim>\<open>get_cache_path()\<close> gives an empty path, every time; the path is only given when it
  answers something else.
\<close>

theorem cache_path_needs_mkdir_failure:
  assumes "f_cache_path s = []"
  shows "(x_mkdir_p X (opt_string s ''cache_path'') = 0 \<longrightarrow>
            (\<exists>t. get_cache_path X name s = (Inr [], t) \<and> f_cache_path t = []
                \<and> opt_string t = opt_string s))
       \<and> (x_mkdir_p X (opt_string s ''cache_path'') \<noteq> 0 \<longrightarrow>
            fst (get_cache_path X name s) = Inr (opt_string s ''cache_path'' @ ''/'' @ name))"
  using assms by (simp add: get_cache_path_def)

theorem cache_path_needs_mkdir_failure_witness:
  "fst (get_cache_path plain_host ''last_email_time.txt''
      (new_server (\<lambda>_. True) (\<lambda>_. ''/var/cache/sitter'') 0)) = Inr []"
  using cache_path_needs_mkdir_failure [of "new_server (\<lambda>_. True) (\<lambda>_. ''/var/cache/sitter'') 0"
      plain_host "''last_email_time.txt''"]
  by (auto simp: new_server_def plain_host_def)

text \<open>
  After any history of communicatord status changes whose last date is later than the
  others, the server says it is connected exactly when the last change said so.
\<close>

theorem communicatord_status_is_the_last:
  assumes "\<forall>(n, b) \<in> set h. n < now"
    and "f_communicatord_connected s < now" and "f_communicatord_disconnected s < now"
  shows "get_communicatord_is_connected (statuses (h @ [(now, status)]) s) = status"
  using statuses_bound [OF assms]
  by (simp add: statuses_append set_communicatord_connected_def get_communicatord_is_connected_def)

theorem communicatord_status_is_the_last_witness:
  "\<not> get_communicatord_is_connected
      (statuses ([(5, True)] @ [(9, False)]) (new_server (\<lambda>_. True) (\<lambda>_. []) 2))"
  using communicatord_status_is_the_last [of "[(5, True)]" 9 "new_server (\<lambda>_. True) (\<lambda>_. []) 2" False]
  by (simp add: new_server_def)

end
