(* ===== verification/Plugin.thy ===== *)
theory Plugin
  imports Server
begin

text \<open>
  The contract of a plugin. On each run the worker emits the \<^verbatim>\<open>process_watch\<close> signal, which
  calls \<^verbatim>\<open>on_process_watch(json)\<close> of every plugin in turn with the root of the document.

  The locale \<open>watch_plugin\<close> says what the server may rely on, whatever the plugin finds and
  even if it raises: nothing is removed from the document or from the errors, the counters
  are those of the errors logged, and no setting or status changes. It is interpreted on each
  plugin in the theory of that plugin. A plugin with a state of its own works on a
  state \<open>'w\<close> that the server is a part of.
\<close>

locale watch_plugin =
  fixes watch :: "('w, unit) act"
    and server_of :: "'w \<Rightarrow> server"
  assumes frame: "plugin_frame (server_of w) (server_of (snd (watch w)))"
begin

lemma counters:
  assumes "watch w = (r, w')"
  shows "\<exists>l. logged (server_of w') = logged (server_of w) @ l
    \<and> f_error_count (server_of w') = f_error_count (server_of w) + int (length l)
    \<and> f_max_error_priority (server_of w') = worst_of (f_max_error_priority (server_of w)) l"
  using plugin_frame_components(1) [OF frame [of w]] assms by auto

lemma settings_kept: "watch w = (r, w') \<Longrightarrow> settings_ok (server_of w') = settings_ok (server_of w)"
  using plugin_frame_components(10) [OF frame [of w]] by simp

end

section \<open>Relations that the operations of a plugin keep\<close>

text \<open>
  What the plugins do to the server is written once, for any relation \<open>R\<close> between the server
  before and after that the operations they are made of obey, told whether they raised. No plugin appends to an array
  \<^verbatim>\<open>error\<close> but through \<^verbatim>\<open>append_error()\<close>. \<open>writes\<close> are the files whose
  writing obeys it. \<open>named n\<close> are the paths that \<^verbatim>\<open>get_cache_path()\<close> can give for a name: empty,
  or that name in some directory. Each theory of a plugin adds to the context that the plugin
  obeys such a relation; the contract above is one interpretation, others say which files the
  plugins leave alone and which errors they leave in the document.
\<close>

definition named :: "string \<Rightarrow> string \<Rightarrow> bool" where
  "named n path \<longleftrightarrow> path = [] \<or> (\<exists>dir. path = dir @ ''/'' @ n)"

lemma get_cache_path_named: "get_cache_path X n s = (Inr path, t) \<Longrightarrow> named n path"
  by (auto simp: get_cache_path_def named_def Let_def split: if_splits)

locale server_relation =
  fixes R :: "bool \<Rightarrow> server \<Rightarrow> server \<Rightarrow> bool"
    and writes :: "string \<Rightarrow> bool"
  assumes R_composes: "composes R"
    and R_member: "obeys R (member r)"
    and R_assign: "obeys R (assign r v)"
    and R_append_item: "k \<noteq> ''error'' \<Longrightarrow> obeys R (append_item (sub r k))"
    and R_append_error: "obeys R (append_error r p m prio)"
    and R_cache_path: "obeys R (get_cache_path X n)"
    and R_write_all: "writes path \<Longrightarrow> obeys R (write_all X path content)"
    and R_unlink: "writes path \<Longrightarrow> obeys R (unlink path)"
begin

lemma R_assign_all: "obeys R (assign_all r kvs)"
  unfolding assign_all_def by (intro obeys_for_each R_composes) (auto intro: R_assign)

lemmas rules = obeys_ret obeys_throw obeys_get obeys_andthen obeys_if obeys_unless obeys_for_each
  R_member R_assign R_append_item R_assign_all R_append_error R_cache_path R_write_all R_unlink
  R_composes composes_second

lemma R_output_process: "obeys R (output_process p r i n prio)"
  unfolding output_process_def by (intro rules; cases i) (auto intro!: rules)

lemma cache_path_then:
  assumes "\<And>path. named n path \<Longrightarrow> obeys R (g path)"
  shows "obeys R (andthen (get_cache_path X n) g)"
proof (rule obeysI)
  fix s
  obtain r t where m: "get_cache_path X n s = (r, t)" by fastforce
  note st = obeys_result [OF R_cache_path m]
  show "R (isl (fst (andthen (get_cache_path X n) g s))) s (snd (andthen (get_cache_path X n) g s))"
  proof (cases r)
    case (Inl e)
    then show ?thesis using st m by simp
  next
    case (Inr path)
    then have "R (isl (fst (g path t))) t (snd (g path t))"
      using assms get_cache_path_named m by (blast intro: obeysD)
    then show ?thesis using st m Inr composes_trans [OF R_composes] by simp
  qed
qed

lemma cache_path_then_second:
  fixes g :: "string \<Rightarrow> ('o \<times> server, 'x) act"
  assumes "\<And>path. named n path \<Longrightarrow> obeys (\<lambda>b. second (R b)) (g path)"
  shows "obeys (\<lambda>b. second (R b)) (andthen (on_snd (get_cache_path X n)) g)"
proof (rule obeysI)
  fix w :: "'o \<times> server"
  obtain a s where w: "w = (a, s)" by (cases w)
  obtain r t where m: "get_cache_path X n s = (r, t)" by fastforce
  note st = obeys_result [OF R_cache_path m]
  let ?m = "andthen (on_snd (get_cache_path X n)) g"
  show "second (R (isl (fst (?m w)))) w (snd (?m w))"
  proof (cases r)
    case (Inl e)
    then show ?thesis using st m w by (simp add: andthen_apply on_snd_apply second_def)
  next
    case (Inr path)
    then have "named n path" using get_cache_path_named m by blast
    from obeysD [OF assms [OF this], of "(a, t)"]
    have "second (R (isl (fst (g path (a, t))))) (a, t) (snd (g path (a, t)))" .
    then show ?thesis using st m Inr composes_trans [OF R_composes] w
      by (simp add: andthen_apply on_snd_apply second_def)
  qed
qed

end

interpretation frame: server_relation "\<lambda>_. plugin_frame" "\<lambda>_. True"
  by unfold_locales (simp_all add: obeys_always composes_always keeps_member keeps_assign keeps_append_item
      keeps_append_error keeps_get_cache_path keeps_write_all keeps_unlink)

end
