(* ===== verification/Settings_Use.thy ===== *)
theory Settings_Use
  imports Settings
begin

text \<open>
  The settings as their callers see them: any sequence of reads and of \<^verbatim>\<open>clear_cache()\<close> calls.

  \<open>setting\<close> names the ten getters, \<open>setting_calls\<close> runs a sequence and keeps what each read
  gave. The lemmas show that a loaded setting is only changed by a \<^verbatim>\<open>clear_cache()\<close> of its
  own name (the TTL: also by that of the period), from which the properties follow.
\<close>

section \<open>Sequences of calls\<close>

datatype setting =
    Statistics_frequency | Statistics_period | Statistics_ttl | Settle_time
  | Low_priority | Low_span | Medium_priority | Medium_span | Critical_priority | Critical_span

fun get_setting :: "ext \<Rightarrow> setting \<Rightarrow> (server, int) act" where
  "get_setting X Statistics_frequency = get_statistics_frequency X"
| "get_setting X Statistics_period = get_statistics_period X"
| "get_setting X Statistics_ttl = get_statistics_ttl X"
| "get_setting X Settle_time = get_error_report_settle_time X"
| "get_setting X Low_priority = get_error_report_low_priority X"
| "get_setting X Low_span = get_error_report_low_span X"
| "get_setting X Medium_priority = get_error_report_medium_priority X"
| "get_setting X Medium_span = get_error_report_medium_span X"
| "get_setting X Critical_priority = get_error_report_critical_priority X"
| "get_setting X Critical_span = get_error_report_critical_span X"

datatype setting_call = Read setting | Clear string

fun setting_calls :: "ext \<Rightarrow> setting_call list \<Rightarrow> server \<Rightarrow> (setting \<times> (exn + int)) list \<times> server" where
  "setting_calls X [] s = ([], s)"
| "setting_calls X (Read g # cs) s =
     (case get_setting X g s of (r, t) \<Rightarrow>
        (case setting_calls X cs t of (rs, u) \<Rightarrow> ((g, r) # rs, u)))"
| "setting_calls X (Clear name # cs) s = setting_calls X cs (clear_cache name s)"

text \<open>The bounds the getters enforce; -1 is the settle time of an invalid option.\<close>

fun in_range :: "setting \<Rightarrow> int \<Rightarrow> bool" where
  "in_range Statistics_frequency v \<longleftrightarrow> 60 \<le> v"
| "in_range Statistics_period v \<longleftrightarrow> 3600 \<le> v \<and> 3600 dvd v"
| "in_range Statistics_ttl v \<longleftrightarrow> v = 0 \<or> 3600 \<le> v"
| "in_range Settle_time v \<longleftrightarrow> v < 0 \<or> 60 \<le> v"
| "in_range Low_priority v \<longleftrightarrow> v \<in> {1..50}"
| "in_range Low_span v \<longleftrightarrow> 86400 \<le> v"
| "in_range Medium_priority v \<longleftrightarrow> v \<in> {10..90}"
| "in_range Medium_span v \<longleftrightarrow> 3600 \<le> v"
| "in_range Critical_priority v \<longleftrightarrow> v \<in> {0..100}"
| "in_range Critical_span v \<longleftrightarrow> 300 \<le> v"

fun peek :: "setting \<Rightarrow> server \<Rightarrow> int" where
  "peek Statistics_frequency s = f_statistics_frequency s"
| "peek Statistics_period s = f_statistics_period s"
| "peek Statistics_ttl s = f_statistics_ttl s"
| "peek Settle_time s = f_error_report_settle_time s"
| "peek Low_priority s = f_error_report_low_priority s"
| "peek Low_span s = f_error_report_low_span s"
| "peek Medium_priority s = f_error_report_medium_priority s"
| "peek Medium_span s = f_error_report_medium_span s"
| "peek Critical_priority s = f_error_report_critical_priority s"
| "peek Critical_span s = f_error_report_critical_span s"

text \<open>Whether a getter finds its member loaded; a span goes with its priority.\<close>

fun is_loaded :: "setting \<Rightarrow> server \<Rightarrow> bool" where
  "is_loaded Statistics_frequency s \<longleftrightarrow> 0 < f_statistics_frequency s"
| "is_loaded Statistics_period s \<longleftrightarrow> 0 < f_statistics_period s"
| "is_loaded Statistics_ttl s \<longleftrightarrow> 0 \<le> f_statistics_ttl s"
| "is_loaded Settle_time s \<longleftrightarrow> 0 \<le> f_error_report_settle_time s"
| "is_loaded Low_priority s \<longleftrightarrow> 0 \<le> f_error_report_low_priority s"
| "is_loaded Low_span s \<longleftrightarrow> 0 \<le> f_error_report_low_priority s"
| "is_loaded Medium_priority s \<longleftrightarrow> 0 \<le> f_error_report_medium_priority s"
| "is_loaded Medium_span s \<longleftrightarrow> 0 \<le> f_error_report_medium_priority s"
| "is_loaded Critical_priority s \<longleftrightarrow> 0 \<le> f_error_report_critical_priority s"
| "is_loaded Critical_span s \<longleftrightarrow> 0 \<le> f_error_report_critical_priority s"

text \<open>The names of the options a \<^verbatim>\<open>clear_cache()\<close> of which forgets a setting.\<close>

fun cleared_by :: "setting \<Rightarrow> string set" where
  "cleared_by Statistics_frequency = {''statistics-frequency''}"
| "cleared_by Statistics_period = {''statistics-period''}"
| "cleared_by Statistics_ttl = {''statistics-ttl'', ''statistics-period''}"
| "cleared_by Settle_time = {''error-report-settle-time''}"
| "cleared_by Low_priority = {''error-report-low-priority''}"
| "cleared_by Low_span = {''error-report-low-priority''}"
| "cleared_by Medium_priority = {''error-report-medium-priority''}"
| "cleared_by Medium_span = {''error-report-medium-priority''}"
| "cleared_by Critical_priority = {''error-report-critical-priority''}"
| "cleared_by Critical_span = {''error-report-critical-priority''}"

section \<open>One call\<close>

lemma get_setting_hit: "is_loaded g s \<Longrightarrow> get_setting X g s = (Inr (peek g s), s)"
  by (cases g) (simp_all add: frequency.hit period.hit ttl.hit settle.hit priority_hits
      get_error_report_low_span_def get_error_report_medium_span_def get_error_report_critical_span_def)

lemma span_state:
  "snd (get_error_report_low_span X s) = snd (get_error_report_low_priority X s)"
  "snd (get_error_report_medium_span X s) = snd (get_error_report_medium_priority X s)"
  "snd (get_error_report_critical_span X s) = snd (get_error_report_critical_priority X s)"
  by (auto simp: get_error_report_low_span_def get_error_report_medium_span_def
      get_error_report_critical_span_def andthen_apply split: prod.splits sum.splits)

lemma get_setting_ok:
  assumes "integer_keeps X" and "settings_ok s"
  shows "settings_ok (snd (get_setting X g s))"
  using assms
  by (cases g)
    (auto simp: span_state intro: frequency_fetch_ok period_fetch_ok ttl_fetch_ok settle_fetch_ok
      low_fetch_ok medium_fetch_ok critical_fetch_ok [of X s] intro!: prod.collapse [symmetric])

lemma span_result:
  "fst (get_error_report_low_span X s) =
     map_sum id (\<lambda>_. f_error_report_low_span (snd (get_error_report_low_priority X s)))
       (fst (get_error_report_low_priority X s))"
  "fst (get_error_report_medium_span X s) =
     map_sum id (\<lambda>_. f_error_report_medium_span (snd (get_error_report_medium_priority X s)))
       (fst (get_error_report_medium_priority X s))"
  "fst (get_error_report_critical_span X s) =
     map_sum id (\<lambda>_. f_error_report_critical_span (snd (get_error_report_critical_priority X s)))
       (fst (get_error_report_critical_priority X s))"
  by (auto simp: get_error_report_low_span_def get_error_report_medium_span_def
      get_error_report_critical_span_def andthen_apply split: prod.splits sum.splits)

text \<open>What a read gives, whatever was loaded.\<close>

definition read_ok :: "setting \<Rightarrow> exn + int \<Rightarrow> bool" where
  "read_ok g r \<longleftrightarrow> (case r of Inl e \<Rightarrow> e = Undefined_behavior | Inr v \<Rightarrow> in_range g v)"

lemma map_sum_id_Inl: "map_sum id f r = Inl e \<longleftrightarrow> r = Inl e"
  by (cases r) simp_all

lemma get_setting_read_ok:
  assumes "integer_keeps X" and "settings_ok s"
  shows "read_ok g (fst (get_setting X g s))"
proof -
  have ok: "stats_ok s" "low_ok s" "medium_ok s" "critical_ok s"
    using assms(2) by (simp_all add: settings_ok_def)
  note f = frequency_fetch [OF surjective_pairing ok(1), of X]
  note p = period_fetch [OF surjective_pairing ok(1), of X]
  note t = ttl_fetch [OF surjective_pairing ok(1), of X]
  note e = settle_fetch [OF surjective_pairing ok(1), of X]
  note l = low_fetch [OF surjective_pairing assms(1) ok(2)]
  note m = medium_fetch [OF surjective_pairing assms(1) ok(3)]
  note c = critical_fetch [OF surjective_pairing assms(1) ok(4)]
  show ?thesis
  proof (cases g)
    case Statistics_frequency then show ?thesis using f(1,2) by (simp add: read_ok_def)
  next
    case Statistics_period then show ?thesis using p(1-3) by (simp add: read_ok_def)
  next
    case Statistics_ttl then show ?thesis using t(1,2) by (simp add: read_ok_def)
  next
    case Settle_time then show ?thesis using e(1,2) by (simp add: read_ok_def)
  next
    case Low_priority then show ?thesis using l(1-3) by (auto simp: read_ok_def low_ok_def)
  next
    case Low_span
    then show ?thesis using l(1-3) by (auto simp: read_ok_def low_ok_def span_result)
  next
    case Medium_priority then show ?thesis using m(1-3) by (auto simp: read_ok_def medium_ok_def)
  next
    case Medium_span
    then show ?thesis using m(1-3) by (auto simp: read_ok_def medium_ok_def span_result)
  next
    case Critical_priority
    then show ?thesis using c(1-3) by (auto simp: read_ok_def critical_ok_def)
  next
    case Critical_span
    then show ?thesis using c(1-3) by (auto simp: read_ok_def critical_ok_def span_result)
  qed
qed

text \<open>
  A read leaves its setting loaded with the value it gave, the two settings that are not
  stored on every path apart.
\<close>

fun steady :: "ext \<Rightarrow> setting \<Rightarrow> server \<Rightarrow> bool" where
  "steady X Settle_time s \<longleftrightarrow> x_duration X (opt_string s ''error_report_settle_time'') \<noteq> None"
| "steady X Critical_priority s \<longleftrightarrow>
     length (x_split X (opt_string s ''error_report_critical_priority'') '','') \<le> 2"
| "steady X _ s \<longleftrightarrow> True"

lemma get_setting_fills:
  assumes "integer_keeps X" and "settings_ok s" and "steady X g s"
    and "get_setting X g s = (Inr v, t)"
  shows "is_loaded g t \<and> peek g t = v"
proof -
  have ok: "low_ok s" "medium_ok s" "critical_ok s"
    using assms(2) by (simp_all add: settings_ok_def)
  have l: "\<And>r u. get_error_report_low_priority X s = (r, u) \<Longrightarrow> 0 \<le> f_error_report_low_priority u"
    by (rule low_fetch(2) [OF _ assms(1) ok(1)])
  have m: "\<And>r u. get_error_report_medium_priority X s = (r, u) \<Longrightarrow> 0 \<le> f_error_report_medium_priority u"
    by (rule medium_fetch(2) [OF _ assms(1) ok(2)])
  have c: "\<And>r u. get_error_report_critical_priority X s = (r, u) \<Longrightarrow> 0 \<le> f_error_report_critical_priority u"
    by (rule critical_fetch(2) [OF _ assms(1) ok(3)])
  show ?thesis
    using assms(1,3,4) l m c
      frequency.fill [where X = X and s = s and v = v and t = t] period.fill [where X = X and s = s and v = v and t = t] ttl.fill [where X = X and s = s and v = v and t = t]
      settle.fill [where X = X and s = s and v = v and t = t] low.fill [where X = X and s = s and v = v and t = t] medium.fill [where X = X and s = s and v = v and t = t] critical.fill [where X = X and s = s and v = v and t = t]
    by (cases g)
      (auto simp: get_error_report_low_span_def get_error_report_medium_span_def
        get_error_report_critical_span_def andthen_returns_iff)
qed

lemma ttl_keeps_period:
  "0 < f_statistics_period s \<Longrightarrow> get_statistics_ttl X s = (r, t) \<Longrightarrow>
     f_statistics_period t = f_statistics_period s"
  by (auto simp: get_statistics_ttl_def period.hit Let_def split: if_splits)

lemma get_setting_frame:
  assumes "integer_keeps X" and "settings_ok s"
  shows "\<exists>v w. snd (get_setting X g s) =
     (case g of
        Statistics_frequency \<Rightarrow> s\<lparr>f_statistics_frequency := v\<rparr>
      | Statistics_period \<Rightarrow> s\<lparr>f_statistics_period := v\<rparr>
      | Statistics_ttl \<Rightarrow> s\<lparr>f_statistics_ttl := v, f_statistics_period := w\<rparr>
      | Settle_time \<Rightarrow> s\<lparr>f_error_report_settle_time := v\<rparr>
      | Low_priority \<Rightarrow> s\<lparr>f_error_report_low_priority := v, f_error_report_low_span := w\<rparr>
      | Low_span \<Rightarrow> s\<lparr>f_error_report_low_priority := v, f_error_report_low_span := w\<rparr>
      | Medium_priority \<Rightarrow> s\<lparr>f_error_report_medium_priority := v, f_error_report_medium_span := w\<rparr>
      | Medium_span \<Rightarrow> s\<lparr>f_error_report_medium_priority := v, f_error_report_medium_span := w\<rparr>
      | Critical_priority \<Rightarrow> s\<lparr>f_error_report_critical_priority := v, f_error_report_critical_span := w\<rparr>
      | Critical_span \<Rightarrow> s\<lparr>f_error_report_critical_priority := v, f_error_report_critical_span := w\<rparr>)"
proof -
  have ok: "stats_ok s" "low_ok s" "medium_ok s" "critical_ok s"
    using assms(2) by (simp_all add: settings_ok_def)
  note f = frequency_fetch(3) [OF surjective_pairing ok(1), of X]
  note p = period_fetch(4) [OF surjective_pairing ok(1), of X]
  note t = ttl_fetch(3) [OF surjective_pairing ok(1), of X]
  note e = settle_fetch(3) [OF surjective_pairing ok(1), of X]
  note l = low_fetch(4) [OF surjective_pairing assms(1) ok(2)]
  note m = medium_fetch(4) [OF surjective_pairing assms(1) ok(3)]
  note c = critical_fetch(4) [OF surjective_pairing assms(1) ok(4)]
  show ?thesis
    using f p t e l m c by (cases g) (simp_all add: span_state, blast+)
qed

text \<open>What no getter changes.\<close>

definition same_but_settings :: "server \<Rightarrow> server \<Rightarrow> bool" where
  "same_but_settings s t \<longleftrightarrow> files t = files s \<and> outbox t = outbox s \<and> doc t = doc s
     \<and> logged t = logged s \<and> f_cache_path t = f_cache_path s
     \<and> opt_string t = opt_string s \<and> opt_defined t = opt_defined s
     \<and> f_error_count t = f_error_count s \<and> f_max_error_priority t = f_max_error_priority s
     \<and> f_ticks t = f_ticks s \<and> f_stopping t = f_stopping s \<and> f_force_restart t = f_force_restart s
     \<and> f_communicatord_connected t = f_communicatord_connected s
     \<and> f_communicatord_disconnected t = f_communicatord_disconnected s"

lemma get_setting_rest:
  assumes "integer_keeps X" and "settings_ok s"
  shows "same_but_settings s (snd (get_setting X g s))"
proof -
  note get_setting_frame [OF assms, of g]
  then obtain v w where *: "snd (get_setting X g s) = (case g of
        Statistics_frequency \<Rightarrow> s\<lparr>f_statistics_frequency := v\<rparr>
      | Statistics_period \<Rightarrow> s\<lparr>f_statistics_period := v\<rparr>
      | Statistics_ttl \<Rightarrow> s\<lparr>f_statistics_ttl := v, f_statistics_period := w\<rparr>
      | Settle_time \<Rightarrow> s\<lparr>f_error_report_settle_time := v\<rparr>
      | Low_priority \<Rightarrow> s\<lparr>f_error_report_low_priority := v, f_error_report_low_span := w\<rparr>
      | Low_span \<Rightarrow> s\<lparr>f_error_report_low_priority := v, f_error_report_low_span := w\<rparr>
      | Medium_priority \<Rightarrow> s\<lparr>f_error_report_medium_priority := v, f_error_report_medium_span := w\<rparr>
      | Medium_span \<Rightarrow> s\<lparr>f_error_report_medium_priority := v, f_error_report_medium_span := w\<rparr>
      | Critical_priority \<Rightarrow> s\<lparr>f_error_report_critical_priority := v, f_error_report_critical_span := w\<rparr>
      | Critical_span \<Rightarrow> s\<lparr>f_error_report_critical_priority := v, f_error_report_critical_span := w\<rparr>)"
    by blast
  show ?thesis unfolding * by (cases g) (simp_all add: same_but_settings_def)
qed

lemma get_setting_keeps:
  assumes "integer_keeps X" and "settings_ok s" and "is_loaded h s"
  shows "is_loaded h (snd (get_setting X g s)) \<and> peek h (snd (get_setting X g s)) = peek h s"
proof (cases "is_loaded g s")
  case True
  then show ?thesis using assms(3) by (simp add: get_setting_hit)
next
  case False
  note get_setting_frame [OF assms(1,2), of g]
  then obtain v w where *: "snd (get_setting X g s) = (case g of
        Statistics_frequency \<Rightarrow> s\<lparr>f_statistics_frequency := v\<rparr>
      | Statistics_period \<Rightarrow> s\<lparr>f_statistics_period := v\<rparr>
      | Statistics_ttl \<Rightarrow> s\<lparr>f_statistics_ttl := v, f_statistics_period := w\<rparr>
      | Settle_time \<Rightarrow> s\<lparr>f_error_report_settle_time := v\<rparr>
      | Low_priority \<Rightarrow> s\<lparr>f_error_report_low_priority := v, f_error_report_low_span := w\<rparr>
      | Low_span \<Rightarrow> s\<lparr>f_error_report_low_priority := v, f_error_report_low_span := w\<rparr>
      | Medium_priority \<Rightarrow> s\<lparr>f_error_report_medium_priority := v, f_error_report_medium_span := w\<rparr>
      | Medium_span \<Rightarrow> s\<lparr>f_error_report_medium_priority := v, f_error_report_medium_span := w\<rparr>
      | Critical_priority \<Rightarrow> s\<lparr>f_error_report_critical_priority := v, f_error_report_critical_span := w\<rparr>
      | Critical_span \<Rightarrow> s\<lparr>f_error_report_critical_priority := v, f_error_report_critical_span := w\<rparr>)"
    by blast
  have period: "g = Statistics_ttl \<Longrightarrow> h = Statistics_period \<Longrightarrow> w = f_statistics_period s"
    using * assms(3) ttl_keeps_period [OF _ surjective_pairing, of s X] by simp
  show ?thesis
    using False assms(3) period unfolding * by (cases g; cases h; simp)
qed

lemma clear_keeps:
  "name \<notin> cleared_by h \<Longrightarrow> is_loaded h s \<Longrightarrow>
     is_loaded h (clear_cache name s) \<and> peek h (clear_cache name s) = peek h s"
  by (cases h) (auto simp: clear_cache_def)

section \<open>Sequences\<close>

lemma setting_calls_append:
  "setting_calls X (cs @ ds) s =
     (case setting_calls X cs s of (rs, t) \<Rightarrow>
        (case setting_calls X ds t of (qs, u) \<Rightarrow> (rs @ qs, u)))"
  by (induction X cs s rule: setting_calls.induct) (auto split: prod.splits)

lemma setting_calls_ok:
  assumes "integer_keeps X" and "settings_ok s"
  shows "settings_ok (snd (setting_calls X cs s))
    \<and> (\<forall>(g, r) \<in> set (fst (setting_calls X cs s)). read_ok g r)"
  using assms(2)
proof (induction cs arbitrary: s)
  case Nil
  then show ?case by simp
next
  case (Cons call cs)
  show ?case
  proof (cases call)
    case (Read g)
    then show ?thesis
      using Cons.IH [OF get_setting_ok [OF assms(1) Cons.prems], of g]
        get_setting_read_ok [OF assms(1) Cons.prems, of g]
      by (auto split: prod.splits)
  next
    case (Clear name)
    then show ?thesis using Cons.IH [OF clear_cache_ok [OF Cons.prems]] by simp
  qed
qed

lemma setting_calls_keep:
  assumes "integer_keeps X" and "settings_ok s" and "is_loaded h s"
    and "\<forall>name. Clear name \<in> set cs \<longrightarrow> name \<notin> cleared_by h"
  shows "is_loaded h (snd (setting_calls X cs s)) \<and> peek h (snd (setting_calls X cs s)) = peek h s"
  using assms(2-4)
proof (induction cs arbitrary: s)
  case Nil
  then show ?case by simp
next
  case (Cons call cs)
  show ?case
  proof (cases call)
    case (Read g)
    note kept = get_setting_keeps [OF assms(1) Cons.prems(1,2), of g]
    show ?thesis
      using Read kept Cons.IH [OF get_setting_ok [OF assms(1) Cons.prems(1)] conjunct1 [OF kept]]
        Cons.prems(3) by (auto split: prod.splits)
  next
    case (Clear name)
    note kept = clear_keeps [OF _ Cons.prems(2), of name]
    show ?thesis
      using Clear kept Cons.IH [OF clear_cache_ok [OF Cons.prems(1)], of name] Cons.prems(3)
      by auto
  qed
qed

section \<open>Fresh values\<close>

lemma clear_then_read:
  assumes "name \<in> cleared_by g" and "g = Statistics_ttl \<Longrightarrow> name = ''statistics-period''"
  shows "fst (get_setting X g (clear_cache name s))
       = fst (get_setting X g (new_server d (opt_string s) now))"
  using assms
  by (cases g)
    (simp_all add: clear_cache_def new_server_def get_statistics_frequency_def
      get_statistics_period_def get_statistics_ttl_def get_error_report_settle_time_def
      get_error_report_low_priority_def get_error_report_medium_priority_def
      get_error_report_critical_priority_def span_result Let_def
      split: list.split option.split)

lemma least_period:
  assumes "0 \<le> p" and "3600 dvd m" and "p \<le> m"
  shows "round_up_period p \<le> m"
proof -
  obtain a b where m: "m = 3600 * a" and r: "round_up_period p = 3600 * b"
    using assms(2) round_up_period_bounds(3) [OF assms(1)] by (auto simp: dvd_def)
  have "round_up_period p < m + 3600"
    by (rule less_le_trans [OF round_up_period_bounds(2) [OF assms(1)]]) (simp add: assms(3))
  then have "3600 * b < 3600 * (a + 1)" by (simp add: m r)
  then have "b \<le> a" by simp
  then show ?thesis by (simp add: m r)
qed

section \<open>Properties\<close>





text \<open>
  After \<^verbatim>\<open>clear_cache()\<close> of its name a setting is read from the options again, as in a
  server that just started; forgetting the period forgets the TTL too, which may be that
  period.
\<close>

theorem cleared_setting_is_fresh:
  assumes "name \<in> cleared_by g" and "g \<noteq> Statistics_ttl \<or> name = ''statistics-period''"
  shows "fst (get_setting X g (clear_cache name s))
       = fst (get_setting X g (new_server d (opt_string s) now))"
  using clear_then_read [OF assms(1)] assms(2) by blast

theorem cleared_setting_is_fresh_witness:
  "fst (get_setting plain_host Statistics_ttl (clear_cache ''statistics-period''
      ((new_server (\<lambda>_. True) (\<lambda>_. ''use-period'') 0)\<lparr>f_statistics_ttl := 7200\<rparr>))) = Inr 604800"
proof -
  have n: "plain_number ''use-period'' = None" by code_simp
  have "fst (get_setting plain_host Statistics_ttl
      (new_server (\<lambda>_. True) (\<lambda>_. ''use-period'') 0)) = Inr 604800"
    by (simp add: get_statistics_ttl_def get_statistics_period_def new_server_def Let_def
        duration_or_def plain_host_def n round_up_period_eq)
  with cleared_setting_is_fresh [of "''statistics-period''" Statistics_ttl plain_host
      "(new_server (\<lambda>_. True) (\<lambda>_. ''use-period'') 0)\<lparr>f_statistics_ttl := 7200\<rparr>" "\<lambda>_. True" 0]
  show ?thesis by (simp add: new_server_def)
qed

text \<open>
  The statistics period is the least whole number of hours that is not below the
  configured duration, one hour at least.
\<close>

theorem period_is_least_number_of_hours:
  assumes "f_statistics_period s \<le> 0"
  shows "\<exists>v. fst (get_statistics_period X s) = Inr v
     \<and> 3600 dvd v \<and> max 3600 (duration_or X (opt_string s ''statistics_period'') 604800) \<le> v
     \<and> (\<forall>m. 3600 dvd m \<longrightarrow>
           max 3600 (duration_or X (opt_string s ''statistics_period'') 604800) \<le> m \<longrightarrow> v \<le> m)"
  using assms round_up_period_bounds(1,3) [of "max 3600 (duration_or X (opt_string s ''statistics_period'') 604800)"]
    least_period [of "max 3600 (duration_or X (opt_string s ''statistics_period'') 604800)"]
  by (simp add: get_statistics_period_def Let_def)

theorem period_is_least_number_of_hours_witness:
  "\<exists>v. fst (get_statistics_period plain_host (new_server (\<lambda>_. True) (\<lambda>_. ''7000'') 0)) = Inr v
     \<and> 3600 dvd v \<and> max 3600 (duration_or plain_host ''7000'' 604800) \<le> v"
  using period_is_least_number_of_hours [of "new_server (\<lambda>_. True) (\<lambda>_. ''7000'') 0" plain_host]
  by (auto simp: new_server_def)

text \<open>
  With three parts or more in its option, the critical priority is 0 on the first read,
  which returns \<^verbatim>\<open>false\<close> from a function of type integer, and the default, 90, from then on.
\<close>

theorem critical_priority_extra_parts:
  assumes "f_error_report_critical_priority s < 0"
    and "opt_string s ''error_report_critical_priority'' = str" and "str \<noteq> []"
    and "2 < length (x_split X str '','')"
    and "get_error_report_critical_priority X s = (r, t)"
  shows "r = Inr 0 \<and> get_error_report_critical_priority X t = (Inr 90, t)"
  using assms by (auto simp: get_error_report_critical_priority_def Let_def)

theorem critical_priority_extra_parts_witness:
  "fst (get_error_report_critical_priority plain_host (new_server (\<lambda>_. True) (\<lambda>_. ''95,2,3'') 0)) = Inr 0"
  using critical_priority_extra_parts [of "new_server (\<lambda>_. True) (\<lambda>_. ''95,2,3'') 0" "''95,2,3''"
      plain_host, OF _ _ _ _ surjective_pairing]
  by (simp add: new_server_def plain_host_def)

text \<open>
  The configuration file (\<^verbatim>\<open>conf/sitter.conf\<close>) says that a TTL of 0 turns the feature off, as \<^verbatim>\<open>off\<close>
  does: it gives an hour. It says that the critical priority is never less than the medium one:
  each getter only looks at its own option.
\<close>

lemma zero_ttl_is_an_hour:
  assumes "f_statistics_ttl s < 0" and "x_duration X (opt_string s ''statistics_ttl'') = Some 0"
    and "opt_string s ''statistics_ttl'' \<noteq> ''off''" and "opt_string s ''statistics_ttl'' \<noteq> ''use-period''"
  shows "fst (get_statistics_ttl X s) = Inr 3600"
  using assms by (simp add: get_statistics_ttl_def duration_or_def Let_def)

definition crossed0 :: server where
  "crossed0 = new_server (\<lambda>_. True)
     (\<lambda>name. if name = ''error_report_critical_priority'' then ''20'' else ''80'') 0"

lemma crossed_priorities_are_kept:
  "fst (get_error_report_medium_priority plain_host crossed0) = Inr 80
   \<and> fst (get_error_report_critical_priority plain_host crossed0) = Inr 20"
  by code_simp

end
