(* ===== verification/Worker.thy ===== *)
theory Worker
  imports Plugin Settings_Use
begin

text \<open>
  One pass of the worker thread (\<^verbatim>\<open>sitter/sitter_worker.cpp\<close>): the list of the plugins to
  load, \<^verbatim>\<open>run_plugins()\<close> and \<^verbatim>\<open>report_error()\<close>.

  The plugins keep a state \<open>'p\<close> of their own next to the server: \<^verbatim>\<open>process_watch\<close> is a list of
  computations on \<open>'p \<times> server\<close>, called in order. The boolean next to them in \<open>run_plugins\<close> is
  its static variable \<^verbatim>\<open>err_once\<close>. Dates are \<^verbatim>\<open>time(nullptr)\<close> when it is called: at the start
  and at the end of the plugins, and in \<^verbatim>\<open>report_error()\<close>.
\<close>

section \<open>The list of the plugins\<close>

text \<open>What is asked of \<^verbatim>\<open>serverplugins::names\<close>: every plugin with a prefix, or a list.\<close>

datatype plugin_names = Find_plugins string | Add_names string

definition plugin_name :: "string \<Rightarrow> string" where
  "plugin_name p = (if take 7 p \<noteq> ''sitter_'' then ''sitter_'' @ p else p)"

fun join_names :: "string \<Rightarrow> string list \<Rightarrow> string" where
  "join_names plugins [] = plugins"
| "join_names plugins (p # ps) =
     join_names ((if plugins \<noteq> [] then plugins @ '','' else plugins) @ plugin_name p) ps"

definition load_plugins :: "ext \<Rightarrow> server \<Rightarrow> string \<times> plugin_names" where
  "load_plugins X s =
     (let plugins_path = get_server_parameter ''plugins-path'' s;
          plugins = x_trim X (get_server_parameter ''plugins'' s)
      in (plugins_path,
          if plugins = [] \<or> plugins = ''*'' then Find_plugins ''sitter_''
          else Add_names (join_names [] (x_split X plugins '',''))))"

section \<open>The email about the errors\<close>

definition error_subject :: "ext \<Rightarrow> server \<Rightarrow> string" where
  "error_subject X s =
     ''sitter: found '' @ int_text (get_error_count s) @ '' error''
     @ (if get_error_count s = 1 then [] else ''s'') @ '' on '' @ x_hostname X"

definition error_email :: "ext \<Rightarrow> int \<Rightarrow> server \<Rightarrow> email" where
  "error_email X start_date s =
     (let data = x_json_text X (doc s) in
      \<lparr>em_from = get_server_parameter ''from_email'' s,
       em_to = get_server_parameter ''administrator_email'' s,
       em_subject = error_subject X s,
       em_body = ''<p>'' @ data @ ''</p>'',
       em_attachment = data,
       em_start_date = int_text start_date\<rparr>)"

definition send_email :: "email \<Rightarrow> (server, unit) act" where
  "send_email e = modify (\<lambda>s. s\<lparr>outbox := outbox s @ [e]\<rparr>)"

text \<open>How long to wait after the last email, for a maximum priority.\<close>

definition error_span :: "ext \<Rightarrow> int \<Rightarrow> (server, int) act" where
  "error_span X max_error_priority =
     andthen (get_error_report_low_span X) (\<lambda>span.
     andthen (get_error_report_critical_priority X) (\<lambda>critical.
     if max_error_priority \<ge> critical then get_error_report_critical_span X
     else
       andthen (get_error_report_medium_priority X) (\<lambda>medium.
       if max_error_priority \<ge> medium then get_error_report_medium_span X
       else ret span)))"

text \<open>Whether the file with the date of the last email says that the span has not elapsed.\<close>

definition too_early :: "ext \<Rightarrow> string option \<Rightarrow> int \<Rightarrow> int \<Rightarrow> bool" where
  "too_early X contents now wait =
     (case contents of
        None \<Rightarrow> False
      | Some text \<Rightarrow>
          (case x_integer X text 0 of (ok, last_mail_date) \<Rightarrow> ok \<and> now - last_mail_date < wait))"

definition report_error :: "ext \<Rightarrow> int \<Rightarrow> int \<Rightarrow> (server, unit) act" where
  "report_error X now start_date =
     andthen (get get_max_error_priority) (\<lambda>max_error_priority.
     andthen (get_error_report_low_priority X) (\<lambda>low.
     if max_error_priority < low then ret ()
     else
       andthen (error_span X max_error_priority) (\<lambda>span.
       andthen (get_cache_path X ''last_email_time.txt'') (\<lambda>last_email_filename.
       andthen (get (\<lambda>s. files s last_email_filename)) (\<lambda>contents.
       if too_early X contents now span then ret ()
       else
         andthen (write_all X last_email_filename (int_text now)) (\<lambda>_.
         andthen (get (\<lambda>s. (get_server_parameter ''from_email'' s,
                            get_server_parameter ''administrator_email'' s))) (\<lambda>(from_email, administrator_email).
         if from_email = [] \<or> administrator_email = [] then ret ()
         else andthen (get (error_email X start_date)) send_email)))))))"

section \<open>One run of the plugins\<close>

definition data_date :: "int \<Rightarrow> int \<Rightarrow> int" where
  "data_date start_date period = (start_date sdiv 60 * 60) smod period"

definition save_data :: "ext \<Rightarrow> int \<Rightarrow> (server, unit) act" where
  "save_data X start_date =
     andthen (get (get_server_parameter ''data_path'')) (\<lambda>data_path.
     if data_path = [] then ret ()
     else
       andthen (get_statistics_period X) (\<lambda>period.
       andthen (get (\<lambda>s. x_json_text X (doc s))) (\<lambda>text.
       andthen (write_all X (data_path @ ''/'' @ int_text (data_date start_date period) @ ''.json'') text)
         (\<lambda>_. ret ()))))"

definition process_watch ::
    "(jref \<Rightarrow> ('p \<times> server, unit) act) list \<Rightarrow> jref \<Rightarrow> ('p \<times> server, unit) act" where
  "process_watch plugins json = for_each (\<lambda>plugin. plugin json) plugins"

abbreviation on_server :: "(server, 'x) act \<Rightarrow> (bool \<times> 'p \<times> server, 'x) act" where
  "on_server m \<equiv> on_snd (on_snd m)"

text \<open>
  The parts of \<^verbatim>\<open>run_plugins()\<close> that only the server takes part in: before the plugins, after
  them, and when the document has something in it.
\<close>

definition after_plugins :: "ext \<Rightarrow> int \<Rightarrow> int \<Rightarrow> int \<Rightarrow> (server, unit) act" where
  "after_plugins X start_date end_date now =
     andthen (save_data X start_date) (\<lambda>_.
     andthen (get get_error_count) (\<lambda>error_count.
     if error_count > 0 then
       andthen (get_error_report_settle_time X) (\<lambda>settle.
       if end_date - start_date \<ge> settle then report_error X now start_date else ret ())
     else ret ()))"

definition opened :: "int \<Rightarrow> server \<Rightarrow> server" where
  "opened start_date s = clear_errors (s\<lparr>doc := [Member [Key ''sitter''],
     Assign (sub [Key ''sitter''] ''start_date'') (JInt start_date)]\<rparr>)"

definition closed :: "int \<Rightarrow> server \<Rightarrow> server" where
  "closed end_date s = s\<lparr>doc := doc s @ [Assign (sub [Key ''sitter''] ''end_date'') (JInt end_date)]\<rparr>"

definition run_plugins ::
    "ext \<Rightarrow> (jref \<Rightarrow> ('p \<times> server, unit) act) list \<Rightarrow> int \<Rightarrow> int \<Rightarrow> int
      \<Rightarrow> (bool \<times> 'p \<times> server, unit) act" where
  "run_plugins X plugins start_date end_date now =
     (let root = [Key ''sitter''] in
      andthen (on_server (modify (\<lambda>s. s\<lparr>doc := []\<rparr>))) (\<lambda>_.
      andthen (on_server (member root)) (\<lambda>_.
      andthen (on_server (assign (sub root ''start_date'') (JInt start_date))) (\<lambda>_.
      andthen (on_server (modify clear_errors)) (\<lambda>_.
      andthen (on_snd (process_watch plugins root)) (\<lambda>_.
      andthen (on_server (assign (sub root ''end_date'') (JInt end_date))) (\<lambda>_.
      andthen (get (\<lambda>(_, _, s). x_json_members X (doc s) root)) (\<lambda>size.
      if size \<le> 2 then on_fst (modify (\<lambda>err_once. False))
      else
        andthen (on_server (save_data X start_date)) (\<lambda>_.
        andthen (get (\<lambda>(_, _, s). get_error_count s)) (\<lambda>error_count.
        if error_count > 0 then
          let diff = end_date - start_date in
          andthen (on_server (get_error_report_settle_time X)) (\<lambda>settle.
          if diff \<ge> settle then on_server (report_error X now start_date) else ret ())
        else ret ()))))))))))"

section \<open>The names of the plugins\<close>

lemma plugin_name_prefix: "take 7 (plugin_name p) = ''sitter_''"
  by (simp add: plugin_name_def)

lemma plugin_name_idem [simp]: "plugin_name (plugin_name p) = plugin_name p"
  by (simp add: plugin_name_prefix plugin_name_def [of "plugin_name p"])

lemma plugin_name_not_empty [simp]: "plugin_name p \<noteq> []"
  using plugin_name_prefix [of p] by auto

lemma join_names_text:
  "join_names plugins ps = plain_join '','' ((if plugins = [] then [] else [plugins]) @ map plugin_name ps)"
proof (induction ps arbitrary: plugins)
  case Nil
  then show ?case by simp
next
  case (Cons p ps)
  have "plain_join '','' ((a @ '','' @ b) # l) = plain_join '','' (a # b # l)" for a b and l :: "string list"
    by (cases l) simp_all
  then show ?case using Cons by simp
qed

section \<open>The whole list of plugins is a plugin\<close>

text \<open>
  What the worker relies on: each plugin of the list keeps the contract \<open>watch_plugin\<close>; so does
  then \<^verbatim>\<open>process_watch\<close>.
\<close>

locale plugin_list =
  fixes plugins :: "(jref \<Rightarrow> ('p \<times> server, unit) act) list"
  assumes each: "p \<in> set plugins \<Longrightarrow> plugin_frame (snd w) (snd (snd (p json w)))"
begin

lemma keeps_process_watch: "keeps (second plugin_frame) (process_watch plugins json)"
  unfolding process_watch_def
  by (intro keeps_for_each reflp_second transp_second reflp_plugin_frame transp_plugin_frame)
    (simp add: keeps_def second_def each)

end

sublocale plugin_list \<subseteq> all: watch_plugin "process_watch plugins json" snd for json
  using keepsD [OF keeps_process_watch] by unfold_locales (simp add: second_def)

section \<open>The email about the errors\<close>

text \<open>The file \<^verbatim>\<open>get_cache_path()\<close> names.\<close>

definition cache_file :: "ext \<Rightarrow> string \<Rightarrow> server \<Rightarrow> string" where
  "cache_file X filename s =
     (if f_cache_path s = [] then
        (if x_mkdir_p X (opt_string s ''cache_path'') = 0 then []
         else opt_string s ''cache_path'' @ ''/'' @ filename)
      else f_cache_path s @ ''/'' @ filename)"

lemma get_cache_path_result:
  "\<exists>cp. get_cache_path X filename s = (Inr (cache_file X filename s), s\<lparr>f_cache_path := cp\<rparr>)
    \<and> cache_file X filename (s\<lparr>f_cache_path := cp\<rparr>) = cache_file X filename s"
proof (cases "f_cache_path s = []")
  case True
  then show ?thesis
    by (intro exI [of _ "if x_mkdir_p X (opt_string s ''cache_path'') = 0 then []
        else opt_string s ''cache_path''"]) (simp add: get_cache_path_def cache_file_def Let_def)
next
  case False
  then show ?thesis
    by (intro exI [of _ "f_cache_path s"]) (simp add: get_cache_path_def cache_file_def Let_def)
qed

text \<open>A computation that at most reads settings.\<close>

definition reads :: "ext \<Rightarrow> server \<Rightarrow> server \<Rightarrow> bool" where
  "reads X s t \<longleftrightarrow> (integer_keeps X \<and> settings_ok s \<longrightarrow> settings_ok t \<and> same_but_settings s t)"

lemma reads_refl [simp]: "reads X s s"
  by (simp add: reads_def same_but_settings_def)

lemma reads_trans: "reads X s t \<Longrightarrow> reads X t u \<Longrightarrow> reads X s u"
  by (auto simp: reads_def same_but_settings_def)

lemma reflp_reads [simp, intro]: "reflp (reads X)"
  by (simp add: reflpI)

lemma transp_reads [simp, intro]: "transp (reads X)"
  by (rule transpI) (rule reads_trans)

lemma keeps_reads_setting: "keeps (reads X) (get_setting X g)"
  using get_setting_ok get_setting_rest by (simp add: keeps_def reads_def)

lemmas keeps_reads =
  keeps_reads_setting [of X Low_priority for X, simplified get_setting.simps]
  keeps_reads_setting [of X Low_span for X, simplified get_setting.simps]
  keeps_reads_setting [of X Medium_priority for X, simplified get_setting.simps]
  keeps_reads_setting [of X Medium_span for X, simplified get_setting.simps]
  keeps_reads_setting [of X Critical_priority for X, simplified get_setting.simps]
  keeps_reads_setting [of X Critical_span for X, simplified get_setting.simps]
  keeps_reads_setting [of X Settle_time for X, simplified get_setting.simps]
  keeps_reads_setting [of X Statistics_period for X, simplified get_setting.simps]

lemma keeps_error_span: "keeps (reads X) (error_span X p)"
  unfolding error_span_def
  by (intro keeps_andthen keeps_if keeps_ret keeps_reads reflp_reads transp_reads)

lemma span_at_least:
  assumes "integer_keeps X" and "settings_ok s"
  shows "get_error_report_low_span X s = (Inr v, t) \<Longrightarrow> 300 \<le> v"
    and "get_error_report_medium_span X s = (Inr v, t) \<Longrightarrow> 300 \<le> v"
    and "get_error_report_critical_span X s = (Inr v, t) \<Longrightarrow> 300 \<le> v"
  using get_setting_read_ok [OF assms, of Low_span] get_setting_read_ok [OF assms, of Medium_span]
    get_setting_read_ok [OF assms, of Critical_span]
  by (auto simp: read_ok_def)

lemma settings_ok_reads:
  "integer_keeps X \<Longrightarrow> settings_ok s \<Longrightarrow> keeps (reads X) m \<Longrightarrow> m s = (r, t) \<Longrightarrow> settings_ok t"
  by (metis keeps_result reads_def)

lemma error_span_at_least:
  assumes "integer_keeps X" and "settings_ok s" and "error_span X p s = (Inr v, t)"
  shows "300 \<le> v"
proof -
  obtain low s1 crit s2 where 1: "get_error_report_low_span X s = (Inr low, s1)"
    "get_error_report_critical_priority X s1 = (Inr crit, s2)"
    and r: "(if p \<ge> crit then get_error_report_critical_span X
      else andthen (get_error_report_medium_priority X) (\<lambda>medium.
        if p \<ge> medium then get_error_report_medium_span X else ret low)) s2 = (Inr v, t)"
    using assms(3) unfolding error_span_def andthen_returns_iff by blast
  have ok1: "settings_ok s1" using settings_ok_reads [OF assms(1,2) keeps_reads(2) 1(1)] .
  have ok2: "settings_ok s2" using settings_ok_reads [OF assms(1) ok1 keeps_reads(5) 1(2)] .
  have low: "300 \<le> low" using span_at_least(1) [OF assms(1,2) 1(1)] .
  show ?thesis
  proof (cases "p \<ge> crit")
    case True
    then show ?thesis using r span_at_least(3) [OF assms(1) ok2] by simp
  next
    case False
    obtain med s3 where m: "get_error_report_medium_priority X s2 = (Inr med, s3)"
      and r3: "(if p \<ge> med then get_error_report_medium_span X else ret low) s3 = (Inr v, t)"
      using r False by (auto simp: andthen_returns_iff)
    have ok3: "settings_ok s3" using settings_ok_reads [OF assms(1) ok2 keeps_reads(3) m] .
    show ?thesis using r3 low span_at_least(2) [OF assms(1) ok3] by (cases "p \<ge> med") auto
  qed
qed

text \<open>
  What \<^verbatim>\<open>report_error()\<close> may do: either nothing but reading settings, or, when at least the
  smallest span has elapsed, writing the date and sending at most one email.
\<close>

definition stays_silent :: "server \<Rightarrow> server \<Rightarrow> bool" where
  "stays_silent s t \<longleftrightarrow> outbox t = outbox s \<and> files t = files s"

definition writes_date :: "ext \<Rightarrow> string \<Rightarrow> int \<Rightarrow> server \<Rightarrow> server \<Rightarrow> bool" where
  "writes_date X f now s t \<longleftrightarrow>
     (\<exists>v \<ge> 300. \<not> too_early X (files s f) now v)
     \<and> files t = (if x_can_write X f then (files s)(f \<mapsto> int_text now) else files s)
     \<and> (outbox t = outbox s \<or> (\<exists>e. outbox t = outbox s @ [e]))"

definition mail_part :: "ext \<Rightarrow> string \<Rightarrow> int \<Rightarrow> int \<Rightarrow> int \<Rightarrow> (server, unit) act" where
  "mail_part X f now start_date v =
     andthen (get (\<lambda>s. files s f)) (\<lambda>contents.
       if too_early X contents now v then ret ()
       else
         andthen (write_all X f (int_text now)) (\<lambda>_.
         andthen (get (\<lambda>s. (get_server_parameter ''from_email'' s,
                            get_server_parameter ''administrator_email'' s))) (\<lambda>(from_email, administrator_email).
         if from_email = [] \<or> administrator_email = [] then ret ()
         else andthen (get (error_email X start_date)) send_email)))"

lemma mail_part_result:
  "\<exists>t. mail_part X f now start_date v s = (Inr (), t)
    \<and> settings_ok t = settings_ok s \<and> f_cache_path t = f_cache_path s \<and> opt_string t = opt_string s
    \<and> (if too_early X (files s f) now v then t = s
       else files t = (if x_can_write X f then (files s)(f \<mapsto> int_text now) else files s)
         \<and> outbox t = outbox s
             @ (if get_server_parameter ''from_email'' s = [] \<or> get_server_parameter ''administrator_email'' s = []
                then [] else [error_email X start_date s]))"
proof -
  have p: "get_server_parameter n (s\<lparr>files := fs\<rparr>) = get_server_parameter n s"
    "error_email X start_date (s\<lparr>files := fs\<rparr>) = error_email X start_date s"
    "settings_ok (s\<lparr>files := fs\<rparr>) = settings_ok s" "settings_ok (s\<lparr>outbox := ob\<rparr>) = settings_ok s"
    "settings_ok (s\<lparr>files := fs, outbox := ob\<rparr>) = settings_ok s" for n fs ob
    by (simp_all add: get_server_parameter_def error_email_def error_subject_def get_error_count_def settings_defs)
  show ?thesis
    by (simp add: mail_part_def andthen_apply write_all_apply send_email_def p)
qed

text \<open>The two paths of \<^verbatim>\<open>report_error()\<close> up to the file.\<close>

lemma report_error_split:
  assumes "integer_keeps X" and "settings_ok s"
  shows "(\<exists>r t. report_error X now start_date s = (r, t) \<and> settings_ok t \<and> same_but_settings s t)
    \<or> (\<exists>v u. 300 \<le> v \<and> settings_ok u \<and> files u = files s \<and> outbox u = outbox s \<and> doc u = doc s
          \<and> opt_string u = opt_string s \<and> opt_defined u = opt_defined s \<and> f_error_count u = f_error_count s
          \<and> cache_file X ''last_email_time.txt'' u = cache_file X ''last_email_time.txt'' s
          \<and> report_error X now start_date s
              = mail_part X (cache_file X ''last_email_time.txt'' s) now start_date v u)"
proof -
  let ?p = "f_max_error_priority s"
  obtain low s1 where 1: "get_error_report_low_priority X s = (low, s1)" by fastforce
  have k1: "settings_ok s1 \<and> same_but_settings s s1"
    using keeps_result [OF keeps_reads(1) 1] assms by (simp add: reads_def)
  obtain v s2 where 2: "error_span X ?p s1 = (v, s2)" by fastforce
  have k2: "settings_ok s2 \<and> same_but_settings s1 s2"
    using keeps_result [OF keeps_error_span 2] assms(1) k1 by (simp add: reads_def)
  have k: "same_but_settings s s2" using k1 k2 by (simp add: same_but_settings_def)
  obtain cp where cp: "get_cache_path X ''last_email_time.txt'' s2
        = (Inr (cache_file X ''last_email_time.txt'' s2), s2\<lparr>f_cache_path := cp\<rparr>)"
      "cache_file X ''last_email_time.txt'' (s2\<lparr>f_cache_path := cp\<rparr>) = cache_file X ''last_email_time.txt'' s2"
    using get_cache_path_result by blast
  have cf: "cache_file X ''last_email_time.txt'' s2 = cache_file X ''last_email_time.txt'' s"
    using k by (simp add: same_but_settings_def cache_file_def)
  have report: "report_error X now start_date s =
     (case low of
        Inl e \<Rightarrow> (Inl e, s1)
      | Inr l \<Rightarrow> if ?p < l then (Inr (), s1)
          else (case v of
              Inl e \<Rightarrow> (Inl e, s2)
            | Inr w \<Rightarrow> mail_part X (cache_file X ''last_email_time.txt'' s) now start_date w
                (s2\<lparr>f_cache_path := cp\<rparr>)))"
    unfolding report_error_def mail_part_def
    using 1 2 cp(1) by (simp add: andthen_apply get_max_error_priority_def cf split: sum.split)
  show ?thesis
  proof (cases "\<exists>l w. low = Inr l \<and> \<not> ?p < l \<and> v = Inr w")
    case True
    then obtain l w where lw: "low = Inr l" "\<not> ?p < l" "v = Inr w" by blast
    have "300 \<le> w" using error_span_at_least [OF assms(1) _ 2 [unfolded lw(3)]] k1 by simp
    moreover have "settings_ok (s2\<lparr>f_cache_path := cp\<rparr>)" using k2 by (simp add: settings_defs)
    ultimately show ?thesis
      using lw k cf cp(2) report
      by (intro disjI2 exI [of _ w] exI [of _ "s2\<lparr>f_cache_path := cp\<rparr>"]) (simp add: same_but_settings_def)
  next
    case False
    then show ?thesis using k1 k2 k report by (auto split: sum.splits if_splits)
  qed
qed

lemma report_error_cases:
  assumes "integer_keeps X" and "settings_ok s" and "report_error X now start_date s = (r, t)"
  shows "settings_ok t \<and> opt_string t = opt_string s
    \<and> cache_file X ''last_email_time.txt'' t = cache_file X ''last_email_time.txt'' s
    \<and> (stays_silent s t \<or> writes_date X (cache_file X ''last_email_time.txt'' s) now s t)"
proof -
  consider "settings_ok t" "same_but_settings s t"
    | v u where "300 \<le> v" "settings_ok u" "files u = files s" "outbox u = outbox s" "opt_string u = opt_string s"
        "cache_file X ''last_email_time.txt'' u = cache_file X ''last_email_time.txt'' s"
        "mail_part X (cache_file X ''last_email_time.txt'' s) now start_date v u = (r, t)"
    using report_error_split [OF assms(1,2), of now start_date] assms(3) by auto
  then show ?thesis
  proof cases
    case 1
    then show ?thesis by (simp add: same_but_settings_def stays_silent_def cache_file_def)
  next
    case 2
    let ?f = "cache_file X ''last_email_time.txt'' s"
    obtain t' where t': "mail_part X ?f now start_date v u = (Inr (), t')" "settings_ok t' = settings_ok u"
      "f_cache_path t' = f_cache_path u" "opt_string t' = opt_string u"
      "if too_early X (files u ?f) now v then t' = u
       else files t' = (if x_can_write X ?f then (files u)(?f \<mapsto> int_text now) else files u)
         \<and> outbox t' = outbox u
             @ (if get_server_parameter ''from_email'' u = [] \<or> get_server_parameter ''administrator_email'' u = []
                then [] else [error_email X start_date u])"
      using mail_part_result [of X ?f now start_date v u] by blast
    have "t' = t" using t'(1) 2(7) by simp
    moreover have "cache_file X ''last_email_time.txt'' t' = cache_file X ''last_email_time.txt'' u"
      using t'(3,4) by (simp add: cache_file_def)
    ultimately show ?thesis
      using 2 t'(2-5) by (auto simp: stays_silent_def writes_date_def split: if_splits)
  qed
qed

section \<open>The history of the emails\<close>

text \<open>
  The dates of the emails sent while the server goes on: \<open>report\<close> is a call of
  \<^verbatim>\<open>report_error()\<close>, \<open>other\<close> is anything else (a run of plugins, a new setting, a restart of the
  service with the files it finds) that leaves the file with the date of the last email alone.
  \<open>f\<close> is that file.
\<close>

inductive mail_history :: "ext \<Rightarrow> string \<Rightarrow> server \<Rightarrow> int list \<Rightarrow> server \<Rightarrow> bool" for X f s where
  start: "settings_ok s \<Longrightarrow> mail_history X f s [] s"
| report: "mail_history X f s ds t \<Longrightarrow> cache_file X ''last_email_time.txt'' t = f
    \<Longrightarrow> report_error X now start_date t = (r, u)
    \<Longrightarrow> mail_history X f s (if outbox u = outbox t then ds else ds @ [now]) u"
| other: "mail_history X f s ds t \<Longrightarrow> files u f = files t f \<Longrightarrow> settings_ok u
    \<Longrightarrow> mail_history X f s ds u"

inductive_cases mail_historyE: "mail_history X f s ds t"

lemma too_early_after:
  assumes "integer_reads_text X" and "\<not> too_early X (Some (int_text m)) now v"
  shows "m + v \<le> now"
  using assms by (simp add: too_early_def integer_reads_text_def)

text \<open>
  The dates \<open>ds\<close> of the emails are five minutes apart, and the file \<open>f\<close> holds a date that is not
  before the last of them.
\<close>

definition spaced :: "string \<Rightarrow> int list \<Rightarrow> server \<Rightarrow> bool" where
  "spaced f ds t \<longleftrightarrow> successively (\<lambda>a b. a + 300 \<le> b) ds
     \<and> (ds = [] \<or> (\<exists>m \<ge> last ds. files t f = Some (int_text m)))"

lemma spaced_same: "files u f = files t f \<Longrightarrow> spaced f ds t \<Longrightarrow> spaced f ds u"
  by (simp add: spaced_def)

lemma spaced_written:
  assumes "integer_reads_text X" and "x_can_write X f" and "spaced f ds t" and "writes_date X f now t u"
  shows "spaced f (if outbox u = outbox t then ds else ds @ [now]) u"
proof -
  obtain v where w: "300 \<le> v" "\<not> too_early X (files t f) now v" "files u f = Some (int_text now)"
    using assms(2,4) by (auto simp: writes_date_def)
  have gap: "last ds + 300 \<le> now" if "ds \<noteq> []"
    using assms(3) that too_early_after [OF assms(1), of _ now v] w(1,2) by (fastforce simp: spaced_def)
  have "now \<ge> last (if outbox u = outbox t then ds else ds @ [now])" if "ds \<noteq> [] \<or> outbox u \<noteq> outbox t"
    using that gap by auto
  moreover have "successively (\<lambda>a b. a + 300 \<le> b) (if outbox u = outbox t then ds else ds @ [now])"
    using assms(3) gap by (auto simp: spaced_def successively_append_iff)
  ultimately show ?thesis using w(3) by (cases "ds = []") (auto simp: spaced_def)
qed

lemma spaced_silent: "stays_silent t u \<Longrightarrow> spaced f ds t \<Longrightarrow> spaced f ds u \<and> outbox u = outbox t"
  by (simp add: spaced_def stays_silent_def)

lemma mail_history_spaced:
  assumes "mail_history X f s ds t" and "integer_keeps X" and "integer_reads_text X" and "x_can_write X f"
  shows "settings_ok t \<and> spaced f ds t"
  using assms(1)
proof (induction rule: mail_history.induct)
  case start
  then show ?case by (simp add: spaced_def)
next
  case (report ds t now start_date r u)
  have "settings_ok u" "stays_silent t u \<or> writes_date X f now t u"
    using report_error_cases [OF assms(2) _ report.hyps(3)] report by auto
  then show ?case
    using spaced_written [OF assms(3,4), of ds t now u] spaced_silent [of t u f ds] report.IH by auto
next
  case (other ds t u)
  then show ?case using spaced_same by blast
qed

section \<open>The data files\<close>

lemma data_date_ring:
  assumes "0 \<le> start_date" and "3600 dvd period" and "0 < period"
  shows "\<exists>k \<ge> 0. data_date start_date period = 60 * k \<and> 60 * k < period"
    and "data_date (start_date + period) period = data_date start_date period"
proof -
  obtain r where "period = 3600 * r" using assms(2) by (rule dvdE)
  then obtain q where q: "period = 60 * q" by (intro that [of "60 * r"]) simp
  have q0: "0 < q" using q assms(3) by simp
  have d: "data_date start_date period = 60 * (start_date div 60 mod q)" if "0 \<le> start_date" for start_date
  proof -
    have "start_date sdiv 60 = start_date div 60" using that by (simp add: signed_divide_int_def sgn_if)
    moreover have "(start_date div 60 * 60) smod period = (start_date div 60 * 60) mod period"
      using that assms(3) by (simp add: signed_modulo_int_def signed_divide_int_def sgn_if minus_mult_div_eq_mod)
    ultimately show ?thesis by (simp add: data_date_def q mult.commute [of _ 60])
  qed
  show "\<exists>k \<ge> 0. data_date start_date period = 60 * k \<and> 60 * k < period"
    using d [OF assms(1)] q q0 by (intro exI [of _ "start_date div 60 mod q"]) simp
  have "(start_date + period) div 60 = start_date div 60 + q" using q by simp
  then show "data_date (start_date + period) period = data_date start_date period"
    using d [OF assms(1)] d [of "start_date + period"] assms by simp
qed

lemma save_data_result:
  assumes "settings_ok s"
  shows "\<exists>t. save_data X start_date s = (Inr (), t)
    \<and> (if get_server_parameter ''data_path'' s = [] then t = s
       else 3600 \<le> f_statistics_period t \<and> 3600 dvd f_statistics_period t
         \<and> (let f = get_server_parameter ''data_path'' s @ ''/''
                    @ int_text (data_date start_date (f_statistics_period t)) @ ''.json''
            in files t = (if x_can_write X f then (files s)(f \<mapsto> x_json_text X (doc s)) else files s)))
    \<and> settings_ok t \<and> opt_string t = opt_string s \<and> outbox t = outbox s \<and> logged t = logged s
    \<and> f_error_count t = f_error_count s \<and> f_max_error_priority t = f_max_error_priority s
    \<and> f_error_report_settle_time t = f_error_report_settle_time s \<and> f_cache_path t = f_cache_path s"
proof (cases "get_server_parameter ''data_path'' s = []")
  case True
  then show ?thesis using assms by (simp add: save_data_def)
next
  case False
  obtain r u where u: "get_statistics_period X s = (r, u)" by fastforce
  have st: "stats_ok s" using assms by (simp add: settings_ok_def)
  note p = period_fetch [OF u st]
  obtain v where v: "u = s\<lparr>f_statistics_period := v\<rparr>" using p(4) by blast
  have ok: "settings_ok u" using assms p(1,2) unfolding v by (simp add: settings_defs)
  have okf: "settings_ok (u\<lparr>files := fs\<rparr>) = settings_ok u" for fs by (simp add: settings_defs)
  show ?thesis
    using False u p(1,2,3) ok okf v
    by (simp add: save_data_def andthen_apply write_all_apply Let_def)
qed

section \<open>A run of the plugins\<close>

lemma on_snd_andthen: "on_snd (andthen m f) = andthen (on_snd m) (\<lambda>x. on_snd (f x))"
  by (auto simp: fun_eq_iff on_snd_apply andthen_apply split: sum.splits prod.splits)

lemma on_snd_get: "on_snd (get f) = get (\<lambda>(_, s). f s)"
  by (auto simp: fun_eq_iff on_snd_apply)

lemma on_snd_ret: "on_snd (ret x) = ret x"
  by (auto simp: fun_eq_iff on_snd_apply)

lemma on_snd_if: "on_snd (if b then m else n) = (if b then on_snd m else on_snd n)"
  by simp

lemma run_plugins_split:
  fixes plugins :: "(jref \<Rightarrow> ('p \<times> server, unit) act) list"
  shows
  "run_plugins X plugins start_date end_date now (b, p, s) =
     (case process_watch plugins [Key ''sitter''] (p, opened start_date s) of
        (Inl e, (p1, s1)) \<Rightarrow> (Inl e, (b, p1, s1))
      | (Inr _, (p1, s1)) \<Rightarrow>
          if x_json_members X (doc (closed end_date s1)) [Key ''sitter''] \<le> 2
          then (Inr (), (False, p1, closed end_date s1))
          else (case after_plugins X start_date end_date now (closed end_date s1) of
                  (r, t) \<Rightarrow> (r, (b, p1, t))))"
proof -
  have rest: "andthen (on_server (save_data X start_date)) (\<lambda>_.
        andthen (get (\<lambda>(_, _, s). get_error_count s)) (\<lambda>error_count.
        if error_count > 0 then
          andthen (on_server (get_error_report_settle_time X)) (\<lambda>settle.
          if end_date - start_date \<ge> settle then on_server (report_error X now start_date) else ret ())
        else ret ())) = (on_server (after_plugins X start_date end_date now) :: (bool \<times> 'p \<times> server, unit) act)"
    unfolding after_plugins_def
    by (simp add: on_snd_andthen on_snd_get on_snd_ret if_distrib [of on_snd] cong: if_cong)
  show ?thesis
    unfolding run_plugins_def Let_def rest
    by (cases "process_watch plugins [Key ''sitter''] (p, opened start_date s)")
      (auto simp: andthen_apply on_fst_apply on_snd_apply opened_def closed_def split: sum.splits prod.splits)
qed

subsection \<open>What follows the plugins reports no error\<close>

definition mails :: "ext \<Rightarrow> server \<Rightarrow> server \<Rightarrow> bool" where
  "mails X s t \<longleftrightarrow> (integer_keeps X \<and> settings_ok s \<longrightarrow>
     settings_ok t \<and> logged t = logged s \<and> f_error_count t = f_error_count s
     \<and> f_max_error_priority t = f_max_error_priority s \<and> doc t = doc s \<and> opt_string t = opt_string s
     \<and> f_communicatord_connected t = f_communicatord_connected s
     \<and> f_communicatord_disconnected t = f_communicatord_disconnected s
     \<and> f_force_restart t = f_force_restart s
     \<and> (f_cache_path t = f_cache_path s
          \<or> f_cache_path s = [] \<and> f_cache_path t = opt_string s ''cache_path''))"

lemma reflp_mails [simp, intro]: "reflp (mails X)"
  by (simp add: reflp_def mails_def)

lemma transp_mails [simp, intro]: "transp (mails X)"
  by (auto simp: transp_def mails_def)

lemma reads_mails: "reads X s t \<Longrightarrow> mails X s t"
  by (auto simp: reads_def mails_def same_but_settings_def)

lemma keeps_reads_mails: "keeps (reads X) m \<Longrightarrow> keeps (mails X) m"
  by (auto simp: keeps_def intro: reads_mails)

lemma keeps_mails_writes:
  "keeps (mails X) (write_all X f text)" "keeps (mails X) (get_cache_path X n)" "keeps (mails X) (send_email e)"
  by (auto simp: keeps_def mails_def write_all_apply get_cache_path_def send_email_def settings_defs Let_def)

lemmas keeps_mails = keeps_ret keeps_get keeps_andthen keeps_if keeps_mails_writes
  keeps_reads [THEN keeps_reads_mails] keeps_error_span [THEN keeps_reads_mails]

lemma keeps_case_prod: "(\<And>a b. keeps R (f a b)) \<Longrightarrow> keeps R (case x of (a, b) \<Rightarrow> f a b)"
  by (simp split: prod.split)

lemma keeps_report_error: "keeps (mails X) (report_error X now start_date)"
  unfolding report_error_def by (intro keeps_mails keeps_case_prod reflp_mails transp_mails)

lemma keeps_after_plugins: "keeps (mails X) (after_plugins X start_date end_date now)"
  unfolding after_plugins_def save_data_def
  by (intro keeps_mails keeps_report_error reflp_mails transp_mails)

text \<open>A settle time of at least a minute, as every valid duration gives.\<close>

definition settles :: "ext \<Rightarrow> server \<Rightarrow> bool" where
  "settles X s \<longleftrightarrow> 0 \<le> f_error_report_settle_time s
     \<or> x_duration X (opt_string s ''error_report_settle_time'') \<noteq> None"

lemma settle_at_least:
  assumes "settings_ok s" and "settles X s" and "get_error_report_settle_time X s = (r, t)"
  shows "\<exists>v. r = Inr v \<and> 60 \<le> v \<and> t = s\<lparr>f_error_report_settle_time := v\<rparr>"
proof -
  have st: "stats_ok s" using assms(1) by (simp add: settings_ok_def)
  have "0 \<le> f_error_report_settle_time t"
    using assms(2,3) by (auto simp: settles_def get_error_report_settle_time_def Let_def split: if_splits)
  then show ?thesis using settle_fetch [OF assms(3) st] by auto
qed

lemma after_quick_plugins:
  assumes "settings_ok s" and "settles X s" and "end_date - start_date < 60"
  shows "\<exists>t. after_plugins X start_date end_date now s = (Inr (), t) \<and> outbox t = outbox s"
proof -
  obtain u where u: "save_data X start_date s = (Inr (), u)" "settings_ok u" "opt_string u = opt_string s"
    "outbox u = outbox s" "f_error_report_settle_time u = f_error_report_settle_time s"
    using save_data_result [OF assms(1)] by blast
  obtain r t where t: "get_error_report_settle_time X u = (r, t)" by fastforce
  have "settles X u" using assms(2) u(3,5) by (simp add: settles_def)
  from settle_at_least [OF u(2) this t] obtain v where
    "r = Inr v" "60 \<le> v" "t = u\<lparr>f_error_report_settle_time := v\<rparr>" by blast
  then show ?thesis using u(1,4) t assms(3) by (simp add: after_plugins_def andthen_apply)
qed

subsection \<open>With plugins that keep their contract\<close>

lemma opened_kept:
  "f_communicatord_connected (opened d s) = f_communicatord_connected s" "f_force_restart (opened d s) = f_force_restart s"
  "f_communicatord_disconnected (opened d s) = f_communicatord_disconnected s"
  "settings_ok (opened d s) = settings_ok s" "outbox (opened d s) = outbox s" "logged (opened d s) = logged s"
  "opt_string (opened d s) = opt_string s" "settles X (opened d s) = settles X s"
  "f_error_count (opened d s) = 0" "f_max_error_priority (opened d s) = 0" "files (opened d s) = files s"
  by (simp_all add: opened_def clear_errors_def settings_defs settles_def)

lemma closed_kept:
  "f_communicatord_connected (closed d s) = f_communicatord_connected s" "f_force_restart (closed d s) = f_force_restart s"
  "f_communicatord_disconnected (closed d s) = f_communicatord_disconnected s"
  "settings_ok (closed d s) = settings_ok s" "outbox (closed d s) = outbox s" "logged (closed d s) = logged s"
  "opt_string (closed d s) = opt_string s" "settles X (closed d s) = settles X s" "files (closed d s) = files s"
  "f_error_count (closed d s) = f_error_count s" "f_max_error_priority (closed d s) = f_max_error_priority s"
  by (simp_all add: closed_def settings_defs settles_def)

lemma plugin_frame_settles:
  assumes "plugin_frame s t"
  shows "settles X t = settles X s"
proof -
  obtain l d cp fs where "t = s\<lparr>f_error_count := f_error_count s + int (length l),
           f_max_error_priority := worst_of (f_max_error_priority s) l,
           logged := logged s @ l, doc := doc s @ d, f_cache_path := cp, files := fs\<rparr>"
    using assms unfolding plugin_frame_def by blast
  then show ?thesis by (simp add: settles_def)
qed

context plugin_list
begin

lemma watch_keeps:
  assumes "process_watch plugins json (p, s) = (r, (p1, t))"
  shows "\<exists>l. logged t = logged s @ l \<and> f_error_count t = f_error_count s + int (length l)
      \<and> f_max_error_priority t = worst_of (f_max_error_priority s) l"
    and "settings_ok t = settings_ok s" and "settles X t = settles X s" and "outbox t = outbox s"
    and "f_communicatord_connected t = f_communicatord_connected s"
    and "f_communicatord_disconnected t = f_communicatord_disconnected s"
    and "f_force_restart t = f_force_restart s"
proof -
  have f: "plugin_frame s t" using all.frame [where json = json and w = "(p, s)"] assms by simp
  note c = plugin_frame_components [OF f]
  show "\<exists>l. logged t = logged s @ l \<and> f_error_count t = f_error_count s + int (length l)
      \<and> f_max_error_priority t = worst_of (f_max_error_priority s) l" using c(1) by blast
  show "settings_ok t = settings_ok s" "outbox t = outbox s" "f_force_restart t = f_force_restart s"
    "f_communicatord_connected t = f_communicatord_connected s"
    "f_communicatord_disconnected t = f_communicatord_disconnected s" using c(5,6,9-11) by simp_all
  show "settles X t = settles X s" using plugin_frame_settles [OF f] .
qed

end

section \<open>Emails without a cache path\<close>

text \<open>
  The settings are loaded, the maximum priority is high enough, the addresses are known, and
  \<^verbatim>\<open>get_cache_path()\<close> gives the empty path, which can neither be read nor written.
\<close>

definition unlimited :: "ext \<Rightarrow> server \<Rightarrow> bool" where
  "unlimited X s \<longleftrightarrow> f_cache_path s = [] \<and> x_mkdir_p X (opt_string s ''cache_path'') = 0
     \<and> files s [] = None \<and> \<not> x_can_write X []
     \<and> get_server_parameter ''from_email'' s \<noteq> [] \<and> get_server_parameter ''administrator_email'' s \<noteq> []
     \<and> is_loaded Low_priority s \<and> is_loaded Medium_priority s \<and> is_loaded Critical_priority s
     \<and> f_error_report_low_priority s \<le> f_max_error_priority s"

lemma unlimited_report:
  assumes "unlimited X s"
  shows "report_error X now start_date s = (Inr (), s\<lparr>outbox := outbox s @ [error_email X start_date s]\<rparr>)"
proof -
  have l: "is_loaded Low_priority s" "is_loaded Low_span s" "is_loaded Medium_priority s" "is_loaded Medium_span s"
    "is_loaded Critical_priority s" "is_loaded Critical_span s"
    using assms by (simp_all add: unlimited_def)
  note hits = l [THEN get_setting_hit [of _ s X], simplified get_setting.simps]
  have same: "s\<lparr>f_cache_path := []\<rparr> = s" using assms by (simp add: unlimited_def)
  have cp: "get_cache_path X ''last_email_time.txt'' s = (Inr [], s)"
    using assms same by (simp add: unlimited_def get_cache_path_def Let_def)
  have "\<exists>v. error_span X p s = (Inr v, s)" for p
    using hits by (simp add: error_span_def andthen_apply)
  then obtain v where v: "error_span X (f_max_error_priority s) s = (Inr v, s)" by blast
  show ?thesis
    using assms hits cp v
    by (simp add: report_error_def andthen_apply get_max_error_priority_def unlimited_def too_early_def
        write_all_apply send_email_def)
qed

lemma unlimited_outbox: "unlimited X s \<Longrightarrow> unlimited X (s\<lparr>outbox := ob\<rparr>)"
  by (auto simp: unlimited_def get_server_parameter_def split: if_splits)

section \<open>Properties\<close>

text \<open>
  As long as the file with the date of the last email can be written and its text is read
  back, any two emails are at least five minutes apart, whatever else happens between them:
  runs, changes of the settings, restarts of the service.
\<close>

theorem emails_five_minutes_apart:
  assumes "mail_history X f s ds t"
    and "integer_keeps X" and "integer_reads_text X" and "x_can_write X f"
  shows "successively (\<lambda>a b. a + 300 \<le> b) ds"
  using mail_history_spaced [OF assms] by (simp add: spaced_def)

definition server0 :: "string \<Rightarrow> server" where
  "server0 path = (new_server (\<lambda>_. True) (\<lambda>_. ''x'') 0)\<lparr>f_cache_path := path, f_max_error_priority := 100,
     f_error_report_low_priority := 10, f_error_report_low_span := 604800,
     f_error_report_medium_priority := 50, f_error_report_medium_span := 259200,
     f_error_report_critical_priority := 90, f_error_report_critical_span := 86400\<rparr>"

lemma server0_ok: "settings_ok (server0 path)"
  by (simp add: server0_def new_server_def settings_defs)

lemma server0_hits:
  "get_error_report_low_priority X (server0 p\<lparr>files := fs, outbox := ob\<rparr>)
     = (Inr 10, server0 p\<lparr>files := fs, outbox := ob\<rparr>)"
  "error_span X 100 (server0 p\<lparr>files := fs, outbox := ob\<rparr>) = (Inr 86400, server0 p\<lparr>files := fs, outbox := ob\<rparr>)"
proof -
  have l: "is_loaded Low_priority (server0 p\<lparr>files := fs, outbox := ob\<rparr>)"
    "is_loaded Low_span (server0 p\<lparr>files := fs, outbox := ob\<rparr>)"
    "is_loaded Critical_priority (server0 p\<lparr>files := fs, outbox := ob\<rparr>)"
    "is_loaded Critical_span (server0 p\<lparr>files := fs, outbox := ob\<rparr>)"
    by (simp_all add: server0_def)
  note hits = l [THEN get_setting_hit [of _ _ X], simplified get_setting.simps]
  show "get_error_report_low_priority X (server0 p\<lparr>files := fs, outbox := ob\<rparr>)
     = (Inr 10, server0 p\<lparr>files := fs, outbox := ob\<rparr>)"
    using hits(1) by (simp add: server0_def)
  show "error_span X 100 (server0 p\<lparr>files := fs, outbox := ob\<rparr>) = (Inr 86400, server0 p\<lparr>files := fs, outbox := ob\<rparr>)"
    using hits by (simp add: error_span_def andthen_apply) (simp add: server0_def)
qed

lemma server0_report:
  "report_error plain_host now d (server0 ''/c''\<lparr>files := fs, outbox := ob\<rparr>) =
     (Inr (), if too_early plain_host (fs ''/c/last_email_time.txt'') now 86400
        then server0 ''/c''\<lparr>files := fs, outbox := ob\<rparr>
        else server0 ''/c''\<lparr>files := fs(''/c/last_email_time.txt'' \<mapsto> int_text now),
               outbox := ob @ [error_email plain_host d (server0 ''/c'')]\<rparr>)"
proof -
  have m: "get_max_error_priority (server0 ''/c''\<lparr>files := fs, outbox := ob\<rparr>) = 100"
    by (simp add: server0_def get_max_error_priority_def)
  have c: "get_cache_path plain_host ''last_email_time.txt'' (server0 ''/c''\<lparr>files := fs, outbox := ob\<rparr>)
      = (Inr ''/c/last_email_time.txt'', server0 ''/c''\<lparr>files := fs, outbox := ob\<rparr>)"
    by (simp add: server0_def get_cache_path_def)
  have g: "get_server_parameter n (server0 ''/c''\<lparr>files := fs', outbox := ob\<rparr>) = ''x''"
    "get_server_parameter n (server0 ''/c''\<lparr>outbox := ob, files := fs'\<rparr>) = ''x''"
    "error_email plain_host d (server0 ''/c''\<lparr>files := fs', outbox := ob\<rparr>) = error_email plain_host d (server0 ''/c'')"
    "error_email plain_host d (server0 ''/c''\<lparr>outbox := ob, files := fs'\<rparr>) = error_email plain_host d (server0 ''/c'')"
    for n fs'
    by (simp_all add: server0_def new_server_def get_server_parameter_def error_email_def error_subject_def
        get_error_count_def)
  have w: "x_can_write plain_host f" for f by (simp add: plain_host_def)
  show ?thesis
    unfolding report_error_def
    by (simp add: andthen_apply m server0_hits c write_all_apply w send_email_def g)
qed

theorem emails_five_minutes_apart_witness:
  "successively (\<lambda>a b. a + 300 \<le> b) [1000, 90000 :: int]"
proof -
  let ?f = "''/c/last_email_time.txt''"
  let ?e = "error_email plain_host 0 (server0 ''/c'')"
  have s: "server0 ''/c'' = server0 ''/c''\<lparr>files := Map.empty, outbox := []\<rparr>"
    by (simp add: server0_def new_server_def)
  have cf: "cache_file plain_host ''last_email_time.txt'' (server0 ''/c''\<lparr>files := fs, outbox := ob\<rparr>) = ?f" for fs ob
    by (simp add: cache_file_def server0_def)
  have n: "int_text m = nat_text (nat m)" if "0 \<le> m" for m using that by (simp add: int_text_def)
  have early: "too_early plain_host (Some (int_text 1000)) 2000 86400"
    "\<not> too_early plain_host (Some (int_text 1000)) 90000 86400" "\<not> too_early plain_host None 1000 86400"
    by (simp_all add: too_early_def plain_host_def)
  have 0: "mail_history plain_host ?f (server0 ''/c'') [] (server0 ''/c''\<lparr>files := Map.empty, outbox := []\<rparr>)"
    using mail_history.start [OF server0_ok] s by metis
  have 1: "mail_history plain_host ?f (server0 ''/c'') [1000]
      (server0 ''/c''\<lparr>files := [?f \<mapsto> int_text 1000], outbox := [?e]\<rparr>)"
    using mail_history.report [OF 0 cf server0_report [of 1000 0]] early(3) by simp
  have 2: "mail_history plain_host ?f (server0 ''/c'') [1000]
      (server0 ''/c''\<lparr>files := [?f \<mapsto> int_text 1000], outbox := [?e]\<rparr>)"
    using mail_history.report [OF 1 cf server0_report [of 2000 0]] early(1) by simp
  have 3: "mail_history plain_host ?f (server0 ''/c'') [1000, 90000]
      (server0 ''/c''\<lparr>files := [?f \<mapsto> int_text 90000], outbox := [?e, ?e]\<rparr>)"
    using mail_history.report [OF 2 cf server0_report [of 90000 0]] early(2) by simp
  show ?thesis
    using emails_five_minutes_apart [OF 3 plain_host_keeps plain_host_reads_text] by (simp add: plain_host_def)
qed

text \<open>
  C31: when \<^verbatim>\<open>mkdir_p()\<close> succeeds, the path of the cache is lost, the date of the last email
  can neither be read nor written, and every report of an error of sufficient priority sends
  an email: the spans are not enforced.
\<close>

theorem emails_without_limit:
  assumes "unlimited X s"
  shows "\<exists>t. for_each (\<lambda>(now, start_date). report_error X now start_date) calls s = (Inr (), t)
    \<and> length (outbox t) = length (outbox s) + length calls"
  using assms
proof (induction calls arbitrary: s)
  case Nil
  then show ?case by simp
next
  case (Cons c calls)
  obtain now d where c: "c = (now, d)" by (cases c)
  show ?case
    using Cons.IH [OF unlimited_outbox [OF Cons.prems], of "outbox s @ [error_email X d s]"]
    by (simp add: c unlimited_report [OF Cons.prems])
qed

theorem emails_without_limit_witness:
  "\<exists>t. for_each (\<lambda>(now, start_date). report_error (plain_host\<lparr>x_can_write := \<lambda>f. f \<noteq> []\<rparr>) now start_date)
      [(1000, 990), (1060, 1050), (1120, 1110)] (server0 []) = (Inr (), t)
    \<and> length (outbox t) = 3"
proof -
  have "unlimited (plain_host\<lparr>x_can_write := \<lambda>f. f \<noteq> []\<rparr>) (server0 [])"
    by (simp add: unlimited_def server0_def new_server_def plain_host_def get_server_parameter_def)
  moreover have "outbox (server0 []) = []" by (simp add: server0_def new_server_def)
  ultimately show ?thesis
    using emails_without_limit [of "plain_host\<lparr>x_can_write := \<lambda>f. f \<noteq> []\<rparr>" "server0 []"
        "[(1000, 990), (1060, 1050), (1120, 1110)]"]
    by (simp add: numeral_3_eq_3 del: for_each.simps)
qed

text \<open>
  C32: a run writes its document to one of the files \<open>0.json\<close>, \<open>60.json\<close>, ... below the statistics
  period, so there are at most period / 60 of them, and the run of the same minute one period
  later writes to the same file.
\<close>

theorem data_files_form_a_ring:
  assumes "settings_ok s" and "0 \<le> start_date" and "get_server_parameter ''data_path'' s \<noteq> []"
    and "x_can_write X = (\<lambda>_. True)"
  shows "\<exists>k t. save_data X start_date s = (Inr (), t) \<and> 0 \<le> k \<and> 60 * k < f_statistics_period t
    \<and> files t = (files s)(get_server_parameter ''data_path'' s @ ''/'' @ int_text (60 * k) @ ''.json''
                   \<mapsto> x_json_text X (doc s))
    \<and> data_date (start_date + f_statistics_period t) (f_statistics_period t) = 60 * k"
proof -
  obtain t where t: "save_data X start_date s = (Inr (), t)" "3600 \<le> f_statistics_period t"
    "3600 dvd f_statistics_period t"
    "files t = (files s)(get_server_parameter ''data_path'' s @ ''/''
        @ int_text (data_date start_date (f_statistics_period t)) @ ''.json'' \<mapsto> x_json_text X (doc s))"
    using save_data_result [OF assms(1), of X start_date] assms(3,4) by (auto simp: Let_def)
  have p: "0 < f_statistics_period t" using t(2) by simp
  obtain k where "0 \<le> k" "data_date start_date (f_statistics_period t) = 60 * k" "60 * k < f_statistics_period t"
    using data_date_ring(1) [OF assms(2) t(3) p] by blast
  then show ?thesis using t data_date_ring(2) [OF assms(2) t(3) p] by auto
qed

theorem data_files_form_a_ring_witness:
  "\<exists>k t. save_data plain_host 1700000000 (server0 []) = (Inr (), t) \<and> 60 * k < f_statistics_period t
    \<and> files t (''x/'' @ int_text (60 * k) @ ''.json'') = Some ''0''"
proof -
  have "x_json_text plain_host (doc (server0 [])) = ''0''"
    by (simp add: server0_def new_server_def plain_host_def nat_text.simps digit_char_def)
  moreover have "get_server_parameter n (server0 []) = ''x''" for n
    by (simp add: server0_def new_server_def get_server_parameter_def)
  ultimately show ?thesis
    using data_files_form_a_ring [OF server0_ok, of 1700000000 "[]" plain_host]
    by (auto simp: plain_host_def) 
qed

end
