(* ===== verification/Sys_Stats.thy ===== *)
theory Sys_Stats
  imports Host
begin

text \<open>
  \<^verbatim>\<open>sitter/sys_stats.h\<close> and \<^verbatim>\<open>sitter/sys_stats.cpp\<close>: the statistics read from \<^verbatim>\<open>/proc\<close>, each
  file at most once between two calls of \<^verbatim>\<open>reset()\<close>.

  \<open>proc\<close> gives the content of a file, \<open>None\<close> when \<^verbatim>\<open>file_contents::read_all()\<close> is false. A
  read outside of a vector is \<open>Undefined_behavior\<close>. The array \<^verbatim>\<open>f_cpu\<close> has no initial value
  in the source, so a new object has it as a parameter. The locale \<open>load_once\<close> is the
  contract of the loaders.
\<close>

section \<open>The object\<close>

datatype cpu_t = CPU_USER_TIME | CPU_NICE_TIME | CPU_SYSTEM_TIME | CPU_IDLE_TIME
  | CPU_IOWAIT_TIME | CPU_IRQ_TIME | CPU_SOFTIRQ_TIME | CPU_STEAL_TIME | CPU_GUEST_TIME

datatype defined_t = DEFINED_UPTIME | DEFINED_LOADAVG | DEFINED_STATS | DEFINED_VMSTATS

record sys_stats =
  f_defined :: "defined_t set"
  f_uptime :: rat
  f_idle :: rat
  f_avg :: "rat list"                       \<comment> \<open>three values\<close>
  f_running_threads :: int
  f_total_threads :: int
  f_last_created_process :: int
  f_cpu :: "int list"                       \<comment> \<open>nine values, in the order of \<open>cpu_t\<close>\<close>
  f_intr :: int
  f_ctxt :: int
  f_boot_time :: int
  f_processes :: int
  f_procs_running :: int
  f_procs_blocked :: int
  f_vmstats :: "string \<rightharpoonup> string"

definition new_sys_stats :: "int list \<Rightarrow> sys_stats" where
  "new_sys_stats cpu = \<lparr>f_defined = {}, f_uptime = 0, f_idle = 0, f_avg = [0, 0, 0],
     f_running_threads = 0, f_total_threads = 0, f_last_created_process = 0, f_cpu = cpu,
     f_intr = 0, f_ctxt = 0, f_boot_time = 0, f_processes = 0, f_procs_running = 0,
     f_procs_blocked = 0, f_vmstats = Map.empty\<rparr>"

definition reset :: "sys_stats \<Rightarrow> sys_stats" where
  "reset st = st\<lparr>f_defined := {}\<rparr>"

type_synonym proc_fs = "string \<Rightarrow> string option"

section \<open>The loaders\<close>

definition load_uptime :: "ext \<Rightarrow> proc_fs \<Rightarrow> (sys_stats, unit) act" where
  "load_uptime X proc st =
     (if DEFINED_UPTIME \<in> f_defined st then (Inr (), st)
      else
        let st = st\<lparr>f_defined := insert DEFINED_UPTIME (f_defined st)\<rparr> in
        case proc ''/proc/uptime'' of
          None \<Rightarrow> (Inr (), st)
        | Some text \<Rightarrow>
            let values = x_split X text '' '';
                st = (if length values \<ge> 1
                      then st\<lparr>f_uptime := snd (x_double X (values ! 0) (f_uptime st))\<rparr> else st);
                st = (if length values \<ge> 2
                      then st\<lparr>f_idle := snd (x_double X (values ! 1) (f_idle st))\<rparr> else st)
            in (Inr (), st))"

text \<open>The loop over the three averages; \<open>idx\<close> is the position of the first value left.\<close>

fun load_avg :: "ext \<Rightarrow> nat \<Rightarrow> string list \<Rightarrow> sys_stats \<Rightarrow> sys_stats" where
  "load_avg X idx [] st = st"
| "load_avg X idx (v # vs) st =
     (if idx < 3
      then load_avg X (Suc idx) vs (st\<lparr>f_avg := (f_avg st)[idx := snd (x_double X v (f_avg st ! idx))]\<rparr>)
      else st)"

text \<open>
  The threads are \<open>running/total\<close> in the fourth value. The two tests there are on the size
  of \<^verbatim>\<open>values\<close>, which is at least 4, not on the size of \<^verbatim>\<open>running_threads\<close>.
\<close>

definition load_threads :: "ext \<Rightarrow> string list \<Rightarrow> (sys_stats, unit) act" where
  "load_threads X values st =
     (let running_threads = x_split X (values ! 3) ''/'' in
      if length values \<ge> 1 \<and> length running_threads < 1 then (Inl Undefined_behavior, st)
      else
        let st = (if length values \<ge> 1
                  then st\<lparr>f_running_threads :=
                            snd (x_integer X (running_threads ! 0) (f_running_threads st))\<rparr>
                  else st) in
        if length values \<ge> 2 \<and> length running_threads < 2 then (Inl Undefined_behavior, st)
        else (Inr (),
              if length values \<ge> 2
              then st\<lparr>f_total_threads :=
                        snd (x_integer X (running_threads ! 1) (f_total_threads st))\<rparr>
              else st))"

definition load_loadavg :: "ext \<Rightarrow> proc_fs \<Rightarrow> (sys_stats, unit) act" where
  "load_loadavg X proc st =
     (if DEFINED_LOADAVG \<in> f_defined st then (Inr (), st)
      else
        let st = st\<lparr>f_defined := insert DEFINED_LOADAVG (f_defined st)\<rparr> in
        case proc ''/proc/loadavg'' of
          None \<Rightarrow> (Inr (), st)
        | Some text \<Rightarrow>
            let values = x_split X text '' '' in
            andthen (modify (load_avg X 0 values)) (\<lambda>_.
            andthen (if length values \<ge> 4 then load_threads X values else ret ()) (\<lambda>_.
            modify (\<lambda>st. if length values \<ge> 5
                         then st\<lparr>f_last_created_process :=
                                   snd (x_integer X (values ! 4) (f_last_created_process st))\<rparr>
                         else st))) st)"

text \<open>A line of \<^verbatim>\<open>/proc/stat\<close>; \<open>store\<close> is the conversion of the second word into a member.\<close>

definition second_word ::
    "ext \<Rightarrow> string \<Rightarrow> (sys_stats \<Rightarrow> int) \<Rightarrow> (int \<Rightarrow> sys_stats \<Rightarrow> sys_stats) \<Rightarrow> sys_stats \<Rightarrow> sys_stats" where
  "second_word X l cur store st =
     (let values = x_split X l '' '' in
      if length values \<ge> 2 then store (snd (x_integer X (values ! 1) (cur st))) st else st)"

text \<open>The loop over the nine times of the \<open>cpu\<close> line, from \<open>idx\<close> on.\<close>

function load_cpu :: "ext \<Rightarrow> string list \<Rightarrow> nat \<Rightarrow> (sys_stats, unit) act" where
  "load_cpu X values idx st =
     (if idx < 9 then
        if idx + 1 < length values then
          load_cpu X values (Suc idx)
            (st\<lparr>f_cpu := (f_cpu st)[idx := snd (x_integer X (values ! (idx + 1)) (f_cpu st ! idx))]\<rparr>)
        else (Inl Undefined_behavior, st)
      else (Inr (), st))"
  by pat_completeness auto
termination
  by (relation "measure (\<lambda>(X, values, idx, st). 9 - idx)") auto

declare load_cpu.simps [simp del]

text \<open>
  \<open>has_at l i t\<close> are the tests \<^verbatim>\<open>l[i] == t[0] && l[i + 1] == t[1] && ...\<close>, which the source
  guards with the length of the line.
\<close>

definition has_at :: "string \<Rightarrow> nat \<Rightarrow> string \<Rightarrow> bool" where
  "has_at l i t \<longleftrightarrow> take (length t) (drop i l) = t"

definition stat_line :: "ext \<Rightarrow> string \<Rightarrow> (sys_stats, unit) act" where
  "stat_line X l st =
     (if l = [] then (Inr (), st)
      else if hd l = CHR ''b'' then
        (if length l > 6 \<and> has_at l 1 ''time ''
         then (Inr (), second_word X l (\<lambda>_. 0) (\<lambda>v st. st\<lparr>f_boot_time := v\<rparr>) st)
         else (Inr (), st))
      else if hd l = CHR ''c'' then
        (if length l > 4 \<and> has_at l 1 ''pu '' then load_cpu X (x_split X l '' '') 0 st
         else if length l > 5 \<and> has_at l 1 ''txt ''
         then (Inr (), second_word X l f_ctxt (\<lambda>v st. st\<lparr>f_ctxt := v\<rparr>) st)
         else (Inr (), st))
      else if hd l = CHR ''i'' then
        (if length l > 5 \<and> has_at l 1 ''ntr ''
         then (Inr (), second_word X l f_intr (\<lambda>v st. st\<lparr>f_intr := v\<rparr>) st)
         else (Inr (), st))
      else if hd l = CHR ''p'' then
        (if length l > 11 \<and> has_at l 1 ''proc'' then
           if has_at l 5 ''esses''
           then (Inr (), second_word X l f_processes (\<lambda>v st. st\<lparr>f_processes := v\<rparr>) st)
           else if length l > 15 \<and> has_at l 5 ''s_'' then
             if has_at l 7 ''running ''
             then (Inr (), second_word X l f_procs_running (\<lambda>v st. st\<lparr>f_procs_running := v\<rparr>) st)
             else if has_at l 7 ''blocked ''
             then (Inr (), second_word X l f_procs_blocked (\<lambda>v st. st\<lparr>f_procs_blocked := v\<rparr>) st)
             else (Inr (), st)
           else (Inr (), st)
         else (Inr (), st))
      else (Inr (), st))"

definition load_stat :: "ext \<Rightarrow> proc_fs \<Rightarrow> (sys_stats, unit) act" where
  "load_stat X proc st =
     (if DEFINED_STATS \<in> f_defined st then (Inr (), st)
      else
        let st = st\<lparr>f_defined := insert DEFINED_STATS (f_defined st)\<rparr> in
        case proc ''/proc/stat'' of
          None \<Rightarrow> (Inr (), st)
        | Some text \<Rightarrow> for_each (stat_line X) (x_split X text [CHR 0x0A]) st)"

text \<open>
  \<^verbatim>\<open>load_map()\<close> clears the map before it looks whether the file was read already. Only the
  map of \<^verbatim>\<open>/proc/vmstat\<close> is ever passed to it.
\<close>

fun map_lines :: "string list \<Rightarrow> (string \<rightharpoonup> string) \<Rightarrow> (string \<rightharpoonup> string)" where
  "map_lines [] m = m"
| "map_lines (l # ls) m =
     map_lines ls (case cut_at (CHR '' '') l of None \<Rightarrow> m | Some (k, v) \<Rightarrow> m(k \<mapsto> v))"

definition load_map :: "ext \<Rightarrow> proc_fs \<Rightarrow> string \<Rightarrow> defined_t \<Rightarrow> sys_stats \<Rightarrow> sys_stats" where
  "load_map X proc filename defined st =
     (let st = st\<lparr>f_vmstats := Map.empty\<rparr> in
      if defined \<in> f_defined st then st
      else
        let st = st\<lparr>f_defined := insert defined (f_defined st)\<rparr> in
        case proc filename of
          None \<Rightarrow> st
        | Some text \<Rightarrow> st\<lparr>f_vmstats := map_lines (x_split X text [CHR 0x0A]) (f_vmstats st)\<rparr>)"

definition load_vmstats :: "ext \<Rightarrow> proc_fs \<Rightarrow> (sys_stats, unit) act" where
  "load_vmstats X proc = modify (load_map X proc ''/proc/vmstat'' DEFINED_VMSTATS)"

definition get_map_int64 :: "ext \<Rightarrow> (string \<rightharpoonup> string) \<Rightarrow> string \<Rightarrow> int" where
  "get_map_int64 X m name = (case m name of None \<Rightarrow> 0 | Some t \<Rightarrow> snd (x_integer X t 0))"

section \<open>The getters\<close>

definition loaded :: "(sys_stats, unit) act \<Rightarrow> (sys_stats \<Rightarrow> 'a) \<Rightarrow> (sys_stats, 'a) act" where
  "loaded load f = andthen load (\<lambda>_. get f)"

definition get_uptime :: "ext \<Rightarrow> proc_fs \<Rightarrow> (sys_stats, rat) act" where
  "get_uptime X proc = loaded (load_uptime X proc) f_uptime"

definition get_idle :: "ext \<Rightarrow> proc_fs \<Rightarrow> (sys_stats, rat) act" where
  "get_idle X proc = loaded (load_uptime X proc) f_idle"

definition get_load_avg1m :: "ext \<Rightarrow> proc_fs \<Rightarrow> (sys_stats, rat) act" where
  "get_load_avg1m X proc = loaded (load_loadavg X proc) (\<lambda>st. f_avg st ! 0)"

definition get_load_avg5m :: "ext \<Rightarrow> proc_fs \<Rightarrow> (sys_stats, rat) act" where
  "get_load_avg5m X proc = loaded (load_loadavg X proc) (\<lambda>st. f_avg st ! 1)"

definition get_load_avg15m :: "ext \<Rightarrow> proc_fs \<Rightarrow> (sys_stats, rat) act" where
  "get_load_avg15m X proc = loaded (load_loadavg X proc) (\<lambda>st. f_avg st ! 2)"

definition get_running_threads :: "ext \<Rightarrow> proc_fs \<Rightarrow> (sys_stats, int) act" where
  "get_running_threads X proc = loaded (load_loadavg X proc) f_running_threads"

definition get_total_threads :: "ext \<Rightarrow> proc_fs \<Rightarrow> (sys_stats, int) act" where
  "get_total_threads X proc = loaded (load_loadavg X proc) f_total_threads"

text \<open>A \<^verbatim>\<open>pid_t\<close> has 32 bits.\<close>

definition get_last_created_process :: "ext \<Rightarrow> proc_fs \<Rightarrow> (sys_stats, int) act" where
  "get_last_created_process X proc =
     loaded (load_loadavg X proc) (\<lambda>st. signed_take_bit 31 (f_last_created_process st))"

fun cpu_index :: "cpu_t \<Rightarrow> nat" where
  "cpu_index CPU_USER_TIME = 0"
| "cpu_index CPU_NICE_TIME = 1"
| "cpu_index CPU_SYSTEM_TIME = 2"
| "cpu_index CPU_IDLE_TIME = 3"
| "cpu_index CPU_IOWAIT_TIME = 4"
| "cpu_index CPU_IRQ_TIME = 5"
| "cpu_index CPU_SOFTIRQ_TIME = 6"
| "cpu_index CPU_STEAL_TIME = 7"
| "cpu_index CPU_GUEST_TIME = 8"

text \<open>The argument is any \<^verbatim>\<open>int\<close> cast to \<^verbatim>\<open>cpu_t\<close>.\<close>

definition get_cpu_stat_at :: "ext \<Rightarrow> proc_fs \<Rightarrow> int \<Rightarrow> (sys_stats, int) act" where
  "get_cpu_stat_at X proc i =
     (if i < 0 \<or> i \<ge> 9 then throw (Out_of_range ''CPU field out of range'')
      else loaded (load_stat X proc) (\<lambda>st. f_cpu st ! nat i))"

definition get_cpu_stat :: "ext \<Rightarrow> proc_fs \<Rightarrow> cpu_t \<Rightarrow> (sys_stats, int) act" where
  "get_cpu_stat X proc c = get_cpu_stat_at X proc (int (cpu_index c))"

definition get_intr :: "ext \<Rightarrow> proc_fs \<Rightarrow> (sys_stats, int) act" where
  "get_intr X proc = loaded (load_stat X proc) f_intr"

definition get_ctxt :: "ext \<Rightarrow> proc_fs \<Rightarrow> (sys_stats, int) act" where
  "get_ctxt X proc = loaded (load_stat X proc) f_ctxt"

definition get_boot_time :: "ext \<Rightarrow> proc_fs \<Rightarrow> (sys_stats, int) act" where
  "get_boot_time X proc = loaded (load_stat X proc) f_boot_time"

definition get_processes :: "ext \<Rightarrow> proc_fs \<Rightarrow> (sys_stats, int) act" where
  "get_processes X proc = loaded (load_stat X proc) f_processes"

definition get_procs_running :: "ext \<Rightarrow> proc_fs \<Rightarrow> (sys_stats, int) act" where
  "get_procs_running X proc = loaded (load_stat X proc) f_procs_running"

definition get_procs_blocked :: "ext \<Rightarrow> proc_fs \<Rightarrow> (sys_stats, int) act" where
  "get_procs_blocked X proc = loaded (load_stat X proc) f_procs_blocked"

definition get_page_in :: "ext \<Rightarrow> proc_fs \<Rightarrow> (sys_stats, int) act" where
  "get_page_in X proc = loaded (load_vmstats X proc) (\<lambda>st. get_map_int64 X (f_vmstats st) ''pgpgin'')"

definition get_page_out :: "ext \<Rightarrow> proc_fs \<Rightarrow> (sys_stats, int) act" where
  "get_page_out X proc = loaded (load_vmstats X proc) (\<lambda>st. get_map_int64 X (f_vmstats st) ''pgpgout'')"

definition get_page_swap_in :: "ext \<Rightarrow> proc_fs \<Rightarrow> (sys_stats, int) act" where
  "get_page_swap_in X proc = loaded (load_vmstats X proc) (\<lambda>st. get_map_int64 X (f_vmstats st) ''pswpin'')"

definition get_page_swap_out :: "ext \<Rightarrow> proc_fs \<Rightarrow> (sys_stats, int) act" where
  "get_page_swap_out X proc = loaded (load_vmstats X proc) (\<lambda>st. get_map_int64 X (f_vmstats st) ''pswpout'')"


section \<open>The loaders read once\<close>

locale load_once =
  fixes load :: "('s, unit) act"
    and is_loaded :: "'s \<Rightarrow> bool"
    and forget :: "'s \<Rightarrow> 's"
  assumes loads: "is_loaded (snd (load s))"
    and once: "is_loaded s \<Longrightarrow> load s = (Inr (), s)"
    and forgets: "\<not> is_loaded (forget s)"
begin

lemma load_again: "load (snd (load s)) = (Inr (), snd (load s))"
  by (rule once [OF loads])

lemma snapshot:
  assumes "andthen load (\<lambda>_. get f) s = (r, t)"
  shows "andthen load (\<lambda>_. get g) t = (Inr (g t), t)"
proof -
  have "t = snd (load s)"
    using assms by (auto simp: andthen_apply split: prod.splits sum.splits)
  then show ?thesis using load_again [of s] by simp
qed

end

lemma load_avg_defined [simp]: "f_defined (load_avg X idx vs st) = f_defined st"
  by (induction X idx vs st rule: load_avg.induct) simp_all

lemma load_threads_defined [simp]: "f_defined (snd (load_threads X vals st)) = f_defined st"
  by (simp add: load_threads_def Let_def)

lemma load_cpu_defined [simp]: "f_defined (snd (load_cpu X vals idx st)) = f_defined st"
proof (induction X vals idx st rule: load_cpu.induct)
  case (1 X vals idx st)
  then show ?case by (subst load_cpu.simps) simp
qed

lemma second_word_defined [simp]:
  "(\<And>v st. f_defined (store v st) = f_defined st) \<Longrightarrow>
     f_defined (second_word X l cur store st) = f_defined st"
  by (simp add: second_word_def Let_def)

lemma stat_line_defined: "f_defined (snd (stat_line X l st)) = f_defined st"
  by (simp add: stat_line_def)

lemma stat_lines_defined [simp]: "f_defined (snd (for_each (stat_line X) ls st)) = f_defined st"
proof -
  have "keeps (\<lambda>s t. f_defined t = f_defined s) (for_each (stat_line X) ls)"
    by (rule keeps_for_each) (auto simp: reflp_def transp_def keeps_def stat_line_defined)
  then show ?thesis by (rule keepsD)
qed

interpretation uptime: load_once "load_uptime X proc" "\<lambda>st. DEFINED_UPTIME \<in> f_defined st" reset
  for X proc
  by unfold_locales (auto simp: load_uptime_def reset_def Let_def split: option.splits)

interpretation loadavg: load_once "load_loadavg X proc" "\<lambda>st. DEFINED_LOADAVG \<in> f_defined st" reset
  for X proc
proof unfold_locales
  fix st
  show "DEFINED_LOADAVG \<in> f_defined (snd (load_loadavg X proc st))"
  proof (cases "proc ''/proc/loadavg''")
    case None
    then show ?thesis by (simp add: load_loadavg_def)
  next
    case (Some content)
    have "keeps (\<lambda>s t. f_defined t = f_defined s)
       (andthen (modify (load_avg X 0 vs)) (\<lambda>_.
        andthen (if length vs \<ge> 4 then load_threads X vs else ret ()) (\<lambda>_.
        modify (\<lambda>st. if length vs \<ge> 5
          then st\<lparr>f_last_created_process := snd (x_integer X (vs ! 4) (f_last_created_process st))\<rparr>
          else st))))" for vs
      by (intro keeps_andthen keeps_modify keeps_if keeps_ret)
        (auto simp: keeps_def reflp_def transp_def)
    from keepsD [OF this] show ?thesis
      using Some by (simp add: load_loadavg_def Let_def)
  qed
qed (auto simp: load_loadavg_def reset_def)

interpretation stat: load_once "load_stat X proc" "\<lambda>st. DEFINED_STATS \<in> f_defined st" reset
  for X proc
  by unfold_locales (auto simp: load_stat_def reset_def Let_def split: option.splits)

lemma loaded_state: "snd (loaded load f st) = snd (load st)"
  by (auto simp: loaded_def andthen_apply split: prod.splits sum.splits)

section \<open>What the loaders store\<close>

lemma load_cpu_values:
  "idx \<le> 9 \<Longrightarrow> length (f_cpu st) = 9 \<Longrightarrow> 9 < length vals \<Longrightarrow>
   load_cpu X vals idx st = (Inr (), st\<lparr>f_cpu := take idx (f_cpu st)
     @ map (\<lambda>i. snd (x_integer X (vals ! (i + 1)) (f_cpu st ! i))) [idx..<9]\<rparr>)"
proof (induction X vals idx st rule: load_cpu.induct)
  case (1 X vals idx st)
  show ?case
  proof (cases "idx < 9")
    case False
    then show ?thesis using "1.prems" by (subst load_cpu.simps) simp
  next
    case True
    let ?v = "snd (x_integer X (vals ! (idx + 1)) (f_cpu st ! idx))"
    let ?st = "st\<lparr>f_cpu := (f_cpu st)[idx := ?v]\<rparr>"
    have "load_cpu X vals idx st = load_cpu X vals (Suc idx) ?st"
      using True "1.prems" by (subst load_cpu.simps) simp
    also have "\<dots> = (Inr (), ?st\<lparr>f_cpu := take (Suc idx) (f_cpu ?st)
     @ map (\<lambda>i. snd (x_integer X (vals ! (i + 1)) (f_cpu ?st ! i))) [Suc idx..<9]\<rparr>)"
      using True "1.prems" by (intro "1.IH") simp_all
    also have "take (Suc idx) (f_cpu ?st) = take idx (f_cpu st) @ [?v]"
      using True "1.prems" by (simp add: take_Suc_conv_app_nth)
    also have "map (\<lambda>i. snd (x_integer X (vals ! (i + 1)) (f_cpu ?st ! i))) [Suc idx..<9]
        = map (\<lambda>i. snd (x_integer X (vals ! (i + 1)) (f_cpu st ! i))) [Suc idx..<9]"
      by simp
    finally show ?thesis using True by (simp add: upt_conv_Cons)
  qed
qed

lemma load_cpu_short:
  "idx < 9 \<Longrightarrow> length vals \<le> 9 \<Longrightarrow> fst (load_cpu X vals idx st) = Inl Undefined_behavior"
proof (induction X vals idx st rule: load_cpu.induct)
  case (1 X vals idx st)
  then show ?case
    by (cases "idx + 1 < length vals"; cases "Suc idx < 9") (subst load_cpu.simps, simp)+
qed

lemma map_lines_eq:
  "map_lines ls m = m ++ map_of (rev (List.map_filter (cut_at (CHR '' '')) ls))"
  by (induction ls arbitrary: m)
    (auto simp: map_filter_simps map_add_def fun_eq_iff split: option.splits)

lemma stat_line_counters:
  assumes "take 5 l \<noteq> ''pproc''"
  shows "f_processes (snd (stat_line X l st)) = f_processes st
     \<and> f_procs_running (snd (stat_line X l st)) = f_procs_running st
     \<and> f_procs_blocked (snd (stat_line X l st)) = f_procs_blocked st"
proof -
  have len: "take 5 l = ''pproc''" if "hd l = CHR ''p''" "has_at l 1 ''proc''" "l \<noteq> []"
    using that by (cases l) (auto simp: has_at_def numeral_eq_Suc)
  have cpu: "f_processes (snd (load_cpu X ws i st)) = f_processes st
     \<and> f_procs_running (snd (load_cpu X ws i st)) = f_procs_running st
     \<and> f_procs_blocked (snd (load_cpu X ws i st)) = f_procs_blocked st" for ws i
  proof (induction X ws i st rule: load_cpu.induct)
    case (1 X ws i st)
    then show ?case by (subst (1 2 3) load_cpu.simps) simp
  qed
  show ?thesis
    using assms len by (auto simp: stat_line_def cpu second_word_def Let_def)
qed


lemma stat_lines_counters:
  assumes "\<forall>l \<in> set ls. take 5 l \<noteq> ''pproc''"
  shows "f_processes (snd (for_each (stat_line X) ls st)) = f_processes st
     \<and> f_procs_running (snd (for_each (stat_line X) ls st)) = f_procs_running st
     \<and> f_procs_blocked (snd (for_each (stat_line X) ls st)) = f_procs_blocked st"
  using assms
proof (induction ls arbitrary: st)
  case Nil
  then show ?case by simp
next
  case (Cons l ls)
  obtain r u where u: "stat_line X l st = (r, u)" by fastforce
  have "f_processes u = f_processes st \<and> f_procs_running u = f_procs_running st
      \<and> f_procs_blocked u = f_procs_blocked st"
    using stat_line_counters [of l X st] Cons.prems u by simp
  then show ?case using Cons u by (cases r) simp_all
qed

section \<open>Properties\<close>


text \<open>
  \<^verbatim>\<open>/proc/vmstat\<close> is not: \<^verbatim>\<open>load_map()\<close> empties the map before it sees that the file was
  read, so after any of the four getters, every one of them answers 0 until \<^verbatim>\<open>reset()\<close>,
  whatever the file says.
\<close>

theorem vmstat_second_getter_is_zero:
  "let t = snd (get_page_in X proc st) in
     fst (get_page_out X proc' t) = Inr 0 \<and> fst (get_page_swap_in X proc' t) = Inr 0
     \<and> fst (get_page_swap_out X proc' t) = Inr 0 \<and> fst (get_page_in X proc' t) = Inr 0"
proof -
  have "load_vmstats X proc' (snd (load_vmstats X proc st))
      = (Inr (), (snd (load_vmstats X proc st))\<lparr>f_vmstats := Map.empty\<rparr>)"
    by (simp add: load_vmstats_def load_map_def Let_def split: option.split)
  then show ?thesis
    unfolding get_page_in_def get_page_out_def get_page_swap_in_def get_page_swap_out_def
    by (simp add: loaded_state) (simp add: loaded_def Let_def get_map_int64_def)
qed

text \<open>
  \<^verbatim>\<open>load_stat()\<close> looks for the process counters in lines that start with \<^verbatim>\<open>pproc\<close>, one
  character off the kernel's \<^verbatim>\<open>processes\<close>, \<^verbatim>\<open>procs_running\<close> and \<^verbatim>\<open>procs_blocked\<close>: a file without
  such a line leaves the three counters as they were.
\<close>

theorem process_counters_never_read:
  assumes "proc ''/proc/stat'' = Some content"
    and "\<forall>l \<in> set (x_split X content [CHR 0x0A]). take 5 l \<noteq> ''pproc''"
  shows "f_processes (snd (load_stat X proc st)) = f_processes st
     \<and> f_procs_running (snd (load_stat X proc st)) = f_procs_running st
     \<and> f_procs_blocked (snd (load_stat X proc st)) = f_procs_blocked st"
  using stat_lines_counters [OF assms(2)] assms(1)
  by (simp add: load_stat_def Let_def)

theorem process_counters_never_read_witness:
  "f_processes (snd (load_stat plain_host (\<lambda>_. Some ''processes 26442'') (new_sys_stats []))) = 0"
proof -
  have "\<forall>l \<in> set (x_split plain_host ''processes 26442'' [CHR 0x0A]). take 5 l \<noteq> ''pproc''"
    by (simp add: plain_host_def)
  from process_counters_never_read [where proc = "\<lambda>_. Some ''processes 26442''", OF refl this,
      of "new_sys_stats []"]
  show ?thesis by (simp add: new_sys_stats_def)
qed

text \<open>
  A \<^verbatim>\<open>cpu\<close> line of ten words or more stores its second to tenth words as the nine times,
  each converted over the value it replaces; a shorter one is read outside of its vector.
\<close>

theorem cpu_line_stores_nine_times:
  assumes "length (f_cpu st) = 9" and "l = ''cpu '' @ tail_words" and "tail_words \<noteq> []"
  shows "if 9 < length (x_split X l '' '')
    then stat_line X l st = (Inr (), st\<lparr>f_cpu :=
           map (\<lambda>i. snd (x_integer X (x_split X l '' '' ! (i + 1)) (f_cpu st ! i))) [0..<9]\<rparr>)
    else fst (stat_line X l st) = Inl Undefined_behavior"
  using load_cpu_values [of 0 st "x_split X l '' ''" X] load_cpu_short [of 0 "x_split X l '' ''" X st]
    assms
  by (auto simp: stat_line_def has_at_def Suc_le_eq numeral_eq_Suc)

theorem cpu_line_stores_nine_times_witness:
  "f_cpu (snd (stat_line plain_host ''cpu  1 2 3 4 5 6 7 8 9'' (new_sys_stats (replicate 9 0))))
     = [1, 2, 3, 4, 5, 6, 7, 8, 9]"
proof -
  have 1: "length (f_cpu (new_sys_stats (replicate 9 0))) = 9" by (simp add: new_sys_stats_def)
  have 2: "''cpu  1 2 3 4 5 6 7 8 9'' = ''cpu '' @ '' 1 2 3 4 5 6 7 8 9''" by simp
  have w: "x_split plain_host ''cpu  1 2 3 4 5 6 7 8 9'' '' ''
      = [''cpu'', ''1'', ''2'', ''3'', ''4'', ''5'', ''6'', ''7'', ''8'', ''9'']"
    by (simp add: plain_host_def)
  show ?thesis
    using cpu_line_stores_nine_times [OF 1 2, of plain_host, unfolded w]
    by (simp add: upt_rec plain_host_def plain_number_def digit_val_def)
qed

text \<open>
  The map of \<^verbatim>\<open>/proc/vmstat\<close> gives each name the text after its first blank, that of the
  last line with that name; lines without a blank are skipped.
\<close>

theorem load_map_last_line_wins:
  assumes "defined \<notin> f_defined st" and "proc name = Some content"
  shows "f_vmstats (load_map X proc name defined st) =
    map_of (rev (List.map_filter (cut_at (CHR '' '')) (x_split X content [CHR 0x0A])))"
  using assms by (simp add: load_map_def Let_def map_lines_eq)

theorem load_map_last_line_wins_witness:
  "f_vmstats (load_map plain_host (\<lambda>_. Some ''pgpgin 7'') ''/proc/vmstat'' DEFINED_VMSTATS
     (new_sys_stats [])) = [''pgpgin'' \<mapsto> ''7'']"
  using load_map_last_line_wins [of DEFINED_VMSTATS "new_sys_stats []" "\<lambda>_. Some ''pgpgin 7''"
      "''/proc/vmstat''" "''pgpgin 7''" plain_host]
  by (simp add: new_sys_stats_def plain_host_def map_filter_simps)

end
