(* ===== verification/Cpu.thy ===== *)
theory Cpu
  imports Plugin Sys_Stats
begin

text \<open>
  The \<^verbatim>\<open>cpu\<close> plugin (\<^verbatim>\<open>plugins/sitter_cpu/cpu.cpp\<close>): it copies the statistics of the system to
  the document and watches the one minute load average. While the load is too high, the date
  of the first run that saw it is kept in the file \<^verbatim>\<open>high_cpu_usage.txt\<close> of the cache.

  The statistics are an object local to the run, so the body works on that object and the
  server. \<open>cpu_env\<close> is what the machine answers during one run.
\<close>

record cpu_env =
  ce_now :: int                   \<comment> \<open>\<^verbatim>\<open>time(nullptr)\<close>\<close>
  ce_concurrency :: nat           \<comment> \<open>\<^verbatim>\<open>std::thread::hardware_concurrency()\<close>\<close>
  ce_freq :: int                  \<comment> \<open>\<^verbatim>\<open>sysconf(_SC_CLK_TCK)\<close>\<close>
  ce_proc :: proc_fs
  ce_cpu :: "int list"            \<comment> \<open>the initial content of \<^verbatim>\<open>f_cpu\<close>\<close>

definition cpu_count :: "cpu_env \<Rightarrow> int" where
  "cpu_count env = max 1 (int (ce_concurrency env))"

definition max_avg1 :: "int \<Rightarrow> rat" where
  "max_avg1 count =
     (let m = of_int count in
      if m > 1 then (if m \<le> 2 then m * (95 / 100) else m * (8 / 10)) else m)"

text \<open>The test of the load, given the average and the path of the file.\<close>

definition check_load :: "ext \<Rightarrow> int \<Rightarrow> jref \<Rightarrow> jref \<Rightarrow> rat \<Rightarrow> rat \<Rightarrow> string \<Rightarrow> (server, unit) act" where
  "check_load X now json e avg1 limit path =
     (if avg1 \<ge> limit then
        andthen (get (\<lambda>s. files s path)) (\<lambda>content.
        andthen
          (case content of
             Some text \<Rightarrow>
               (case x_integer X text 0 of
                  (True, start) \<Rightarrow>
                    if now - start > 15 * 60
                    then andthen (append_error json ''cpu'' ''High CPU usage.'' 100) (\<lambda>_. ret False)
                    else ret True
                | (False, _) \<Rightarrow> ret True)
           | None \<Rightarrow> andthen (write_all X path (int_text now)) (\<lambda>_. ret True)) (\<lambda>add_warning.
        if add_warning then assign (sub e ''warning'') (JStr ''High CPU usage'') else ret ()))
      else unlink path)"

type_synonym cpu_state = "sys_stats \<times> server"

definition put_num :: "jref \<Rightarrow> string \<Rightarrow> (sys_stats, rat) act \<Rightarrow> (cpu_state, unit) act" where
  "put_num e k m = andthen (on_fst m) (\<lambda>v. on_snd (assign (sub e k) (JNum v)))"

definition put_int :: "jref \<Rightarrow> string \<Rightarrow> (sys_stats, int) act \<Rightarrow> (cpu_state, unit) act" where
  "put_int e k m = andthen (on_fst m) (\<lambda>v. on_snd (assign (sub e k) (JInt v)))"

definition plus :: "('s, int) act \<Rightarrow> ('s, int) act \<Rightarrow> ('s, int) act" where
  "plus m n = andthen m (\<lambda>a. andthen n (\<lambda>b. ret (a + b)))"

definition cpu_averages :: "ext \<Rightarrow> proc_fs \<Rightarrow> jref \<Rightarrow> (cpu_state, rat) act" where
  "cpu_averages X proc e =
     andthen (put_num e ''uptime'' (get_uptime X proc)) (\<lambda>_.
     andthen (put_num e ''idle'' (get_idle X proc)) (\<lambda>_.
     andthen (put_num e ''avg1'' (get_load_avg1m X proc)) (\<lambda>_.
     andthen (put_num e ''avg5'' (get_load_avg5m X proc)) (\<lambda>_.
     andthen (put_num e ''avg15'' (get_load_avg15m X proc)) (\<lambda>_.
     on_fst (get_load_avg1m X proc))))))"

definition cpu_counters :: "ext \<Rightarrow> proc_fs \<Rightarrow> jref \<Rightarrow> (cpu_state, unit) act" where
  "cpu_counters X proc e =
     andthen (put_int e ''total_cpu_user''
       (plus (get_cpu_stat X proc CPU_USER_TIME) (get_cpu_stat X proc CPU_NICE_TIME))) (\<lambda>_.
     andthen (put_int e ''total_cpu_system'' (get_cpu_stat X proc CPU_SYSTEM_TIME)) (\<lambda>_.
     andthen (put_int e ''total_cpu_wait''
       (plus (get_cpu_stat X proc CPU_IDLE_TIME) (get_cpu_stat X proc CPU_IOWAIT_TIME))) (\<lambda>_.
     andthen (put_int e ''time_of_boot'' (get_boot_time X proc)) (\<lambda>_.
     andthen (put_int e ''total_processes'' (get_processes X proc)) (\<lambda>_.
     andthen (on_fst (get_procs_running X proc)) (\<lambda>running.
     andthen (if running > 1 then put_int e ''processes_running'' (get_procs_running X proc)
              else ret ()) (\<lambda>_.
     andthen (on_fst (get_procs_blocked X proc)) (\<lambda>blocked.
     andthen (if blocked \<noteq> 0 then put_int e ''processes_blocked'' (get_procs_blocked X proc)
              else ret ()) (\<lambda>_.
     andthen (put_int e ''page_cache_in'' (get_page_in X proc)) (\<lambda>_.
     andthen (put_int e ''page_cache_out'' (get_page_out X proc)) (\<lambda>_.
     andthen (put_int e ''swap_cache_in'' (get_page_swap_in X proc)) (\<lambda>_.
     put_int e ''swap_cache_out'' (get_page_swap_out X proc)))))))))))))"

definition cpu_watch :: "ext \<Rightarrow> cpu_env \<Rightarrow> jref \<Rightarrow> (server, unit) act" where
  "cpu_watch X env json =
     (let e = sub json ''cpu'' in
      andthen (member e) (\<lambda>_.
      with_local (new_sys_stats (ce_cpu env))
        (andthen (on_snd (assign (sub e ''count'') (JInt (cpu_count env)))) (\<lambda>_.
         andthen (on_snd (assign (sub e ''freq'') (JInt (ce_freq env)))) (\<lambda>_.
         andthen (cpu_averages X (ce_proc env) e) (\<lambda>avg1.
         andthen (on_snd (get_cache_path X ''high_cpu_usage.txt'')) (\<lambda>path.
         andthen (on_snd (check_load X (ce_now env) json e avg1 (max_avg1 (cpu_count env)) path)) (\<lambda>_.
         cpu_counters X (ce_proc env) e))))))))"

section \<open>The contract of a plugin\<close>

context server_relation
begin

lemma keeps_check_load: "writes path \<Longrightarrow> obeys R (check_load X now json e a l path)"
  unfolding check_load_def
  by (intro rules)
    (auto intro!: rules split: option.split prod.split bool.split)

lemma keeps_put:
  "obeys (\<lambda>b. second (R b)) (put_num e k m)" "obeys (\<lambda>b. second (R b)) (put_int e k n)"
  by (auto simp: put_num_def put_int_def intro!: rules obeys_on_fst obeys_on_snd)

lemma keeps_cpu_watch:
  assumes "\<And>path. named ''high_cpu_usage.txt'' path \<Longrightarrow> writes path"
  shows "obeys R (cpu_watch X env json)"
  unfolding cpu_watch_def Let_def cpu_averages_def cpu_counters_def
  by (intro cache_path_then_second rules assms obeys_with_local obeys_on_fst obeys_on_snd keeps_put keeps_check_load)

end

interpretation cpu: watch_plugin "cpu_watch X env json" id for X env json
  by unfold_locales (simp add: obeysD [OF frame.keeps_cpu_watch])

section \<open>One run\<close>

text \<open>The one minute average a run compares, an exception when \<^verbatim>\<open>/proc/loadavg\<close> raises one.\<close>

definition load_seen :: "ext \<Rightarrow> cpu_env \<Rightarrow> exn + rat" where
  "load_seen X env =
     fst (get_load_avg1m X (ce_proc env) (snd (load_uptime X (ce_proc env) (new_sys_stats (ce_cpu env)))))"

lemma load_uptime_returns: "load_uptime X proc st = (Inr (), snd (load_uptime X proc st))"
  by (simp add: load_uptime_def Let_def split: option.split)

lemma loadavg_loaded:
  "load_loadavg X proc (snd (load_loadavg X proc st)) = (Inr (), snd (load_loadavg X proc st))"
  by (rule loadavg.once [OF loadavg.loads])

lemma uptime_loaded:
  "load_uptime X proc (snd (load_uptime X proc st)) = (Inr (), snd (load_uptime X proc st))"
  by (rule uptime.once [OF uptime.loads])

lemma cpu_averages_result:
  "fst (cpu_averages X proc e (st, s)) = fst (get_load_avg1m X proc (snd (load_uptime X proc st)))"
proof -
  define st1 where "st1 = snd (load_uptime X proc st)"
  have up: "load_uptime X proc st = (Inr (), st1)" "load_uptime X proc st1 = (Inr (), st1)"
    unfolding st1_def by (rule load_uptime_returns, rule uptime_loaded)
  obtain r st2 where avg: "load_loadavg X proc st1 = (r, st2)" by fastforce
  have again: "load_loadavg X proc st2 = (Inr (), st2)"
    using loadavg_loaded [of X proc st1] avg by simp
  show ?thesis
    unfolding st1_def [symmetric] cpu_averages_def put_num_def get_uptime_def get_idle_def
      get_load_avg1m_def get_load_avg5m_def get_load_avg15m_def loaded_def
    by (cases r) (simp_all add: andthen_apply on_fst_apply on_snd_apply up avg again)
qed

lemma keeps_put_doc:
  "keeps (second doc_only) (put_num e k m)" "keeps (second doc_only) (put_int e k n)"
  by (auto simp: put_num_def put_int_def intro!: doc_keeps keeps_on_fst keeps_on_snd)

lemma keeps_doc_cpu:
  "keeps (second doc_only) (cpu_averages X proc e)" "keeps (second doc_only) (cpu_counters X proc e)"
  unfolding cpu_averages_def cpu_counters_def
  by (intro doc_keeps keeps_on_fst keeps_on_snd keeps_put_doc reflp_second transp_second
      reflp_doc_only transp_doc_only)+

text \<open>A run from the load it saw: only the test of the load changes more than the document.\<close>

lemma cpu_watch_check:
  assumes "load_seen X env = Inr avg" and "f_cache_path s \<noteq> []"
  shows "\<exists>d. doc_only (snd (check_load X (ce_now env) json (sub json ''cpu'') avg (max_avg1 (cpu_count env))
      (f_cache_path s @ ''/high_cpu_usage.txt'') (s\<lparr>doc := d\<rparr>)))
      (snd (cpu_watch X env json s))"
proof -
  let ?e = "sub json ''cpu''"
  let ?s1 = "s\<lparr>doc := doc s @ [Member ?e, Assign (sub ?e ''count'') (JInt (cpu_count env)),
      Assign (sub ?e ''freq'') (JInt (ce_freq env))]\<rparr>"
  let ?st = "new_sys_stats (ce_cpu env)"
  obtain st2 s2 where a: "cpu_averages X (ce_proc env) ?e (?st, ?s1) = (Inr avg, st2, s2)"
    using cpu_averages_result [of X "ce_proc env" ?e ?st ?s1] assms(1)
    unfolding load_seen_def by (metis prod.exhaust_sel)
  have "doc_only ?s1 s2"
    using keeps_result [OF keeps_doc_cpu(1) a] by (simp add: second_def)
  then obtain d where s2: "s2 = s\<lparr>doc := d\<rparr>" by (auto simp: doc_only_def)
  obtain r s3 where c: "check_load X (ce_now env) json ?e avg (max_avg1 (cpu_count env))
      (f_cache_path s @ ''/high_cpu_usage.txt'') (s\<lparr>doc := d\<rparr>) = (r, s3)" by fastforce
  have counters: "doc_only s3 (snd (snd (cpu_counters X (ce_proc env) ?e (st2, s3))))"
    using keepsD [OF keeps_doc_cpu(2), where s = "(st2, s3)"] by (simp add: second_def)
  have "snd (cpu_watch X env json s) =
      (case r of Inl x \<Rightarrow> s3 | Inr _ \<Rightarrow> snd (snd (cpu_counters X (ce_proc env) ?e (st2, s3))))"
    using a c s2 assms(2)
    by (cases r) (simp_all add: cpu_watch_def Let_def with_local_apply andthen_apply on_snd_apply
        get_cache_path_def)
  then have "doc_only s3 (snd (cpu_watch X env json s))"
    using counters by (cases r) (auto simp: reflpD)
  then show ?thesis using c by (intro exI [of _ d]) simp
qed

definition busy :: "ext \<Rightarrow> cpu_env \<Rightarrow> bool" where
  "busy X env \<longleftrightarrow> (case load_seen X env of Inl _ \<Rightarrow> False | Inr a \<Rightarrow> max_avg1 (cpu_count env) \<le> a)"

definition quiet :: "ext \<Rightarrow> cpu_env \<Rightarrow> bool" where
  "quiet X env \<longleftrightarrow> (case load_seen X env of Inl _ \<Rightarrow> False | Inr a \<Rightarrow> a < max_avg1 (cpu_count env))"

lemma cpu_step:
  fixes X :: ext and env :: cpu_env and json :: jref and s :: server
  assumes "f_cache_path s \<noteq> []" and "integer_reads_text X"
  defines "path \<equiv> f_cache_path s @ ''/high_cpu_usage.txt''"
  assumes "x_can_write X path"
  defines "t \<equiv> snd (cpu_watch X env json s)"
  shows "quiet X env \<Longrightarrow>
      files t = (files s)(path := None) \<and> logged t = logged s \<and> f_cache_path t = f_cache_path s"
    and "busy X env \<Longrightarrow> files s path = None \<Longrightarrow>
      files t = (files s)(path \<mapsto> int_text (ce_now env)) \<and> logged t = logged s
      \<and> f_cache_path t = f_cache_path s"
    and "busy X env \<Longrightarrow> files s path = Some (int_text start) \<Longrightarrow>
      files t = files s \<and> f_cache_path t = f_cache_path s \<and>
      logged t = logged s @ (if ce_now env - start > 900 then [(Severe, ''cpu'', 100)] else [])"
proof -
  have read: "x_integer X (int_text start) 0 = (True, start)" for start
    using assms(2) by (simp add: integer_reads_text_def)
  show "quiet X env \<Longrightarrow>
      files t = (files s)(path := None) \<and> logged t = logged s \<and> f_cache_path t = f_cache_path s"
    using cpu_watch_check [OF _ assms(1), of X env _ json]
    by (auto simp: quiet_def check_load_def doc_only_def t_def path_def split: sum.splits)
  show "busy X env \<Longrightarrow> files s path = None \<Longrightarrow>
      files t = (files s)(path \<mapsto> int_text (ce_now env)) \<and> logged t = logged s
      \<and> f_cache_path t = f_cache_path s"
    using cpu_watch_check [OF _ assms(1), of X env _ json] assms(4)
    by (auto simp: busy_def check_load_def doc_only_def t_def path_def andthen_apply
        write_all_apply split: sum.splits)
  show "busy X env \<Longrightarrow> files s path = Some (int_text start) \<Longrightarrow>
      files t = files s \<and> f_cache_path t = f_cache_path s \<and>
      logged t = logged s @ (if ce_now env - start > 900 then [(Severe, ''cpu'', 100)] else [])"
    using cpu_watch_check [OF _ assms(1), of X env _ json] read
    by (auto simp: busy_def check_load_def doc_only_def t_def path_def andthen_apply
        append_error_apply error_severity_def Let_def split: sum.splits)
qed

section \<open>Successive runs\<close>

definition cpu_runs :: "ext \<Rightarrow> jref \<Rightarrow> cpu_env list \<Rightarrow> server \<Rightarrow> server" where
  "cpu_runs X json envs s = fold (\<lambda>env s. snd (cpu_watch X env json s)) envs s"

lemma cpu_streak:
  assumes "\<forall>env \<in> set envs. busy X env" and "integer_reads_text X"
    and "f_cache_path s \<noteq> []" and "x_can_write X (f_cache_path s @ ''/high_cpu_usage.txt'')"
    and "files s (f_cache_path s @ ''/high_cpu_usage.txt'') = Some (int_text start)"
  shows "logged (cpu_runs X json envs s) = logged s
      @ concat (map (\<lambda>env. if ce_now env - start > 900 then [(Severe, ''cpu'', 100)] else []) envs)
    \<and> files (cpu_runs X json envs s) = files s
    \<and> f_cache_path (cpu_runs X json envs s) = f_cache_path s"
  using assms
proof (induction envs arbitrary: s)
  case Nil
  then show ?case by (simp add: cpu_runs_def)
next
  case (Cons env envs)
  note step = cpu_step(3) [OF Cons.prems(3,2,4), of env start json]
  have "busy X env" using Cons.prems(1) by simp
  note st = step [OF this Cons.prems(5)]
  have "cpu_runs X json (env # envs) s = cpu_runs X json envs (snd (cpu_watch X env json s))"
    by (simp add: cpu_runs_def)
  then show ?case
    using Cons.IH [of "snd (cpu_watch X env json s)"] Cons.prems st by simp
qed

section \<open>Properties\<close>


definition load_env :: "int \<Rightarrow> string \<Rightarrow> cpu_env" where
  "load_env now loadavg = \<lparr>ce_now = now, ce_concurrency = 1, ce_freq = 100,
     ce_proc = (\<lambda>f. if f = ''/proc/loadavg'' then Some loadavg else None), ce_cpu = []\<rparr>"


end
