(* ===== verification/Meminfo.thy ===== *)
theory Meminfo
  imports Prelude
begin

text \<open>
  \<^verbatim>\<open>sitter/meminfo.h\<close> and \<^verbatim>\<open>sitter/meminfo.cpp\<close>: the parser of \<^verbatim>\<open>/proc/meminfo\<close>.

  The members of \<^verbatim>\<open>meminfo_t\<close> are all \<^verbatim>\<open>uint64_t\<close> and the parser reaches them through pointers
  to members; here a member is a value of \<open>field\<close> and the structure a function from fields
  to 64-bit words, so \<^verbatim>\<open>info.*o = v\<close> is a function update. The loop over
  \<^verbatim>\<open>istream::getline()\<close> keeps the rest of the file as its state. \<open>tok\<close> stands for
  \<^verbatim>\<open>snapdev::tokenize_string(tokens, line, " \t", true, ":")\<close>.
\<close>

section \<open>The structure\<close>

datatype field =
    F_mem_total | F_mem_free | F_mem_available | F_buffers | F_cached | F_swap_cached |
    F_active | F_inactive | F_active_anon | F_inactive_anon | F_active_file | F_inactive_file
    | F_unevictable | F_mlocked | F_swap_total | F_swap_free | F_dirty | F_writeback |
    F_anon_pages | F_mapped | F_shmem | F_slab | F_sreclaimable | F_sunreclaim |
    F_kernel_stack | F_page_tables | F_nfs_unstable | F_bounce | F_writeback_tmp |
    F_commit_limit | F_committed_as | F_vmalloc_total | F_vmalloc_used | F_vmalloc_chunk |
    F_hardware_corrupted | F_anon_huge_pages | F_cma_total | F_cma_free | F_huge_pages_total |
    F_huge_pages_free | F_huge_pages_rsvd | F_huge_pages_surp | F_huge_page_size |
    F_direct_map4k | F_direct_map2m | F_direct_map1g

type_synonym meminfo_t = "field \<Rightarrow> 64 word"

definition no_meminfo :: meminfo_t where
  "no_meminfo = (\<lambda>_. 0)"

definition is_valid :: "meminfo_t \<Rightarrow> bool" where
  "is_valid info \<longleftrightarrow> info F_mem_total \<noteq> 0"

definition name_to_offset :: "(string \<times> field) list" where
  "name_to_offset =
     [(''memtotal'', F_mem_total),
      (''memfree'', F_mem_free),
      (''memavailable'', F_mem_available),
      (''buffers'', F_buffers),
      (''cached'', F_cached),
      (''swapcached'', F_swap_cached),
      (''active'', F_active),
      (''inactive'', F_inactive),
      (''active(anon)'', F_active_anon),
      (''inactive(anon)'', F_inactive_anon),
      (''active(file)'', F_active_file),
      (''inactive(file)'', F_inactive_file),
      (''unevictable'', F_unevictable),
      (''mlocked'', F_mlocked),
      (''swaptotal'', F_swap_total),
      (''swapfree'', F_swap_free),
      (''dirty'', F_dirty),
      (''writeback'', F_writeback),
      (''anonpages'', F_anon_pages),
      (''mapped'', F_mapped),
      (''shmem'', F_shmem),
      (''slab'', F_slab),
      (''sreclaimable'', F_sreclaimable),
      (''sunreclaim'', F_sunreclaim),
      (''kernelstack'', F_kernel_stack),
      (''pagetables'', F_page_tables),
      (''nfs_unstable'', F_nfs_unstable),
      (''bounce'', F_bounce),
      (''writebacktmp'', F_writeback_tmp),
      (''commitlimit'', F_commit_limit),
      (''committed_as'', F_committed_as),
      (''vmalloctotal'', F_vmalloc_total),
      (''vmallocused'', F_vmalloc_used),
      (''vmallocchunk'', F_vmalloc_chunk),
      (''hardwarecorrupted'', F_hardware_corrupted),
      (''anonhugepages'', F_anon_huge_pages),
      (''cmatotal'', F_cma_total),
      (''cmafree'', F_cma_free),
      (''hugepages_total'', F_huge_pages_total),
      (''hugepages_free'', F_huge_pages_free),
      (''hugepages_rsvd'', F_huge_pages_rsvd),
      (''hugepages_surp'', F_huge_pages_surp),
      (''hugepagesize'', F_huge_page_size),
      (''directmap4k'', F_direct_map4k),
      (''directmap2m'', F_direct_map2m),
      (''directmap1g'', F_direct_map1g)]"

section \<open>The parser\<close>

definition to_lower :: "char \<Rightarrow> char" where
  "to_lower c = (let k = of_char c :: nat in if 65 \<le> k \<and> k \<le> 90 then char_of (k + 32) else c)"

text \<open>
  \<^verbatim>\<open>in.getline(buf, 256)\<close>: at the end of the file, with a line of more than 255 characters (the
  stream fails without being at its end), or with a line.
\<close>

datatype getline = Eof | Too_long | Line string string

definition getline :: "string \<Rightarrow> getline" where
  "getline input =
     (if input = [] then Eof
      else case cut_at (CHR 0x0A) input of
        None \<Rightarrow> (if length input > 255 then Too_long else Line input [])
      | Some (a, b) \<Rightarrow> (if length a > 255 then Too_long else Line a b))"

definition meminfo_line :: "(string \<Rightarrow> string list) \<Rightarrow> string \<Rightarrow> meminfo_t \<Rightarrow> exn + meminfo_t" where
  "meminfo_line tok buf info =
     (let line = takeWhile (\<lambda>c. c \<noteq> CHR 0x00) buf in
      case tok line of
        name # value # units \<Rightarrow>
          (case map_of name_to_offset (map to_lower name) of
             None \<Rightarrow> Inr info
           | Some o' \<Rightarrow>
               (case stoll value of
                  Inl e \<Rightarrow> Inl e
                | Inr v \<Rightarrow>
                    let info1 = info(o' := word_of_int v) in
                    Inr (case units of
                           u # _ \<Rightarrow> (if u = ''kB'' then info1(o' := info1 o' * 1000) else info1)
                         | [] \<Rightarrow> info1)))
      | _ \<Rightarrow> Inr info)"

lemma getline_shorter: "getline input = Line a b \<Longrightarrow> length b < length input"
  by (auto simp: getline_def dest: cut_at_shorter split: if_splits option.splits)

function read_meminfo :: "(string \<Rightarrow> string list) \<Rightarrow> string \<Rightarrow> meminfo_t \<Rightarrow> exn + meminfo_t" where
  "read_meminfo tok input info =
     (case getline input of
        Eof \<Rightarrow> Inr info
      | Too_long \<Rightarrow> Inr no_meminfo
      | Line a b \<Rightarrow>
          (case meminfo_line tok a info of
             Inl e \<Rightarrow> Inl e
           | Inr info' \<Rightarrow> read_meminfo tok b info'))"
  by pat_completeness auto
termination
  by (relation "measure (\<lambda>(tok, input, info). length input)") (auto dest: getline_shorter)

declare read_meminfo.simps [simp del]

text \<open>\<open>proc\<close> is the content of \<^verbatim>\<open>/proc/meminfo\<close>, \<open>None\<close> when it cannot be opened.\<close>

definition get_meminfo :: "(string \<Rightarrow> string list) \<Rightarrow> string option \<Rightarrow> exn + meminfo_t" where
  "get_meminfo tok proc =
     (case proc of None \<Rightarrow> Inr no_meminfo | Some input \<Rightarrow> read_meminfo tok input no_meminfo)"

section \<open>The table of names\<close>

definition all_fields :: "field list" where
  "all_fields = [F_mem_total, F_mem_free, F_mem_available, F_buffers, F_cached, F_swap_cached, F_active,
      F_inactive, F_active_anon, F_inactive_anon, F_active_file, F_inactive_file, F_unevictable,
      F_mlocked, F_swap_total, F_swap_free, F_dirty, F_writeback, F_anon_pages, F_mapped,
      F_shmem, F_slab, F_sreclaimable, F_sunreclaim, F_kernel_stack, F_page_tables,
      F_nfs_unstable, F_bounce, F_writeback_tmp, F_commit_limit, F_committed_as,
      F_vmalloc_total, F_vmalloc_used, F_vmalloc_chunk, F_hardware_corrupted, F_anon_huge_pages,
      F_cma_total, F_cma_free, F_huge_pages_total, F_huge_pages_free, F_huge_pages_rsvd,
      F_huge_pages_surp, F_huge_page_size, F_direct_map4k, F_direct_map2m, F_direct_map1g]"

lemma all_fields_complete: "f \<in> set all_fields"
  by (cases f) (simp_all add: all_fields_def)

lemma table_fields: "map snd name_to_offset = all_fields"
  by (simp add: name_to_offset_def all_fields_def)


lemma table_names: "distinct (map fst name_to_offset)"
  by code_simp

lemma table_distinct: "distinct (map snd name_to_offset)"
  by code_simp

lemma table_lower: "\<forall>n \<in> set (map fst name_to_offset). map to_lower n = n"
  by code_simp

section \<open>The loop over the lines\<close>

definition text_line :: "string \<Rightarrow> bool" where
  "text_line l \<longleftrightarrow> CHR 0x0A \<notin> set l \<and> CHR 0x00 \<notin> set l \<and> length l \<le> 255"

definition unlines :: "string list \<Rightarrow> string" where
  "unlines ls = concat (map (\<lambda>l. l @ [CHR 0x0A]) ls)"

fun fold_lines :: "(string \<Rightarrow> string list) \<Rightarrow> string list \<Rightarrow> meminfo_t \<Rightarrow> exn + meminfo_t" where
  "fold_lines tok [] info = Inr info"
| "fold_lines tok (l # ls) info =
     (case meminfo_line tok l info of Inl e \<Rightarrow> Inl e | Inr info' \<Rightarrow> fold_lines tok ls info')"

lemma unlines_simps [simp]: "unlines [] = []" "unlines (l # ls) = l @ CHR 0x0A # unlines ls"
  by (simp_all add: unlines_def)

lemma getline_text: "CHR 0x0A \<notin> set l \<Longrightarrow>
    getline (l @ CHR 0x0A # rest) = (if length l \<le> 255 then Line l rest else Too_long)"
  by (simp add: getline_def cut_at_first)

lemma read_meminfo_lines:
  assumes "\<forall>l \<in> set ls. text_line l"
  shows "read_meminfo tok (unlines ls @ rest) info =
    (case fold_lines tok ls info of Inl e \<Rightarrow> Inl e | Inr info' \<Rightarrow> read_meminfo tok rest info')"
  using assms
proof (induction ls arbitrary: info)
  case Nil
  then show ?case by simp
next
  case (Cons l ls)
  then show ?case
    by (subst read_meminfo.simps) (simp add: text_line_def getline_text split: sum.split)
qed

lemma read_meminfo_end [simp]: "read_meminfo tok [] info = Inr info"
  by (subst read_meminfo.simps) (simp add: getline_def)

lemma read_meminfo_too_long:
  "CHR 0x0A \<notin> set l \<Longrightarrow> 255 < length l \<Longrightarrow>
     read_meminfo tok (l @ CHR 0x0A # rest) info = Inr no_meminfo"
  by (subst read_meminfo.simps) (simp add: getline_text)

section \<open>What a line does\<close>

definition names_field :: "(string \<Rightarrow> string list) \<Rightarrow> string \<Rightarrow> field \<Rightarrow> nat \<Rightarrow> bool" where
  "names_field tok l f n \<longleftrightarrow> text_line l \<and> n < 2 ^ 63 \<and>
     (\<exists>name. tok l = [name, nat_text n, ''kB''] \<and> map_of name_to_offset (map to_lower name) = Some f)"

lemma takeWhile_text_line [simp]: "text_line l \<Longrightarrow> takeWhile (\<lambda>c. c \<noteq> CHR 0x00) l = l"
  by (auto simp: text_line_def takeWhile_eq_all_conv)

lemma meminfo_line_kb:
  assumes "names_field tok l f n"
  shows "meminfo_line tok l info = Inr (info(f := of_nat (1000 * n)))"
  using assms
  by (auto simp: names_field_def meminfo_line_def Let_def stoll_nat_text mult.commute)

lemma fold_lines_kb:
  assumes "\<forall>(l, f, n) \<in> set es. names_field tok l f n"
  shows "fold_lines tok (map fst es) info =
    Inr (\<lambda>f. case map_of (rev (map snd es)) f of None \<Rightarrow> info f | Some n \<Rightarrow> of_nat (1000 * n))"
  using assms
proof (induction es arbitrary: info)
  case Nil
  then show ?case by simp
next
  case (Cons e es)
  obtain l f n where e: "e = (l, f, n)" by (cases e)
  have "meminfo_line tok l info = Inr (info(f := of_nat (1000 * n)))"
    using Cons.prems by (intro meminfo_line_kb) (simp add: e)
  then show ?case
    using Cons by (auto simp: e map_add_def fun_eq_iff split: option.split)
qed


section \<open>Properties\<close>

lemma map_of_table_iff: "map_of name_to_offset n = Some f \<longleftrightarrow> (n, f) \<in> set name_to_offset"
  using table_names by (metis map_of_SomeD map_of_is_SomeI)

text \<open>
  The table of \<^verbatim>\<open>get_meminfo()\<close> gives each of the 46 members of \<^verbatim>\<open>meminfo_t\<close> exactly one
  name, in the lower case the parser compares with.
\<close>

theorem every_member_has_one_name:
  "\<exists>!n. map_of name_to_offset n = Some f \<and> map to_lower n = n"
proof -
  have "f \<in> set (map snd name_to_offset)" by (simp only: table_fields all_fields_complete)
  then obtain n where n: "(n, f) \<in> set name_to_offset" by auto
  have "n \<in> set (map fst name_to_offset)" using imageI [OF n, of fst] by simp
  then have low: "map to_lower n = n" by (rule bspec [OF table_lower])
  have inj: "inj_on snd (set name_to_offset)" using table_distinct by (simp add: distinct_map)
  show ?thesis
  proof (rule ex1I [of _ n])
    show "map_of name_to_offset n = Some f \<and> map to_lower n = n"
      using n low by (simp only: map_of_table_iff)
  next
    fix m assume "map_of name_to_offset m = Some f \<and> map to_lower m = m"
    then have "(m, f) \<in> set name_to_offset" by (simp only: map_of_table_iff)
    then show "m = n" using inj_onD [OF inj _ _ n, of "(m, f)"] by simp
  qed
qed

text \<open>
  C38: after a file of lines \<^verbatim>\<open>name: n kB\<close> with known names, in any order, each member holds
  1000 times the number of the last line that names it, modulo 2^64, and 0 when no line does.
\<close>

theorem get_meminfo_last_line_wins:
  assumes "\<forall>(l, f, n) \<in> set es. names_field tok l f n"
  shows "get_meminfo tok (Some (unlines (map fst es))) =
    Inr (\<lambda>f. case map_of (rev (map snd es)) f of None \<Rightarrow> 0 | Some n \<Rightarrow> of_nat (1000 * n))"
proof -
  have lines: "\<forall>l \<in> set (map fst es). text_line l"
    using assms by (auto simp: names_field_def)
  show ?thesis
    using read_meminfo_lines [OF lines, of tok "[]" no_meminfo] fold_lines_kb [OF assms]
    by (simp add: get_meminfo_def no_meminfo_def)
qed

definition words_of :: "string \<Rightarrow> string list" where
  "words_of l = (if l = ''MemTotal: 8 kB'' then [''MemTotal'', ''8'', ''kB'']
                 else if l = ''MemFree: 3 kB'' then [''MemFree'', ''3'', ''kB''] else [])"

theorem get_meminfo_last_line_wins_witness:
  "get_meminfo words_of (Some (unlines [''MemTotal: 8 kB'', ''MemFree: 3 kB''])) =
    Inr (\<lambda>f. case map_of [(F_mem_free, 3), (F_mem_total, 8 :: nat)] f of
               None \<Rightarrow> 0 | Some n \<Rightarrow> of_nat (1000 * n))"
proof -
  have t: "nat_text 8 = ''8''" "nat_text 3 = ''3''" by code_simp+
  have n: "map_of name_to_offset (map to_lower ''MemTotal'') = Some F_mem_total"
    "map_of name_to_offset (map to_lower ''MemFree'') = Some F_mem_free" by code_simp+
  have "names_field words_of ''MemTotal: 8 kB'' F_mem_total 8"
    "names_field words_of ''MemFree: 3 kB'' F_mem_free 3"
    unfolding names_field_def using n
    by (simp_all add: t words_of_def text_line_def del: list.map)
  then show ?thesis
    using get_meminfo_last_line_wins
      [of "[(''MemTotal: 8 kB'', F_mem_total, 8), (''MemFree: 3 kB'', F_mem_free, 3)]" words_of]
    by simp
qed

text \<open>
  A line of more than 255 characters makes \<^verbatim>\<open>get_meminfo()\<close> return a structure that is not
  valid, whatever the lines before it gave, unless one of those raised; nothing after it is
  read.
\<close>

theorem get_meminfo_long_line:
  assumes "\<forall>l \<in> set ls. text_line l" and "CHR 0x0A \<notin> set long" and "255 < length long"
  shows "get_meminfo tok (Some (unlines ls @ long @ CHR 0x0A # rest)) =
    (case fold_lines tok ls no_meminfo of Inl e \<Rightarrow> Inl e | Inr _ \<Rightarrow> Inr no_meminfo)
    \<and> \<not> is_valid no_meminfo"
  using read_meminfo_lines [OF assms(1), of tok "long @ CHR 0x0A # rest" no_meminfo] assms(2,3)
  by (simp add: get_meminfo_def is_valid_def no_meminfo_def read_meminfo_too_long
      split: sum.split)

theorem get_meminfo_long_line_witness:
  "get_meminfo words_of (Some (unlines [''MemTotal: 8 kB''] @ replicate 256 (CHR ''x'') @ [CHR 0x0A]))
    = Inr no_meminfo"
proof -
  have 1: "\<forall>l \<in> set [''MemTotal: 8 kB'']. text_line l" by (simp add: text_line_def)
  have 2: "CHR 0x0A \<notin> set (replicate 256 (CHR ''x''))" by simp
  have 3: "255 < length (replicate 256 (CHR ''x''))" by simp
  have "stoll ''8'' = Inr 8" by code_simp
  moreover have "map_of name_to_offset (map to_lower ''MemTotal'') = Some F_mem_total" by code_simp
  ultimately have "meminfo_line words_of ''MemTotal: 8 kB'' no_meminfo
      = Inr (no_meminfo(F_mem_total := 8 * 1000))"
    by (simp add: meminfo_line_def words_of_def Let_def del: list.map)
  then show ?thesis
    using get_meminfo_long_line [OF 1 2 3, of words_of "[]"]
    by (simp only: fold_lines.simps sum.case append_Nil2 append.simps)
qed

end
