(* ===== verification/Memory.thy ===== *)
theory Memory
  imports Plugin Meminfo
begin

text \<open>
  The \<^verbatim>\<open>memory\<close> plugin (\<^verbatim>\<open>plugins/sitter_memory/memory.cpp\<close>). The two ratios are computed with
  doubles in the source: dividing by 0 gives infinity or NaN, and neither is less than the
  limit, which is written out below; the values are taken to be exact.
\<close>

definition double_of :: "64 word \<Rightarrow> rat" where
  "double_of w = of_nat (unat w)"

text \<open>\<^verbatim>\<open>a / b < limit\<close> on doubles, for \<open>a\<close> and \<open>b\<close> not negative.\<close>

definition ratio_below :: "rat \<Rightarrow> rat \<Rightarrow> rat \<Rightarrow> bool" where
  "ratio_below a b limit \<longleftrightarrow> b \<noteq> 0 \<and> a / b < limit"

definition high_memory_usage :: "meminfo_t \<Rightarrow> bool" where
  "high_memory_usage info =
     (if double_of (info F_mem_available) > 512 * 1024 * 1024 then False
      else ratio_below (double_of (info F_mem_available)) (double_of (info F_mem_total)) (1 / 5))"

definition high_swap_usage :: "meminfo_t \<Rightarrow> bool" where
  "high_swap_usage info =
     ratio_below (double_of (info F_swap_free)) (double_of (info F_swap_total)) (1 / 2)"

definition memory_watch :: "(string \<Rightarrow> string list) \<Rightarrow> string option \<Rightarrow> jref \<Rightarrow> (server, unit) act" where
  "memory_watch tok proc json =
     (let e = sub json ''memory'' in
      andthen (member e) (\<lambda>_.
      case get_meminfo tok proc of
        Inl x \<Rightarrow> throw x
      | Inr info \<Rightarrow>
          andthen (assign_all e
            [(''mem_total'', JInt (uint (info F_mem_total))),
             (''mem_free'', JInt (uint (info F_mem_free))),
             (''mem_available'', JInt (uint (info F_mem_available))),
             (''mem_buffers'', JInt (uint (info F_buffers))),
             (''mem_cached'', JInt (uint (info F_cached))),
             (''swap_cached'', JInt (uint (info F_swap_cached))),
             (''swap_total'', JInt (uint (info F_swap_total))),
             (''swap_free'', JInt (uint (info F_swap_free)))]) (\<lambda>_.
          andthen (if high_memory_usage info
                   then append_error e ''memory'' ''High memory usage'' 75 else ret ()) (\<lambda>_.
          if high_swap_usage info
          then append_error e ''memory'' ''High swap usage'' 65 else ret ()))))"

section \<open>The contract of a plugin\<close>

context server_relation
begin

lemma keeps_memory_watch: "obeys R (memory_watch tok proc json)"
  unfolding memory_watch_def Let_def
  by (intro rules)
    (auto intro!: rules split: sum.split)

end

lemma memory_watch_returns:
  assumes "get_meminfo tok proc = Inr info"
  shows "\<exists>t. memory_watch tok proc json s = (Inr (), t)"
  by (simp add: memory_watch_def assms Let_def andthen_apply assign_all_apply append_error_apply)

interpretation memory: watch_plugin "memory_watch tok proc json" id for tok proc json
  by unfold_locales (simp add: obeysD [OF frame.keeps_memory_watch])

section \<open>The limits without divisions\<close>

lemma ratio_below_nat:
  "0 < k \<Longrightarrow> ratio_below (of_nat n) (of_nat m) (1 / of_nat k) \<longleftrightarrow> k * n < m"
proof -
  assume k: "0 < k"
  have "(of_nat n :: rat) / of_nat m < 1 / of_nat k \<longleftrightarrow> (of_nat (k * n) :: rat) < of_nat m"
    if "0 < m" using that k by (simp add: field_simps)
  then show ?thesis
    by (cases "m = 0") (simp_all add: ratio_below_def del: of_nat_mult)
qed

lemma above_half_gigabyte: "512 * 1024 * 1024 < (of_nat n :: rat) \<longleftrightarrow> 536870912 < n"
proof -
  have "(of_nat 536870912 :: rat) < of_nat n \<longleftrightarrow> 536870912 < n" by (rule of_nat_less_iff)
  then show ?thesis by simp
qed

lemma high_memory_usage_iff:
  "high_memory_usage info \<longleftrightarrow>
     unat (info F_mem_available) \<le> 536870912 \<and> 5 * unat (info F_mem_available) < unat (info F_mem_total)"
  using ratio_below_nat [of 5 "unat (info F_mem_available)" "unat (info F_mem_total)"]
  unfolding high_memory_usage_def double_of_def above_half_gigabyte
  by (simp add: not_less del: of_nat_unat)

lemma high_swap_usage_iff:
  "high_swap_usage info \<longleftrightarrow> 2 * unat (info F_swap_free) < unat (info F_swap_total)"
  using ratio_below_nat [of 2 "unat (info F_swap_free)" "unat (info F_swap_total)"]
  unfolding high_swap_usage_def double_of_def by (simp del: of_nat_unat)

section \<open>Properties\<close>

text \<open>
  C37: the errors of a run are exactly: one of priority 75 when at most 512 MiB are available
  and that is less than a fifth of the memory, then one of priority 65 when less than half of
  the swap space is free; no memory and no swap space at all report nothing.
\<close>

theorem memory_errors:
  assumes "get_meminfo tok proc = Inr info"
  shows "\<exists>t. memory_watch tok proc json s = (Inr (), t)
    \<and> logged t = logged s
       @ (if unat (info F_mem_available) \<le> 536870912
             \<and> 5 * unat (info F_mem_available) < unat (info F_mem_total)
          then [(Error, ''memory'', 75)] else [])
       @ (if 2 * unat (info F_swap_free) < unat (info F_swap_total)
          then [(Major, ''memory'', 65)] else [])"
  unfolding high_memory_usage_iff [symmetric] high_swap_usage_iff [symmetric]
  by (simp add: memory_watch_def assms Let_def assign_all_apply append_error_apply error_severity_def)

theorem memory_errors_witness:
  "\<exists>t. memory_watch words_of (Some (unlines [''MemTotal: 8 kB''])) [] (new_server (\<lambda>_. True) (\<lambda>_. []) 0)
       = (Inr (), t) \<and> logged t = [(Error, ''memory'', 75)]"
proof -
  have 1: "stoll ''8'' = Inr 8" "cut_at (CHR 0x0A) (unlines [''MemTotal: 8 kB'']) = Some (''MemTotal: 8 kB'', [])"
    by code_simp+
  have 2: "map_of name_to_offset (map to_lower ''MemTotal'') = Some F_mem_total" by code_simp
  have "meminfo_line words_of ''MemTotal: 8 kB'' no_meminfo = Inr (no_meminfo(F_mem_total := 8000))"
    using 1 2 by (simp add: meminfo_line_def words_of_def Let_def del: list.map)
  then have "get_meminfo words_of (Some (unlines [''MemTotal: 8 kB'']))
      = Inr (no_meminfo(F_mem_total := 8000))"
    using 1 by (simp add: get_meminfo_def) (subst read_meminfo.simps, simp add: getline_def)
  from memory_errors [OF this, of "[]" "new_server (\<lambda>_. True) (\<lambda>_. []) 0"]
  show ?thesis by (simp add: no_meminfo_def new_server_def)
qed

end
