(* ===== verification/Reboot.thy ===== *)
theory Reboot
  imports Plugin
begin

text \<open>
  The \<^verbatim>\<open>reboot\<close> plugin (\<^verbatim>\<open>plugins/sitter_reboot/reboot.cpp\<close>): an error while
  \<^verbatim>\<open>/run/reboot-required\<close> exists, of a priority that grows with the days since it was first
  seen. That date is kept in \<^verbatim>\<open>reboot.txt\<close> of the cache.
\<close>

definition reboot_priority :: "int \<Rightarrow> int" where
  "reboot_priority diff =
     (if diff < 4 then 45 else if diff < 10 then 70 else if diff < 30 then 90 else 100)"

definition reboot_watch :: "ext \<Rightarrow> int \<Rightarrow> bool \<Rightarrow> jref \<Rightarrow> (server, unit) act" where
  "reboot_watch X now required json =
     (let e = sub json ''reboot'' in
      andthen (member e) (\<lambda>_.
      andthen (assign (sub e ''required'') (JStr (if required then ''true'' else ''false''))) (\<lambda>_.
      andthen (get_cache_path X ''reboot.txt'') (\<lambda>path.
      if required then
        andthen (get (\<lambda>s. files s path)) (\<lambda>content.
        andthen
          (case content of
             Some text \<Rightarrow> ret (case x_integer X text 0 of (True, date) \<Rightarrow> date | (False, _) \<Rightarrow> now)
           | None \<Rightarrow> andthen (write_all X path (int_text now)) (\<lambda>_. ret now)) (\<lambda>reboot_date.
        append_error json ''reboot'' ''Reboot is required.''
          (reboot_priority (now sdiv 86400 - reboot_date sdiv 86400))))
      else unlink path))))"

context server_relation
begin

lemma keeps_reboot_watch:
  assumes "\<And>path. named ''reboot.txt'' path \<Longrightarrow> writes path"
  shows "obeys R (reboot_watch X now required json)"
  unfolding reboot_watch_def Let_def
  by (intro cache_path_then rules assms)
    (auto intro!: rules assms split: option.split)

end

interpretation reboot: watch_plugin "reboot_watch X now required json" id for X now required json
  by unfold_locales (simp add: obeysD [OF frame.keeps_reboot_watch])

section \<open>One run\<close>

lemma reboot_priority_range: "0 \<le> reboot_priority d \<and> reboot_priority d \<le> 100"
  by (simp add: reboot_priority_def)

lemma reboot_priority_mono: "d \<le> d' \<Longrightarrow> reboot_priority d \<le> reboot_priority d'"
  by (simp add: reboot_priority_def)

lemma reboot_step:
  assumes "f_cache_path s \<noteq> []"
  shows "files s (f_cache_path s @ ''/reboot.txt'') = Some (int_text date) \<Longrightarrow> integer_reads_text X \<Longrightarrow>
      \<exists>t. reboot_watch X now True json s = (Inr (), t) \<and> files t = files s
        \<and> f_cache_path t = f_cache_path s
        \<and> priorities t = priorities s
            @ [reboot_priority (now sdiv 86400 - date sdiv 86400)]"
    and "files s (f_cache_path s @ ''/reboot.txt'') = None \<Longrightarrow>
      x_can_write X (f_cache_path s @ ''/reboot.txt'') \<Longrightarrow>
      \<exists>t. reboot_watch X now True json s = (Inr (), t)
        \<and> files t = (files s)(f_cache_path s @ ''/reboot.txt'' \<mapsto> int_text now)
        \<and> f_cache_path t = f_cache_path s
        \<and> priorities t = priorities s @ [45]"
    and "\<exists>t. reboot_watch X now False json s = (Inr (), t)
        \<and> files t = (files s)(f_cache_path s @ ''/reboot.txt'' := None)
        \<and> f_cache_path t = f_cache_path s \<and> logged t = logged s"
  using assms
  by (auto simp: reboot_watch_def Let_def get_cache_path_def andthen_apply write_all_apply
      append_error_apply integer_reads_text_def reboot_priority_def priorities_def)

section \<open>Successive runs\<close>

definition reboot_runs :: "ext \<Rightarrow> jref \<Rightarrow> (int \<times> bool) list \<Rightarrow> server \<Rightarrow> server" where
  "reboot_runs X json visits s =
     fold (\<lambda>(now, required) s. snd (reboot_watch X now required json s)) visits s"

lemma reboot_streak:
  assumes "integer_reads_text X" and "f_cache_path s \<noteq> []"
    and "files s (f_cache_path s @ ''/reboot.txt'') = Some (int_text date)"
  shows "priorities (reboot_runs X json (map (\<lambda>now. (now, True)) nows) s)
    = priorities s
      @ map (\<lambda>now. reboot_priority (now sdiv 86400 - date sdiv 86400)) nows"
  using assms(2,3)
proof (induction nows arbitrary: s)
  case Nil
  then show ?case by (simp add: reboot_runs_def)
next
  case (Cons now nows)
  obtain t where t: "reboot_watch X now True json s = (Inr (), t)" "files t = files s"
      "f_cache_path t = f_cache_path s"
      "priorities t = priorities s
         @ [reboot_priority (now sdiv 86400 - date sdiv 86400)]"
    using reboot_step(1) [OF Cons.prems assms(1)] by blast
  have "reboot_runs X json (map (\<lambda>now. (now, True)) (now # nows)) s
      = reboot_runs X json (map (\<lambda>now. (now, True)) nows) t"
    using t(1) by (simp add: reboot_runs_def)
  then show ?case using Cons.IH [of t] Cons.prems t by simp
qed

section \<open>Properties\<close>



end
