(* ===== verification/Network.thy ===== *)
theory Network
  imports Plugin
begin

text \<open>
  The \<^verbatim>\<open>network\<close> and \<^verbatim>\<open>firewall\<close> plugins (\<^verbatim>\<open>plugins/sitter_network/network.cpp\<close>,
  \<^verbatim>\<open>plugins/sitter_firewall/firewall.cpp\<close>). \<open>info\<close> is what \<^verbatim>\<open>process_list::find()\<close> gave for the
  process; times are nanoseconds, \<open>to_s\<close> is \<^verbatim>\<open>timespec_ex::to_string()\<close>.
\<close>

definition seconds :: "int \<Rightarrow> int" where
  "seconds n = n * 1000000000"

definition find_communicatord :: "process_info option \<Rightarrow> jref \<Rightarrow> (server, bool) act" where
  "find_communicatord info json = output_process ''network'' json info ''communicatord'' 99"

definition missing_priority :: "int \<Rightarrow> int" where
  "missing_priority duration =
     (if duration > seconds (15 * 60) then 100
      else if duration > seconds (5 * 60) then 65
      else if duration > seconds 60 then 30
      else 15)"

definition verify_communicatord_connection :: "(int \<Rightarrow> string) \<Rightarrow> int \<Rightarrow> jref \<Rightarrow> (server, bool) act" where
  "verify_communicatord_connection to_s now json =
     andthen (get get_communicatord_is_connected) (\<lambda>up.
     if \<not> up then
       let service = sub json ''service'' in
       andthen (member service) (\<lambda>_.
       andthen (assign (sub service ''name'') (JStr ''communicatord'')) (\<lambda>_.
       andthen (assign (sub service ''error'') (JStr ''not connected'')) (\<lambda>_.
       andthen (get get_communicatord_connected_on) (\<lambda>connected.
       andthen (get get_communicatord_disconnected_on) (\<lambda>disconnected.
       if connected = 0 \<and> now - disconnected < seconds (5 * 60) then ret False
       else
         let duration = (if connected = 0 then now - disconnected - seconds (5 * 60)
                         else now - connected) in
         andthen (append_error json ''network''
            (''found the \"communicatord\" process but somehow sitter is not connected, has not been for ''
             @ to_s duration @ '' seconds.'') (missing_priority duration)) (\<lambda>_.
         ret False))))))
     else ret True)"

definition network_watch ::
    "(int \<Rightarrow> string) \<Rightarrow> process_info option \<Rightarrow> int \<Rightarrow> jref \<Rightarrow> (server, unit) act" where
  "network_watch to_s info now json =
     (let results = sub json ''network'' in
      andthen (member results) (\<lambda>_.
      andthen (find_communicatord info results) (\<lambda>found.
      if found then andthen (verify_communicatord_connection to_s now results) (\<lambda>_. ret ())
      else ret ())))"

definition firewall_watch :: "process_info option \<Rightarrow> jref \<Rightarrow> (server, unit) act" where
  "firewall_watch info json =
     (let e = sub json ''firewall'' in
      andthen (member e) (\<lambda>_.
      andthen (output_process ''firewall'' e info ''ipwall'' 95) (\<lambda>_. ret ())))"

section \<open>The contract of a plugin\<close>

context server_relation
begin

lemma keeps_network_watch: "obeys R (network_watch to_s info now json)"
  unfolding network_watch_def find_communicatord_def verify_communicatord_connection_def Let_def
  by (intro rules R_output_process)

lemma keeps_firewall_watch: "obeys R (firewall_watch info json)"
  unfolding firewall_watch_def Let_def
  by (intro rules R_output_process)

end

interpretation network: watch_plugin "network_watch to_s info now json" id for to_s info now json
  by unfold_locales (simp add: obeysD [OF frame.keeps_network_watch])

interpretation firewall: watch_plugin "firewall_watch info json" id for info json
  by unfold_locales (simp add: obeysD [OF frame.keeps_firewall_watch])

section \<open>What is reported\<close>

lemma missing_priority_range: "15 \<le> missing_priority d \<and> missing_priority d \<le> 100"
  by (simp add: missing_priority_def)

lemma missing_priority_mono: "d \<le> d' \<Longrightarrow> missing_priority d \<le> missing_priority d'"
  by (simp add: missing_priority_def seconds_def)

lemma output_process_result:
  "\<exists>d. output_process p json info name prio s =
     (case info of
        Some _ \<Rightarrow> (Inr True, s\<lparr>doc := d\<rparr>)
      | None \<Rightarrow> (if prio < 0 \<or> 100 < prio then output_process p json info name prio s
                 else (Inr False, s\<lparr>f_max_error_priority := max prio (f_max_error_priority s),
                        f_error_count := f_error_count s + 1,
                        logged := logged s @ [(error_severity prio, p, prio)], doc := d\<rparr>)))"
  by (cases info) (auto simp: output_process_def assign_all_apply append_error_apply andthen_apply Let_def)

text \<open>The priorities of the errors a run reports.\<close>

definition network_reports :: "process_info option \<Rightarrow> int \<Rightarrow> server \<Rightarrow> int list" where
  "network_reports info now s =
     (if info = None then [99]
      else if get_communicatord_is_connected s then []
      else if f_communicatord_connected s = 0
      then (if now - f_communicatord_disconnected s < seconds 300 then []
            else [missing_priority (now - f_communicatord_disconnected s - seconds 300)])
      else [missing_priority (now - f_communicatord_connected s)])"

lemma network_watch_reports:
  "\<exists>t. network_watch to_s info now json s = (Inr (), t)
    \<and> priorities t = priorities s @ network_reports info now s"
proof (cases info)
  case None
  then show ?thesis
    by (simp add: network_watch_def find_communicatord_def output_process_def andthen_apply
        append_error_apply network_reports_def priorities_def Let_def)
next
  case (Some i)
  obtain d where d: "output_process ''network'' (sub json ''network'') (Some i) ''communicatord'' 99
      (s\<lparr>doc := doc s @ [Member (sub json ''network'')]\<rparr>) = (Inr True, s\<lparr>doc := d\<rparr>)"
    using output_process_result [of "''network''" "sub json ''network''" "Some i" "''communicatord''" 99
        "s\<lparr>doc := doc s @ [Member (sub json ''network'')]\<rparr>"] by auto
  have r: "\<not> missing_priority x < 0" "\<not> 100 < missing_priority x" for x
    using missing_priority_range [of x] by linarith+
  show ?thesis
    using Some d r
    by (simp add: network_watch_def find_communicatord_def verify_communicatord_connection_def Let_def
        andthen_apply append_error_apply network_reports_def priorities_def get_communicatord_is_connected_def
        get_communicatord_connected_on_def get_communicatord_disconnected_on_def)
qed

section \<open>Properties\<close>


definition info0 :: process_info where
  "info0 = \<lparr>pi_command = [], pi_pcpu = 0, pi_total_size = 0, pi_rss = 0, pi_tty_major = 0,
     pi_tty_minor = 0, pi_utime = 0, pi_stime = 0, pi_cutime = 0, pi_cstime = 0\<rparr>"


end
