(* ===== verification/Apt.thy ===== *)
theory Apt
  imports Plugin
begin

text \<open>
  The \<^verbatim>\<open>apt\<close> and \<^verbatim>\<open>flags\<close> plugins (\<^verbatim>\<open>plugins/sitter_apt/apt.cpp\<close>,
  \<^verbatim>\<open>plugins/sitter_flags/flags.cpp\<close>).

  \<open>manager_cache\<close> is the \<^verbatim>\<open>cache_path\<close> parameter of the snapmanager configuration, \<open>None\<close>
  when it has none. The raised flags are what \<^verbatim>\<open>communicator::flag::load_flags()\<close> returned.
\<close>

section \<open>The apt-check file\<close>

definition apt_check_output :: "string option \<Rightarrow> string" where
  "apt_check_output manager_cache =
     (case manager_cache of None \<Rightarrow> ''/var/cache/snapwebsites'' | Some p \<Rightarrow> p) @ ''/apt-check.output''"

definition apt_watch :: "ext \<Rightarrow> string option \<Rightarrow> int \<Rightarrow> jref \<Rightarrow> (server, unit) act" where
  "apt_watch X manager_cache now json =
     (let e = sub json ''apt''; output = apt_check_output manager_cache in
      andthen (member e) (\<lambda>_.
      andthen (get (\<lambda>s. files s output)) (\<lambda>file.
      case file of
        Some text \<Rightarrow>
          let contents = x_trim X text in
          if contents = ''-1'' then
            append_error e ''apt'' (''we are unable to check whether some updates are''
              @ '' available (the `apt-check` command was not found)'') 98
          else
            let counts = x_split X contents '';'' in
            if length counts = 3 then
              let cached_on = snd (x_integer X (counts ! 0) 0) in
              andthen (assign (sub e ''last-updated'') (JInt cached_on)) (\<lambda>_.
              if cached_on + 86400 + 60 * 60 \<ge> now then
                if counts ! 1 = ''0'' then ret ()
                else
                  andthen (assign (sub e ''total-updates'') (JInt (snd (x_integer X (counts ! 1) 0)))) (\<lambda>_.
                  andthen (assign (sub e ''security-updates'') (JInt (snd (x_integer X (counts ! 2) 0)))) (\<lambda>_.
                  if counts ! 2 \<noteq> ''0''
                  then append_error e ''apt'' (''there are packages including security updates''
                         @ '' that need to be upgraded on this system.'') 52
                  else append_error e ''apt'' (''there are standard packages that can be''
                         @ '' upgraded now on this system.'') 45))
              else
                append_error e ''apt'' (''\"'' @ output @ ''\" file is out of date, the''
                  @ '' snapmanagerdaemon did not update it for more than a day'') 50)
            else
              append_error e ''apt'' (''could not figure out the contents of \"'' @ output
                @ ''\", snapmanagerdaemon may have changed the format since we wrote the''
                @ '' sitter apt plugin?'') 15
      | None \<Rightarrow>
          append_error e ''apt'' (''\"'' @ output @ ''\" file is missing, sitter is not''
            @ '' getting APT status updates from snapmanagerdaemon'') 20)))"

context server_relation
begin

lemma keeps_apt_watch: "obeys R (apt_watch X manager_cache now json)"
  unfolding apt_watch_def Let_def
  by (intro rules)
    (auto intro!: rules split: option.split)

end

interpretation apt: watch_plugin "apt_watch X manager_cache now json" id for X manager_cache now json
  by unfold_locales (simp add: obeysD [OF frame.keeps_apt_watch])

section \<open>The flags\<close>

record flag =
  fl_unit :: string
  fl_section :: string
  fl_name :: string
  fl_priority :: int
  fl_manual_down :: bool
  fl_date :: int
  fl_modified :: int
  fl_message :: string
  fl_source_file :: string
  fl_function :: string
  fl_line :: int
  fl_tags :: "string list"

definition flag_element :: "jref \<Rightarrow> flag \<Rightarrow> (server, unit) act" where
  "flag_element flg f =
     andthen (append_item (sub flg ''flag'')) (\<lambda>e.
     andthen (assign_all e
       [(''unit'', JStr (fl_unit f)),
        (''section'', JStr (fl_section f)),
        (''name'', JStr (fl_name f)),
        (''priority'', JInt (fl_priority f)),
        (''manual-down'', JBool (fl_manual_down f)),
        (''date'', JInt (fl_date f)),
        (''modified'', JInt (fl_modified f)),
        (''message'', JStr (fl_message f)),
        (''source-file'', JStr (fl_source_file f)),
        (''function'', JStr (fl_function f)),
        (''line'', JInt (fl_line f))]) (\<lambda>_.
     for_each (\<lambda>t. andthen (append_item (sub e ''tags'')) (\<lambda>tag. assign tag (JStr t)))
       (fl_tags f)))"

fun flag_names :: "string \<Rightarrow> flag list \<Rightarrow> string" where
  "flag_names names [] = names"
| "flag_names names (f # fs) =
     flag_names ((if names = [] then [] else names @ '', '') @ fl_name f) fs"

definition flags_watch :: "flag list \<Rightarrow> jref \<Rightarrow> (server, unit) act" where
  "flags_watch list json =
     (if list = [] then ret ()
      else
        let flg = sub json ''flags'' in
        andthen (member flg) (\<lambda>_.
        andthen (for_each (flag_element flg) list) (\<lambda>_.
        append_error flg ''flags''
          (nat_text (length list) @ '' flag'' @ (if length list = 1 then '''' else ''s'') @ '' ''
           @ (if length list = 1 then ''is'' else ''are'') @ '' raised -- '' @ flag_names [] list)
          (fold (\<lambda>f p. max p (fl_priority f)) list 5))))"

context server_relation
begin

lemma keeps_flag_element: "obeys R (flag_element flg f)"
  unfolding flag_element_def by (intro rules) simp_all

lemma keeps_flags_watch: "obeys R (flags_watch list json)"
  unfolding flags_watch_def Let_def
  by (intro rules keeps_flag_element)

end

interpretation flags: watch_plugin "flags_watch list json" id for list json
  by unfold_locales (simp add: obeysD [OF frame.keeps_flags_watch])

section \<open>What is reported\<close>

lemma keeps_doc_flag_element: "keeps doc_only (flag_element flg f)"
  unfolding flag_element_def by (intro doc_keeps reflp_doc_only transp_doc_only)

lemma doc_actions_return:
  assumes "\<And>s. \<exists>t. m s = (Inr (), t)"
  shows "\<exists>t. andthen m (\<lambda>_. n) s = n t \<and> m s = (Inr (), t)"
  using assms [of s] by auto

lemma flag_element_returns: "\<exists>t. flag_element flg f s = (Inr (), t)"
proof -
  have "\<exists>t. for_each (\<lambda>t. andthen (append_item r) (\<lambda>tag. assign tag (JStr t))) ts u = (Inr (), t)" for r ts u
    by (induction ts arbitrary: u) (auto simp: andthen_apply)
  then show ?thesis by (simp add: flag_element_def andthen_apply assign_all_apply)
qed

lemma flag_elements_return: "\<exists>t. for_each (flag_element flg) fs s = (Inr (), t)"
proof (induction fs arbitrary: s)
  case Nil
  then show ?case by simp
next
  case (Cons f fs)
  obtain t where "flag_element flg f s = (Inr (), t)" using flag_element_returns by blast
  then show ?case using Cons [of t] by simp
qed

lemma fold_max_priority: "fold (\<lambda>f p. max p (fl_priority f)) fs m = Max (insert m (fl_priority ` set fs))"
proof (induction fs arbitrary: m)
  case Nil
  then show ?case by simp
next
  case (Cons f fs)
  have "fold (\<lambda>f p. max p (fl_priority f)) (f # fs) m = Max (insert (max m (fl_priority f)) (fl_priority ` set fs))"
    using Cons [of "max m (fl_priority f)"] by simp
  also have "\<dots> = Max (insert m (insert (fl_priority f) (fl_priority ` set fs)))"
    by (cases "set fs = {}") (simp_all add: max.assoc)
  finally show ?case by simp
qed

lemma flags_watch_reports:
  assumes "list \<noteq> []"
  shows "\<exists>t. flags_watch list json s = t
    \<and> priorities (snd t) = priorities s @ [Max (insert 5 (fl_priority ` set list))]
    \<and> isl (fst t) = (\<exists>f \<in> set list. 100 < fl_priority f)"
proof -
  let ?flg = "sub json ''flags''"
  obtain u where u: "for_each (flag_element ?flg) list (s\<lparr>doc := doc s @ [Member ?flg]\<rparr>) = (Inr (), u)"
    using flag_elements_return by blast
  have "keeps doc_only (for_each (flag_element ?flg) list)"
    by (intro doc_keeps keeps_doc_flag_element reflp_doc_only transp_doc_only)
  from keeps_result [OF this u] have "logged u = logged s" by (auto simp: doc_only_def)
  moreover have "\<not> Max (insert 5 (fl_priority ` set list)) < 0"
    using Max_ge [of "insert 5 (fl_priority ` set list)" 5] by simp
  moreover have "100 < Max (insert 5 (fl_priority ` set list)) \<longleftrightarrow> (\<exists>f \<in> set list. 100 < fl_priority f)"
    by (subst Max_gr_iff) auto
  ultimately show ?thesis
    using assms u
    by (auto simp: flags_watch_def Let_def andthen_apply append_error_apply fold_max_priority priorities_def)
qed

section \<open>Properties\<close>

text \<open>
  C36: the plugin reports one error for all the raised flags, of the priority of the worst of
  them and of 5 at least; with a flag above 100 the report raises an exception; without flags
  nothing is reported and the document is left alone.
\<close>

theorem flags_report_the_worst:
  "flags_watch [] json s = (Inr (), s)
   \<and> (list \<noteq> [] \<longrightarrow>
        priorities (snd (flags_watch list json s)) = priorities s @ [Max (insert 5 (fl_priority ` set list))]
        \<and> isl (fst (flags_watch list json s)) = list_ex (\<lambda>f. 100 < fl_priority f) list)"
  using flags_watch_reports [of list json s] by (simp add: flags_watch_def list_ex_iff)

definition flag0 :: "int \<Rightarrow> flag" where
  "flag0 p = \<lparr>fl_unit = ''u'', fl_section = ''s'', fl_name = ''n'', fl_priority = p,
     fl_manual_down = False, fl_date = 0, fl_modified = 0, fl_message = ''m'', fl_source_file = ''f'',
     fl_function = ''g'', fl_line = 1, fl_tags = [''t'']\<rparr>"

theorem flags_report_the_worst_witness:
  "priorities (snd (flags_watch [flag0 7, flag0 30] [] (new_server (\<lambda>_. True) (\<lambda>_. []) 0))) = [30]"
  using flags_report_the_worst [of "[]" "new_server (\<lambda>_. True) (\<lambda>_. []) 0" "[flag0 7, flag0 30]"]
  by (simp add: flag0_def new_server_def priorities_def)

text \<open>The fields of the apt-check file, and whether it has three of them and a recent date.\<close>

definition apt_counts :: "ext \<Rightarrow> string \<Rightarrow> string list" where
  "apt_counts X text = x_split X (x_trim X text) '';''"

definition apt_fresh :: "ext \<Rightarrow> int \<Rightarrow> string \<Rightarrow> bool" where
  "apt_fresh X now text \<longleftrightarrow> length (apt_counts X text) = 3
     \<and> now \<le> snd (x_integer X (apt_counts X text ! 0) 0) + 90000"

text \<open>
  C35: a run of the apt plugin reports nothing exactly when the file has three fields, was
  written at most 25 hours ago and says that no package waits; otherwise it reports one
  error, which is at 50 or more only when apt-check is missing, the file is out of date or
  security updates wait.
\<close>

theorem apt_silent_iff_up_to_date:
  "\<exists>t ps. apt_watch X cache now json s = (Inr (), t) \<and> priorities t = priorities s @ ps
    \<and> length ps = (case files s (apt_check_output cache) of
         Some text \<Rightarrow>
           if x_trim X text \<noteq> ''-1'' \<and> apt_fresh X now text \<and> apt_counts X text ! 1 = ''0'' then 0 else 1
       | None \<Rightarrow> 1)
    \<and> list_ex (\<lambda>p. 50 \<le> p) ps = (case files s (apt_check_output cache) of
         Some text \<Rightarrow> x_trim X text = ''-1''
           \<or> length (apt_counts X text) = 3
             \<and> (if apt_fresh X now text
                then apt_counts X text ! 1 \<noteq> ''0'' \<and> apt_counts X text ! 2 \<noteq> ''0'' else True)
       | None \<Rightarrow> False)"
  by (cases "files s (apt_check_output cache)")
    (auto simp: apt_watch_def apt_counts_def apt_fresh_def Let_def andthen_apply append_error_apply
      priorities_def)

end
