(* ===== verification/Disk.thy ===== *)
theory Disk
  imports Plugin
begin

unbundle bit_operations_syntax

text \<open>
  The \<^verbatim>\<open>disk\<close> plugin (\<^verbatim>\<open>plugins/sitter_disk/disk.cpp\<close>): the space left on each mounted
  partition, with \<^verbatim>\<open>statvfs()\<close> called under an alarm.

  The plugin works on the alarm of the process (its SIGALRM handler and the seconds left) and
  on the server. A mount comes with what the system calls answered for it. The block counts
  are 64-bit words, as \<^verbatim>\<open>fsblkcnt_t\<close>, the alarm a 32-bit one; the usage ratio is a rational
  where the source has a double.
\<close>

section \<open>statvfs() with a time out\<close>

record statvfs =
  f_frsize :: "64 word"
  f_blocks :: "64 word"
  f_bfree :: "64 word"
  f_bavail :: "64 word"
  f_ffree :: "64 word"
  f_favail :: "64 word"
  f_flag :: "64 word"

record answer =
  an_sigaction :: int             \<comment> \<open>the first \<^verbatim>\<open>sigaction()\<close>\<close>
  an_start :: int                 \<comment> \<open>\<^verbatim>\<open>time(nullptr)\<close> before \<^verbatim>\<open>statvfs()\<close>\<close>
  an_rc :: int
  an_stat :: statvfs
  an_end :: int                   \<comment> \<open>\<^verbatim>\<open>time(nullptr)\<close> after it\<close>

datatype handler = Saved nat | Statvfs_alarm_handler

record process =
  sigalrm :: handler
  pending :: "32 word"            \<comment> \<open>seconds before the alarm, 0 for none\<close>

definition statvfs_try :: "answer \<Rightarrow> 32 word \<Rightarrow> (process, int) act" where
  "statvfs_try an secs p =
     (if an_sigaction an \<noteq> 0 then (Inr (- 1), p)
      else
        let saved_action = sigalrm p;
            p1 = p\<lparr>sigalrm := Statvfs_alarm_handler\<rparr>;
            old_alarm = pending p1;
            p2 = p1\<lparr>pending := secs\<rparr>;
            p3 = p2\<lparr>pending := 0\<rparr>;
            p4 = p3\<lparr>sigalrm := saved_action\<rparr>;
            p5 = (if old_alarm \<noteq> 0 then
                    let elapsed = an_end an - an_start an;
                        left = (if old_alarm \<le> word_of_int elapsed then 1
                                else old_alarm - word_of_int elapsed)
                    in p4\<lparr>pending := left\<rparr>
                  else p4)
        in (Inr (an_rc an), p5))"

section \<open>One partition\<close>

definition g_ignore_filled_partitions :: "string list" where
  "g_ignore_filled_partitions = [''^/snap/core/'']"

text \<open>\<^verbatim>\<open>find_if\<close> with \<^verbatim>\<open>regex_match\<close>: building an invalid pattern raises.\<close>

fun any_match :: "ext \<Rightarrow> string \<Rightarrow> string list \<Rightarrow> exn + bool" where
  "any_match X dir [] = Inr False"
| "any_match X dir (p # ps) =
     (case x_regex X p dir of
        None \<Rightarrow> Inl Regex_error
      | Some b \<Rightarrow> if b then Inr True else any_match X dir ps)"

definition usage :: "statvfs \<Rightarrow> rat" where
  "usage s = 1 - of_nat (unat (f_bavail s)) / of_nat (unat (f_blocks s))"

definition usage_priority :: "rat \<Rightarrow> int" where
  "usage_priority u = (if u \<ge> 999 / 1000 then 100 else if u \<ge> 95 / 100 then 80 else 55)"

definition kilobytes :: "64 word \<Rightarrow> statvfs \<Rightarrow> int" where
  "kilobytes n s = uint (n * f_frsize s div 1024)"

definition full_partition ::
    "ext \<Rightarrow> (rat \<Rightarrow> string) \<Rightarrow> jref \<Rightarrow> jref \<Rightarrow> string \<Rightarrow> rat \<Rightarrow> (server, unit) act" where
  "full_partition X to_s e p dir u =
     (case any_match X dir g_ignore_filled_partitions of
        Inl x \<Rightarrow> throw x
      | Inr ignore \<Rightarrow>
          andthen (assign (sub p ''error'')
            (JStr (if ignore then ''partition used over 90% (ignore)'' else ''partition used over 90%''))) (\<lambda>_.
          if \<not> ignore then
            andthen (get (get_server_parameter ''disk_ignore'')) (\<lambda>disk_ignore.
            case any_match X dir (x_split X disk_ignore '':'') of
              Inl x \<Rightarrow> throw x
            | Inr found \<Rightarrow>
                if \<not> found then
                  append_error e ''disk''
                    (''partition \"'' @ dir @ ''\" on \"'' @ x_hostname X @ ''\" is close to full (''
                     @ to_s (u * 100) @ ''%)'') (usage_priority u)
                else ret ())
          else ret ()))"

definition check_partition ::
    "ext \<Rightarrow> (rat \<Rightarrow> string) \<Rightarrow> jref \<Rightarrow> string \<Rightarrow> statvfs \<Rightarrow> (server, unit) act" where
  "check_partition X to_s e dir s =
     (if f_blocks s \<noteq> 0 then
        andthen (append_item (sub e ''partition'')) (\<lambda>p.
        andthen (assign_all p
          [(''dir'', JStr dir),
           (''blocks'', JInt (kilobytes (f_blocks s) s)),
           (''bfree'', JInt (kilobytes (f_bfree s) s)),
           (''available'', JInt (kilobytes (f_bavail s) s)),
           (''ffree'', JInt (uint (f_ffree s))),
           (''favailable'', JInt (uint (f_favail s))),
           (''flags'', JInt (uint (f_flag s)))]) (\<lambda>_.
        if usage s \<ge> 9 / 10 then full_partition X to_s e p dir (usage s) else ret ()))
      else ret ())"

section \<open>The run\<close>

definition disk_watch ::
    "ext \<Rightarrow> (rat \<Rightarrow> string) \<Rightarrow> (string \<times> answer) list \<Rightarrow> jref \<Rightarrow> (process \<times> server, unit) act" where
  "disk_watch X to_s mounts json =
     (let e = sub json ''disk'' in
      andthen (on_snd (member e)) (\<lambda>_.
      for_each (\<lambda>(dir, an).
        andthen (on_fst (statvfs_try an 3)) (\<lambda>rc.
        if rc = 0 then on_snd (check_partition X to_s e dir (an_stat an)) else ret ())) mounts))"

context server_relation
begin

lemma keeps_check_partition: "obeys R (check_partition X to_s e dir s)"
  unfolding check_partition_def full_partition_def
  by (intro rules)
    (auto intro!: rules split: sum.split)

lemma keeps_disk_watch: "obeys (\<lambda>b. second (R b)) (disk_watch X to_s mounts json)"
  unfolding disk_watch_def Let_def
  by (intro rules obeys_on_fst obeys_on_snd keeps_check_partition)
    (auto intro!: rules obeys_on_fst obeys_on_snd keeps_check_partition)

end

interpretation disk: watch_plugin "disk_watch X to_s mounts json" snd for X to_s mounts json
  using obeysD [OF frame.keeps_disk_watch] by unfold_locales (simp add: second_def)

section \<open>Usage limits without divisions\<close>

lemma usage_at_least:
  assumes "f_blocks s \<noteq> 0" and "0 < k"
  shows "1 - 1 / of_nat k \<le> usage s \<longleftrightarrow> k * unat (f_bavail s) \<le> unat (f_blocks s)"
proof -
  have b: "0 < (of_nat (unat (f_blocks s)) :: rat)"
    using assms(1) by (simp add: unat_gt_0 del: of_nat_unat)
  have "1 - 1 / of_nat k \<le> usage s
      \<longleftrightarrow> of_nat (unat (f_bavail s)) / of_nat (unat (f_blocks s)) \<le> (1 / of_nat k :: rat)"
    by (simp add: usage_def del: of_nat_unat)
  also have "\<dots> \<longleftrightarrow> (of_nat (k * unat (f_bavail s)) :: rat) \<le> of_nat (unat (f_blocks s))"
    using b assms(2) by (simp add: field_simps del: of_nat_unat)
  finally show ?thesis by (simp only: of_nat_le_iff)
qed

lemma usage_limits:
  assumes "f_blocks s \<noteq> 0"
  shows "9 / 10 \<le> usage s \<longleftrightarrow> 10 * unat (f_bavail s) \<le> unat (f_blocks s)"
    and "95 / 100 \<le> usage s \<longleftrightarrow> 20 * unat (f_bavail s) \<le> unat (f_blocks s)"
    and "999 / 1000 \<le> usage s \<longleftrightarrow> 1000 * unat (f_bavail s) \<le> unat (f_blocks s)"
  using usage_at_least [OF assms, of 10] usage_at_least [OF assms, of 20]
    usage_at_least [OF assms, of 1000] by simp_all

section \<open>What is reported\<close>

definition ignored :: "ext \<Rightarrow> string \<Rightarrow> string \<Rightarrow> bool" where
  "ignored X disk_ignore dir \<longleftrightarrow>
     (\<exists>p \<in> set (g_ignore_filled_partitions @ x_split X disk_ignore '':''). x_regex X p dir = Some True)"

definition partition_reports :: "ext \<Rightarrow> string \<Rightarrow> string \<times> answer \<Rightarrow> int list" where
  "partition_reports X disk_ignore m =
     (case m of (dir, an) \<Rightarrow>
       let free = unat (f_bavail (an_stat an)); all = unat (f_blocks (an_stat an)) in
       if an_sigaction an = 0 \<and> an_rc an = 0 \<and> all \<noteq> 0 \<and> 10 * free \<le> all \<and> \<not> ignored X disk_ignore dir
       then [if 1000 * free \<le> all then 100 else if 20 * free \<le> all then 80 else 55] else [])"

lemma any_match_result:
  "\<forall>p \<in> set ps. x_regex X p dir \<noteq> None \<Longrightarrow>
     any_match X dir ps = Inr (\<exists>p \<in> set ps. x_regex X p dir = Some True)"
  by (induction ps) auto

lemma full_partition_reports:
  assumes "\<forall>q \<in> set (g_ignore_filled_partitions
             @ x_split X (get_server_parameter ''disk_ignore'' s) '':''). x_regex X q dir \<noteq> None"
  shows "\<exists>t. full_partition X to_s e p dir u s = (Inr (), t) \<and> priorities t = priorities s
    @ (if ignored X (get_server_parameter ''disk_ignore'' s) dir then [] else [usage_priority u])"
proof -
  let ?b1 = "\<exists>q \<in> set g_ignore_filled_partitions. x_regex X q dir = Some True"
  let ?b2 = "\<exists>q \<in> set (x_split X (get_server_parameter ''disk_ignore'' s) '':''). x_regex X q dir = Some True"
  have 1: "any_match X dir g_ignore_filled_partitions = Inr ?b1"
    using assms by (intro any_match_result) simp
  have 2: "any_match X dir (x_split X (get_server_parameter ''disk_ignore'' s) '':'') = Inr ?b2"
    using assms by (intro any_match_result) simp
  have b: "ignored X (get_server_parameter ''disk_ignore'' s) dir \<longleftrightarrow> ?b1 \<or> ?b2"
    unfolding ignored_def by auto
  have q: "\<not> usage_priority u < 0" "\<not> 100 < usage_priority u" by (simp_all add: usage_priority_def)
  have param: "get_server_parameter ''disk_ignore'' (s\<lparr>doc := d\<rparr>) = get_server_parameter ''disk_ignore'' s" for d
    by (simp add: get_server_parameter_def)
  show ?thesis
  proof (cases ?b1)
    case True
    then show ?thesis unfolding full_partition_def 1 b by (simp add: andthen_apply priorities_def)
  next
    case False
    then have "full_partition X to_s e p dir u s = (if ?b2 then (Inr (), s\<lparr>doc := doc s
          @ [Assign (sub p ''error'') (JStr ''partition used over 90%'')]\<rparr>)
        else append_error e ''disk''
          (''partition \"'' @ dir @ ''\" on \"'' @ x_hostname X @ ''\" is close to full (''
                     @ to_s (u * 100) @ ''%)'') (usage_priority u)
          (s\<lparr>doc := doc s @ [Assign (sub p ''error'') (JStr ''partition used over 90%'')]\<rparr>))"
      unfolding full_partition_def 1 using 2 by (simp add: andthen_apply param)
    then show ?thesis
      unfolding b using False q
      by (cases ?b2) (simp_all add: append_error_apply priorities_def Let_def del: ball_simps bex_simps)
  qed
qed

lemma check_partition_reports:
  assumes "\<forall>p \<in> set (g_ignore_filled_partitions
             @ x_split X (get_server_parameter ''disk_ignore'' s) '':''). x_regex X p dir \<noteq> None"
    and "an_sigaction an = 0" and "an_rc an = 0"
  shows "\<exists>t. check_partition X to_s e dir (an_stat an) s = (Inr (), t)
    \<and> priorities t = priorities s
        @ partition_reports X (get_server_parameter ''disk_ignore'' s) (dir, an)"
proof (cases "f_blocks (an_stat an) = 0")
  case True
  then show ?thesis by (simp add: check_partition_def partition_reports_def)
next
  case False
  then have nz: "unat (f_blocks (an_stat an)) \<noteq> 0" by (simp add: unat_eq_0)
  let ?st = "an_stat an"
  let ?u = "usage ?st"
  have param: "get_server_parameter ''disk_ignore'' (s\<lparr>doc := d\<rparr>) = get_server_parameter ''disk_ignore'' s" for d
    by (simp add: get_server_parameter_def)
  have prio: "usage_priority ?u = (if 1000 * unat (f_bavail ?st) \<le> unat (f_blocks ?st) then 100
      else if 20 * unat (f_bavail ?st) \<le> unat (f_blocks ?st) then 80 else 55)"
    unfolding usage_priority_def usage_limits [OF False] by (rule refl)
  show ?thesis
  proof (cases "10 * unat (f_bavail ?st) \<le> unat (f_blocks ?st)")
    case True
    have full: "9 / 10 \<le> ?u" using True usage_limits(1) [OF False] by simp
    obtain d p where d: "check_partition X to_s e dir ?st s = full_partition X to_s e p dir ?u (s\<lparr>doc := d\<rparr>)"
      using False full by (simp add: check_partition_def andthen_apply assign_all_apply)
    obtain t where "full_partition X to_s e p dir ?u (s\<lparr>doc := d\<rparr>) = (Inr (), t)"
      "priorities t = priorities (s\<lparr>doc := d\<rparr>)
        @ (if ignored X (get_server_parameter ''disk_ignore'' s) dir then [] else [usage_priority ?u])"
      using full_partition_reports [of X "s\<lparr>doc := d\<rparr>"] assms(1) unfolding param by blast
    then show ?thesis
      using full d True nz assms(2,3) prio
      by (auto simp: partition_reports_def Let_def priorities_def)
  next
    case False
    then have "\<not> 9 / 10 \<le> ?u" using usage_limits(1) [OF \<open>f_blocks ?st \<noteq> 0\<close>] by simp
    then have "\<exists>d. check_partition X to_s e dir ?st s = (Inr (), s\<lparr>doc := d\<rparr>)"
      using \<open>f_blocks ?st \<noteq> 0\<close>
      by (intro exI) (simp add: check_partition_def andthen_apply assign_all_apply)
    then show ?thesis
      using False by (auto simp: partition_reports_def Let_def priorities_def)
  qed
qed

lemma statvfs_try_result:
  "fst (statvfs_try an k p) = Inr (if an_sigaction an = 0 then an_rc an else - 1)"
  "sigalrm (snd (statvfs_try an k p)) = sigalrm p"
  "pending (snd (statvfs_try an k p)) = 0 \<longleftrightarrow> pending p = 0"
  by (auto simp: statvfs_try_def Let_def)

lemma statvfs_try_keeps_left:
  assumes "an_sigaction an = 0" and "pending p \<noteq> 0"
    and "0 \<le> an_end an - an_start an" and "an_end an - an_start an < 2 ^ 32"
  shows "unat (pending (snd (statvfs_try an k p)))
       = max 1 (unat (pending p) - nat (an_end an - an_start an))"
proof -
  let ?e = "word_of_int (an_end an - an_start an) :: 32 word"
  have "unat (word_of_int d :: 32 word) = nat d" if "0 \<le> d" "d < 2 ^ 32" for d
    using that take_bit_int_eq_self [of d 32] by (simp add: unsigned_of_int)
  then have e: "unat ?e = nat (an_end an - an_start an)"
    using assms(3,4) by blast
  show ?thesis
  proof (cases "pending p \<le> ?e")
    case True
    then have "unat (pending p) \<le> nat (an_end an - an_start an)" by (simp add: word_le_nat_alt e del: of_int_diff)
    then show ?thesis using assms(1,2) True by (simp add: statvfs_try_def Let_def del: of_int_diff)
  next
    case False
    then have "unat (pending p - ?e) = unat (pending p) - nat (an_end an - an_start an)"
      using unat_sub [of ?e "pending p"] by (simp add: e del: of_int_diff)
    moreover have "nat (an_end an - an_start an) < unat (pending p)"
      using False by (simp add: word_le_nat_alt e del: of_int_diff)
    ultimately show ?thesis using assms(1,2) False by (simp add: statvfs_try_def Let_def del: of_int_diff)
  qed
qed

lemma disk_mounts_report:
  assumes "\<forall>(dir, an) \<in> set mounts. \<forall>q \<in> set (g_ignore_filled_partitions
             @ x_split X (get_server_parameter ''disk_ignore'' s) '':''). x_regex X q dir \<noteq> None"
  shows "\<exists>q t. for_each (\<lambda>(dir, an). andthen (on_fst (statvfs_try an 3)) (\<lambda>rc.
        if rc = 0 then on_snd (check_partition X to_s e dir (an_stat an)) else ret ())) mounts (p, s)
      = (Inr (), (q, t))
    \<and> priorities t = priorities s
        @ concat (map (partition_reports X (get_server_parameter ''disk_ignore'' s)) mounts)
    \<and> sigalrm q = sigalrm p \<and> (pending q = 0 \<longleftrightarrow> pending p = 0)"
  using assms
proof (induction mounts arbitrary: p s)
  case Nil
  then show ?case by simp
next
  case (Cons m mounts)
  obtain dir an where m: "m = (dir, an)" by (cases m)
  let ?ok = "an_sigaction an = 0 \<and> an_rc an = 0"
  let ?p = "snd (statvfs_try an 3 p)"
  obtain t where t: "(if ?ok then check_partition X to_s e dir (an_stat an) s else (Inr (), s)) = (Inr (), t)"
      "priorities t = priorities s @ partition_reports X (get_server_parameter ''disk_ignore'' s) (dir, an)"
  proof (cases ?ok)
    case True
    then show ?thesis
      using check_partition_reports [of X s dir an to_s e] Cons.prems that by (auto simp: m)
  next
    case False
    then show ?thesis using that [of s] by (auto simp: partition_reports_def)
  qed
  have step: "(andthen (on_fst (statvfs_try an 3)) (\<lambda>rc.
        if rc = 0 then on_snd (check_partition X to_s e dir (an_stat an)) else ret ())) (p, s)
      = (Inr (), (?p, t))"
    using t(1) statvfs_try_result(1) [of an 3 p]
    by (auto simp: andthen_apply on_fst_apply on_snd_apply split: if_splits)
  have frame: "plugin_frame s t"
    using t(1) obeys_result [OF frame.keeps_check_partition] by (metis plugin_frame_refl prod.inject)
  then have param: "get_server_parameter ''disk_ignore'' t = get_server_parameter ''disk_ignore'' s"
    using plugin_frame_components(2,3) [OF frame] by (simp add: get_server_parameter_def)
  have "\<forall>(dir, an) \<in> set mounts. \<forall>q \<in> set (g_ignore_filled_partitions
             @ x_split X (get_server_parameter ''disk_ignore'' t) '':''). x_regex X q dir \<noteq> None"
    using Cons.prems unfolding param by auto
  from Cons.IH [OF this, of ?p] show ?case
    using step t(2) unfolding param by (auto simp: m statvfs_try_result)
qed

section \<open>Properties\<close>

text \<open>
  C21: when every pattern is a valid regular expression, a run reports exactly the partitions
  that answered within the time out, have blocks, have at most a tenth of them left and whose
  directory no pattern matches, in the order of the mounts, with priority 55, from 95% used on
  80, from 99.9% on 100.
\<close>

theorem disk_reports_full_partitions:
  assumes "\<forall>(dir, an) \<in> set mounts. \<forall>q \<in> set (g_ignore_filled_partitions
             @ x_split X (get_server_parameter ''disk_ignore'' s) '':''). x_regex X q dir \<noteq> None"
  shows "\<exists>q t. disk_watch X to_s mounts json (p, s) = (Inr (), (q, t))
    \<and> priorities t = priorities s
        @ concat (map (partition_reports X (get_server_parameter ''disk_ignore'' s)) mounts)"
proof -
  let ?s = "s\<lparr>doc := doc s @ [Member (sub json ''disk'')]\<rparr>"
  have param: "get_server_parameter ''disk_ignore'' ?s = get_server_parameter ''disk_ignore'' s"
    by (simp add: get_server_parameter_def)
  show ?thesis
    using disk_mounts_report [of mounts X ?s to_s "sub json ''disk''" p] assms
    unfolding param by (auto simp: disk_watch_def Let_def on_snd_apply priorities_def)
qed

definition answer0 :: "64 word \<Rightarrow> answer" where
  "answer0 left = \<lparr>an_sigaction = 0, an_start = 0, an_rc = 0,
     an_stat = \<lparr>f_frsize = 4096, f_blocks = 1000, f_bfree = left, f_bavail = left, f_ffree = 0,
       f_favail = 0, f_flag = 0\<rparr>, an_end = 1\<rparr>"

theorem disk_reports_full_partitions_witness:
  "\<exists>q t. disk_watch plain_host (\<lambda>_. ''x'') [(''/'', answer0 500), (''/var'', answer0 40), (''/snap/core/7'', answer0 0)] []
      (\<lparr>sigalrm = Saved 0, pending = 0\<rparr>, new_server (\<lambda>_. True) (\<lambda>_. []) 0) = (Inr (), (q, t))
    \<and> priorities t = [80, 100]"
proof -
  have valid: "\<forall>(dir, an) \<in> set mounts. \<forall>q \<in> set (g_ignore_filled_partitions
      @ x_split plain_host (get_server_parameter ''disk_ignore'' (new_server (\<lambda>_. True) (\<lambda>_. []) 0)) '':'').
      x_regex plain_host q dir \<noteq> None" for mounts :: "(string \<times> answer) list"
    by (auto simp: plain_host_def)
  have "partition_reports plain_host [] (''/'', answer0 500) = []"
    "partition_reports plain_host [] (''/var'', answer0 40) = [80]"
    "partition_reports plain_host [] (''/snap/core/7'', answer0 0) = [100]"
    by (simp_all add: partition_reports_def answer0_def ignored_def plain_host_def
        g_ignore_filled_partitions_def)
  then show ?thesis
    using disk_reports_full_partitions [OF valid, where mounts = "[(''/'', answer0 500),
        (''/var'', answer0 40), (''/snap/core/7'', answer0 0)]" and to_s = "\<lambda>_. ''x''" and json = "[]"
        and p = "\<lparr>sigalrm = Saved 0, pending = 0\<rparr>"]
    by (simp add: get_server_parameter_def new_server_def priorities_def)
qed

text \<open>
  C22: \<^verbatim>\<open>statvfs_try()\<close> gives the process its SIGALRM handler back and, when an alarm was
  pending, an alarm for the time that is left of it, one second at least, so that it is never
  lost; without one it leaves none.
\<close>

theorem statvfs_try_restores_the_alarm:
  assumes "an_sigaction an = 0"
    and "0 \<le> an_end an - an_start an" and "an_end an - an_start an < 2 ^ 32"
  shows "let p' = snd (statvfs_try an secs p) in
    sigalrm p' = sigalrm p
    \<and> unat (pending p') = (if pending p = 0 then 0
        else max 1 (unat (pending p) - nat (an_end an - an_start an)))"
  using statvfs_try_keeps_left [OF assms(1) _ assms(2,3)] statvfs_try_result(2,3) [of an secs p]
  by (auto simp: Let_def)

theorem statvfs_try_restores_the_alarm_witness:
  "unat (pending (snd (statvfs_try (answer0 0) 3 \<lparr>sigalrm = Saved 4, pending = 10\<rparr>))) = 9"
  using statvfs_try_restores_the_alarm [of "answer0 0" 3 "\<lparr>sigalrm = Saved 4, pending = 10\<rparr>"]
  by (simp add: answer0_def Let_def)

end
