(* ===== verification/Ordered_Map.thy ===== *)
theory Ordered_Map
  imports Prelude "HOL-Library.List_Lexorder" "HOL-Library.Char_ord"
begin

text \<open>
  \<^verbatim>\<open>std::map\<close> where the sources iterate over it: the entries in the order of the keys, as a
  list of pairs. \<open>put\<close> is \<^verbatim>\<open>m[key] = value\<close>. Lookups go through \<open>map_of\<close>.

  The locale \<open>dictionary\<close> is the contract of a keyed store (what a lookup finds after an
  insertion), interpreted on the ordered list; \<open>ordered_dictionary\<close> adds the order of the
  iteration.
\<close>

fun put :: "'k::linorder \<Rightarrow> 'v \<Rightarrow> ('k \<times> 'v) list \<Rightarrow> ('k \<times> 'v) list" where
  "put k v [] = [(k, v)]"
| "put k v ((k', v') # m) =
     (if k < k' then (k, v) # (k', v') # m
      else if k = k' then (k, v) # m
      else (k', v') # put k v m)"

definition ordered :: "('k::linorder \<times> 'v) list \<Rightarrow> bool" where
  "ordered m \<longleftrightarrow> sorted_wrt (<) (map fst m)"

lemma ordered_Nil [simp]: "ordered []"
  by (simp add: ordered_def)

lemma ordered_Cons: "ordered ((k, v) # m) \<longleftrightarrow> (\<forall>k' \<in> set (map fst m). k < k') \<and> ordered m"
  by (simp add: ordered_def)

lemma keys_put: "set (map fst (put k v m)) = insert k (set (map fst m))"
  by (induction k v m rule: put.induct) auto

lemma ordered_put: "ordered m \<Longrightarrow> ordered (put k v m)"
proof (induction k v m rule: put.induct)
  case (1 k v)
  then show ?case by (simp add: ordered_def)
next
  case (2 k v k' v' m)
  then show ?case
    using keys_put [of k v m] by (auto simp: ordered_Cons)
qed

lemma map_of_put: "ordered m \<Longrightarrow> map_of (put k v m) = (map_of m)(k \<mapsto> v)"
proof (induction k v m rule: put.induct)
  case (2 k v k' v' m)
  then show ?case by (auto simp: ordered_Cons fun_eq_iff)
qed simp

locale dictionary =
  fixes insert_at :: "'k \<Rightarrow> 'v \<Rightarrow> 'm \<Rightarrow> 'm"
    and look :: "'m \<Rightarrow> 'k \<rightharpoonup> 'v"
    and ok :: "'m \<Rightarrow> bool"
  assumes look_insert: "ok m \<Longrightarrow> look (insert_at k v m) = (look m)(k \<mapsto> v)"
    and ok_insert: "ok m \<Longrightarrow> ok (insert_at k v m)"
begin

definition insert_all :: "('k \<times> 'v) list \<Rightarrow> 'm \<Rightarrow> 'm" where
  "insert_all kvs m = fold (\<lambda>(k, v). insert_at k v) kvs m"

lemma ok_insert_all: "ok m \<Longrightarrow> ok (insert_all kvs m)"
  unfolding insert_all_def by (induction kvs arbitrary: m) (auto simp: ok_insert)

text \<open>The last insertion of a key wins.\<close>

lemma look_insert_all: "ok m \<Longrightarrow> look (insert_all kvs m) = look m ++ map_of (rev kvs)"
proof (induction kvs arbitrary: m)
  case Nil
  then show ?case by (simp add: insert_all_def)
next
  case (Cons kv kvs)
  obtain k v where kv: "kv = (k, v)" by (cases kv)
  have "look (insert_all (kv # kvs) m) = look (insert_at k v m) ++ map_of (rev kvs)"
    using Cons.IH [OF ok_insert [OF Cons.prems], of k v] by (simp add: insert_all_def kv)
  then show ?case using Cons.prems by (simp add: look_insert kv map_add_upd_left map_add_def fun_eq_iff split: option.split)
qed

end

locale ordered_dictionary = dictionary insert_at look ok
  for insert_at :: "'k::linorder \<Rightarrow> 'v \<Rightarrow> 'm \<Rightarrow> 'm" and look :: "'m \<Rightarrow> 'k \<rightharpoonup> 'v" and ok :: "'m \<Rightarrow> bool" +
  fixes entries :: "'m \<Rightarrow> ('k \<times> 'v) list"
  assumes entries_ordered: "ok m \<Longrightarrow> ordered (entries m)"
    and entries_look: "ok m \<Longrightarrow> map_of (entries m) = look m"
begin

lemma entries_insert_all:
  "ok m \<Longrightarrow> ordered (entries (insert_all kvs m))
     \<and> map_of (entries (insert_all kvs m)) = look m ++ map_of (rev kvs)"
  using entries_ordered entries_look ok_insert_all look_insert_all by metis

end

interpretation omap: ordered_dictionary put map_of ordered "\<lambda>m. m"
  by unfold_locales (simp_all add: map_of_put ordered_put)

text \<open>The first entry in the order of the keys that satisfies a test is the one of the least such key.\<close>

lemma find_ordered_least:
  assumes "ordered m" and "List.find (\<lambda>(k, v). P k) m = Some (k, v)"
  shows "map_of m k = Some v \<and> P k \<and> (\<forall>k' \<in> dom (map_of m). P k' \<longrightarrow> k \<le> k')"
  using assms
proof (induction m)
  case Nil
  then show ?case by simp
next
  case (Cons e m)
  obtain k0 v0 where e: "e = (k0, v0)" by (cases e)
  have out: "k0 < k'" if "k' \<in> dom (map_of m)" for k'
    using Cons.prems(1) that by (auto simp: e ordered_Cons dom_map_of_conv_image_fst)
  show ?case
  proof (cases "P k0")
    case True
    have "k0 \<le> k'" if "k' \<in> dom (map_of (e # m))" for k'
      using that out [of k'] by (cases "k' = k0") (auto simp: e)
    moreover have "k = k0" "map_of (e # m) k = Some v" using True Cons.prems(2) by (auto simp: e)
    ultimately show ?thesis using True by blast
  next
    case False
    then have f: "List.find (\<lambda>(k, v). P k) m = Some (k, v)" and m: "ordered m"
      using Cons.prems by (simp_all add: e ordered_Cons)
    note IH = Cons.IH [OF m f]
    then have "k \<noteq> k0" using False by auto
    moreover have "k \<le> k'" if "k' \<in> dom (map_of (e # m))" "P k'" for k'
    proof -
      have "k' \<noteq> k0" using that(2) False by auto
      then have "k' \<in> dom (map_of m)" using that(1) by (simp add: e)
      then show ?thesis using IH that(2) by blast
    qed
    moreover have "map_of (e # m) k = Some v" using IH \<open>k \<noteq> k0\<close> by (simp add: e)
    ultimately show ?thesis using IH by blast
  qed
qed

lemma find_ordered_none:
  "List.find (\<lambda>(k, v). P k) m = None \<longleftrightarrow> (\<forall>k \<in> dom (map_of m). \<not> P k)"
  by (auto simp: find_None_iff dom_map_of_conv_image_fst)

end
