(* ===== verification/Certificate.thy ===== *)
theory Certificate
  imports Plugin Ordered_Map
begin

text \<open>
  The \<^verbatim>\<open>certificate\<close> plugin (\<^verbatim>\<open>plugins/sitter_certificate/certificate.cpp\<close>): the days left to
  each certificate, compared with the configured delays.

  The plugin keeps the delays, the date of the last failure to load of each domain and, in a
  static variable, that of the last complaint about the delays. A configuration file found
  by \<^verbatim>\<open>glob_to_list\<close> is what the program reads of it: the domain, if it has one, and the
  answer of \<^verbatim>\<open>ed::certificate\<close>.
\<close>

datatype cert_answer = Load_failed | Not_after int int    \<comment> \<open>\<^verbatim>\<open>tv_sec\<close>, \<^verbatim>\<open>tv_nsec\<close>\<close>

record certificate =
  f_delays_n_priorities :: "(int \<times> int) list"
  f_access_error :: "string \<rightharpoonup> int"
  g_last_delay_error :: int

definition new_certificate :: certificate where
  "new_certificate = \<lparr>f_delays_n_priorities = [], f_access_error = Map.empty, g_last_delay_error = 0\<rparr>"

section \<open>The delays\<close>

definition parse_delay :: "ext \<Rightarrow> string \<Rightarrow> (int \<times> int) option" where
  "parse_delay X w =
     (case x_split X w ''/'' of
        [a, b] \<Rightarrow>
          (case x_integer X a 0 of
             (False, _) \<Rightarrow> None
           | (True, delay) \<Rightarrow>
               if delay \<le> 0 \<or> delay > 366 * 10 then None
               else (case x_integer X b 0 of
                       (False, _) \<Rightarrow> None
                     | (True, priority) \<Rightarrow>
                         if priority < 0 \<or> priority > 100 then None
                         else Some (delay, priority)))
      | _ \<Rightarrow> None)"

text \<open>The loop: the map of the valid entries, and whether there was an invalid one.\<close>

fun parse_warnings :: "ext \<Rightarrow> string list \<Rightarrow> (int \<times> int) list \<Rightarrow> bool \<Rightarrow> (int \<times> int) list \<times> bool" where
  "parse_warnings X [] m invalid = (m, invalid)"
| "parse_warnings X (w # ws) m invalid =
     (case parse_delay X w of
        None \<Rightarrow> parse_warnings X ws m True
      | Some (delay, priority) \<Rightarrow> parse_warnings X ws (put delay priority m) invalid)"

definition parse_delays :: "ext \<Rightarrow> int \<Rightarrow> (certificate \<times> server, unit) act" where
  "parse_delays X now = (\<lambda>(c, s).
     let warning_delays = get_server_parameter ''certificate_warning_delays'' s;
         (m, invalid) = parse_warnings X (x_split X warning_delays '','') [] False;
         c1 = c\<lparr>f_delays_n_priorities := m\<rparr>;
         c2 = (if invalid \<and> now - g_last_delay_error c1 \<ge> 86400
               then c1\<lparr>g_last_delay_error := now\<rparr> else c1);
         c3 = (if f_delays_n_priorities c2 = []
               then c2\<lparr>f_delays_n_priorities := put 30 45 (put 14 85 (put 7 100 []))\<rparr> else c2)
     in (Inr (), (c3, s)))"

section \<open>One certificate\<close>

definition expiry_error ::
    "(int \<Rightarrow> int \<Rightarrow> string) \<Rightarrow> jref \<Rightarrow> int \<Rightarrow> string \<Rightarrow> int \<Rightarrow> int \<Rightarrow> (int \<times> int) list \<Rightarrow> (server, unit) act" where
  "expiry_error to_s json today domain sec nsec delays =
     (let diff = sec sdiv 86400 - today in
      if diff \<le> 0 then
        append_error json ''certificate''
          (''Certificate for domain \"'' @ domain @ ''\" has expired on '' @ to_s sec nsec @ ''.'') 100
      else
        case List.find (\<lambda>(d, priority). diff \<le> d) delays of
          None \<Rightarrow> ret ()
        | Some (d, priority) \<Rightarrow>
            append_error json ''certificate''
              (''Certificate for domain \"'' @ domain @ ''\" will expire on '' @ to_s sec nsec
               @ '' (in '' @ int_text diff @ '' day'' @ (if diff \<noteq> 1 then ''s'' else '''') @ '').'')
              priority)"

definition load_error :: "jref \<Rightarrow> int \<Rightarrow> string \<Rightarrow> (certificate \<times> server, unit) act" where
  "load_error json now domain =
     andthen (get (\<lambda>(c, s). case f_access_error c domain of
                 None \<Rightarrow> 1
               | Some date \<Rightarrow> (if now - date > 3600 * 5 then 2 else (0 :: int)))) (\<lambda>report_error.
     if report_error > 0 then
       andthen (on_fst (modify (\<lambda>c. c\<lparr>f_access_error := (f_access_error c)(domain \<mapsto> now)\<rparr>))) (\<lambda>_.
       on_snd (append_error json ''certificate''
         (''Failed loading certificate of domain \"'' @ domain @ ''\".'')
         (if report_error > 1 then 100 else 75)))
     else ret ())"

definition check_certificate ::
    "(int \<Rightarrow> int \<Rightarrow> string) \<Rightarrow> jref \<Rightarrow> int \<Rightarrow> string option \<times> cert_answer \<Rightarrow> (certificate \<times> server, unit) act" where
  "check_certificate to_s json now conf =
     (case conf of
        (None, _) \<Rightarrow> ret ()
      | (Some domain, cert) \<Rightarrow>
          andthen (on_snd (assign (sub (sub json ''certificate'') ''domain'') (JStr domain))) (\<lambda>_.
          case cert of
            Not_after sec nsec \<Rightarrow>
              if sec \<noteq> 0 \<or> nsec \<noteq> 0 then
                andthen (get (\<lambda>(c, s). f_delays_n_priorities c)) (\<lambda>delays.
                on_snd (expiry_error to_s json (now sdiv 86400) domain sec nsec delays))
              else
                on_snd (append_error json ''certificate''
                  (''Failed getting the certificate notAfter date for domain \"'' @ domain @ ''\".'') 90)
          | Load_failed \<Rightarrow> load_error json now domain))"

section \<open>The run\<close>

text \<open>
  \<open>glob\<close> gives the configuration files for a pattern, in their order. The pattern is the one
  of the source.
\<close>

definition certificate_watch ::
    "ext \<Rightarrow> (int \<Rightarrow> int \<Rightarrow> string) \<Rightarrow> (string \<Rightarrow> (string option \<times> cert_answer) list option) \<Rightarrow> int \<Rightarrow> int
     \<Rightarrow> jref \<Rightarrow> (certificate \<times> server, unit) act" where
  "certificate_watch X to_s glob now later json =
     andthen (on_snd (member (sub json ''certificate''))) (\<lambda>_.
     andthen (parse_delays X later) (\<lambda>_.
     andthen (get (\<lambda>(c, s).
       let path = get_server_parameter ''certificate_path'' s in
       if path = [] then ''/etc/sitter/certificates'' else path)) (\<lambda>path.
     case glob (path @ ''/[0-9]0-9]-*.conf'') of
       None \<Rightarrow> ret ()
     | Some confs \<Rightarrow> for_each (check_certificate to_s json now) confs)))"

section \<open>The contract of a plugin\<close>

context server_relation
begin

lemma keeps_load_error: "obeys (\<lambda>b. second (R b)) (load_error json now domain)"
  unfolding load_error_def
  by (intro rules obeys_on_fst obeys_on_snd)

lemma keeps_expiry_error: "obeys R (expiry_error to_s json today domain sec nsec delays)"
  unfolding expiry_error_def Let_def
  by (auto intro!: rules split: option.split)

lemma keeps_parse_delays: "obeys (\<lambda>b. second (R b)) (parse_delays X now)"
  by (auto simp: obeys_def second_def parse_delays_def Let_def split: prod.splits intro: composes_refl [OF R_composes])

lemma keeps_check_certificate: "obeys (\<lambda>b. second (R b)) (check_certificate to_s json now conf)"
  unfolding check_certificate_def
  by (auto split: prod.split option.split cert_answer.split
      intro!: rules obeys_on_fst obeys_on_snd keeps_expiry_error keeps_load_error)

lemma keeps_certificate_watch:
  "obeys (\<lambda>b. second (R b)) (certificate_watch X to_s glob now later json)"
  unfolding certificate_watch_def
  by (intro rules obeys_on_snd keeps_parse_delays)
    (auto split: option.split intro!: rules keeps_check_certificate)

end

interpretation certificate: watch_plugin "certificate_watch X to_s glob now later json" snd
  for X to_s glob now later json
  using obeysD [OF frame.keeps_certificate_watch] by unfold_locales (simp add: second_def)

section \<open>The delays in force\<close>

lemma parse_warnings_eq:
  "fst (parse_warnings X ws m b) = omap.insert_all (List.map_filter (parse_delay X) ws) m"
  by (induction X ws m b rule: parse_warnings.induct)
    (auto simp: omap.insert_all_def map_filter_simps split: option.split)

lemma parse_delay_range:
  "parse_delay X w = Some (d, p) \<Longrightarrow> 1 \<le> d \<and> d \<le> 3660 \<and> 0 \<le> p \<and> p \<le> 100"
  by (auto simp: parse_delay_def split: list.splits prod.splits bool.splits if_splits)

definition default_delays :: "int \<rightharpoonup> int" where
  "default_delays = [7 \<mapsto> 100, 14 \<mapsto> 85, 30 \<mapsto> 45]"

text \<open>The delays of the option: the valid entries, the last one for a delay, or the default.\<close>

definition delays_in_force :: "ext \<Rightarrow> string \<Rightarrow> (int \<rightharpoonup> int)" where
  "delays_in_force X text =
     (let m = map_of (rev (List.map_filter (parse_delay X) (x_split X text '',''))) in
      if m = Map.empty then default_delays else m)"

lemma map_of_values:
  "map_of m k = Some v \<Longrightarrow> \<forall>(k, v) \<in> set m. P k v \<Longrightarrow> P k v"
  by (auto dest: map_of_SomeD)

lemma delays_in_force_range:
  "delays_in_force X text d = Some p \<Longrightarrow> 1 \<le> d \<and> d \<le> 3660 \<and> 0 \<le> p \<and> p \<le> 100"
proof -
  assume "delays_in_force X text d = Some p"
  moreover have "\<forall>(d, p) \<in> set (rev (List.map_filter (parse_delay X) (x_split X text '',''))).
      1 \<le> d \<and> d \<le> 3660 \<and> 0 \<le> p \<and> p \<le> 100"
    using parse_delay_range [of X] by (fastforce simp: List.map_filter_def)
  ultimately show ?thesis
    using map_of_SomeD [of "rev (List.map_filter (parse_delay X) (x_split X text '',''))" d p]
    by (fastforce simp: delays_in_force_def default_delays_def Let_def split: if_splits)
qed

lemma parse_delays_result:
  "\<exists>c'. parse_delays X now (c, s) = (Inr (), (c', s))
    \<and> ordered (f_delays_n_priorities c')
    \<and> map_of (f_delays_n_priorities c')
        = delays_in_force X (get_server_parameter ''certificate_warning_delays'' s)
    \<and> f_access_error c' = f_access_error c"
proof -
  let ?es = "List.map_filter (parse_delay X)
      (x_split X (get_server_parameter ''certificate_warning_delays'' s) '','')"
  obtain m b where m: "parse_warnings X (x_split X (get_server_parameter ''certificate_warning_delays'' s) '','')
      [] False = (m, b)" by fastforce
  have eq: "m = omap.insert_all ?es []"
    using parse_warnings_eq [of X _ "[]" False] m by (metis fst_conv)
  have o: "ordered m" and l: "map_of m = map_of (rev ?es)"
    using omap.entries_insert_all [of "[]" ?es] by (simp_all add: eq)
  have e: "m = [] \<longleftrightarrow> map_of m = Map.empty" by simp
  have d: "put 30 45 (put 14 85 (put 7 100 [])) = [(7, 100), (14, 85), (30 :: int, 45 :: int)]" by simp
  let ?c = "if b \<and> now - g_last_delay_error c \<ge> 86400
      then c\<lparr>f_delays_n_priorities := m, g_last_delay_error := now\<rparr>
      else c\<lparr>f_delays_n_priorities := m\<rparr>"
  have r: "parse_delays X now (c, s) = (Inr (), (if m = [] then ?c\<lparr>f_delays_n_priorities :=
      [(7, 100), (14, 85), (30, 45)]\<rparr> else ?c, s))"
    by (simp add: parse_delays_def m d Let_def del: put.simps)
  have f: "delays_in_force X (get_server_parameter ''certificate_warning_delays'' s)
      = (if m = [] then default_delays else map_of m)"
    by (simp add: delays_in_force_def l [symmetric] Let_def)
  have "map_of [(7, 100), (14, 85), (30, 45)] = default_delays"
    by (simp add: default_delays_def fun_eq_iff)
  then show ?thesis
    using o unfolding r f by (cases "m = []") (simp_all add: ordered_def)
qed

section \<open>What is reported\<close>

definition delay_reports :: "(int \<rightharpoonup> int) \<Rightarrow> int \<Rightarrow> int list" where
  "delay_reports m diff =
     (if diff \<le> 0 then [100]
      else if {d \<in> dom m. diff \<le> d} = {} then []
      else [the (m (Min {d \<in> dom m. diff \<le> d}))])"

definition cert_reports :: "(int \<rightharpoonup> int) \<Rightarrow> int \<Rightarrow> string option \<times> cert_answer \<Rightarrow> int list" where
  "cert_reports m now conf =
     (case conf of
        (Some _, Not_after sec nsec) \<Rightarrow>
          (if sec = 0 \<and> nsec = 0 then [90] else delay_reports m (sec sdiv 86400 - now sdiv 86400))
      | _ \<Rightarrow> [])"

lemma find_delay:
  assumes "ordered m"
  shows "(case List.find (\<lambda>(d, p). diff \<le> d) m of
           None \<Rightarrow> {d \<in> dom (map_of m). diff \<le> d} = {}
         | Some (d, p) \<Rightarrow> {d \<in> dom (map_of m). diff \<le> d} \<noteq> {}
             \<and> map_of m d = Some p \<and> Min {d \<in> dom (map_of m). diff \<le> d} = d)"
proof (cases "List.find (\<lambda>(d, p). diff \<le> d) m")
  case None
  then show ?thesis using find_ordered_none [of "\<lambda>d. diff \<le> d" m] by auto
next
  case (Some e)
  obtain d p where e: "e = (d, p)" by (cases e)
  note least = find_ordered_least [OF assms, of "\<lambda>d. diff \<le> d" d p]
  have l: "map_of m d = Some p" "diff \<le> d" "\<forall>k' \<in> dom (map_of m). diff \<le> k' \<longrightarrow> d \<le> k'"
    using least Some e by auto
  have "Min {d \<in> dom (map_of m). diff \<le> d} = d"
    by (rule Min_eqI) (use l finite_dom_map_of [of m] in auto)
  moreover have "d \<in> {d \<in> dom (map_of m). diff \<le> d}" using l(1,2) by auto
  ultimately show ?thesis using Some e l by auto
qed

lemma expiry_error_reports:
  assumes "ordered m" and "\<forall>d p. map_of m d = Some p \<longrightarrow> 0 \<le> p \<and> p \<le> 100"
  shows "\<exists>t. expiry_error to_s json today domain sec nsec m s = (Inr (), t)
    \<and> priorities t = priorities s @ delay_reports (map_of m) (sec sdiv 86400 - today)"
proof (cases "sec sdiv 86400 - today \<le> 0")
  case True
  then show ?thesis
    by (simp add: expiry_error_def Let_def delay_reports_def append_error_apply priorities_def)
next
  case False
  note f = find_delay [OF assms(1), of "sec sdiv 86400 - today"]
  show ?thesis
  proof (cases "List.find (\<lambda>(d, p). sec sdiv 86400 - today \<le> d) m")
    case None
    then show ?thesis using f False by (simp add: expiry_error_def Let_def delay_reports_def priorities_def)
  next
    case (Some e)
    obtain d p where e: "e = (d, p)" by (cases e)
    have f': "{d \<in> dom (map_of m). sec sdiv 86400 - today \<le> d} \<noteq> {}" "map_of m d = Some p"
      "Min {d \<in> dom (map_of m). sec sdiv 86400 - today \<le> d} = d"
      using f Some e by auto
    have "\<not> p < 0" "\<not> 100 < p" using f'(2) assms(2) by force+
    then show ?thesis
      using False Some e f' unfolding delay_reports_def f'(3)
      by (simp add: expiry_error_def Let_def append_error_apply priorities_def)
  qed
qed

lemma check_certificates_report:
  assumes "ordered (f_delays_n_priorities c)"
    and "\<forall>d p. map_of (f_delays_n_priorities c) d = Some p \<longrightarrow> 0 \<le> p \<and> p \<le> 100"
    and "\<forall>(d, a) \<in> set confs. a \<noteq> Load_failed"
  shows "\<exists>t. for_each (check_certificate to_s json now) confs (c, s) = (Inr (), (c, t))
    \<and> priorities t = priorities s
        @ concat (map (cert_reports (map_of (f_delays_n_priorities c)) now) confs)"
  using assms(3)
proof (induction confs arbitrary: s)
  case Nil
  then show ?case by simp
next
  case (Cons conf confs)
  obtain d a where conf: "conf = (d, a)" by (cases conf)
  have "\<exists>t. check_certificate to_s json now conf (c, s) = (Inr (), (c, t))
    \<and> priorities t = priorities s @ cert_reports (map_of (f_delays_n_priorities c)) now conf"
  proof (cases d)
    case None
    then show ?thesis by (simp add: check_certificate_def conf cert_reports_def)
  next
    case (Some domain)
    obtain sec nsec where a: "a = Not_after sec nsec" using Cons.prems by (cases a) (auto simp: conf)
    let ?s = "s\<lparr>doc := doc s @ [Assign (sub (sub json ''certificate'') ''domain'') (JStr domain)]\<rparr>"
    obtain t where "expiry_error to_s json (now sdiv 86400) domain sec nsec (f_delays_n_priorities c) ?s
        = (Inr (), t)"
      "priorities t = priorities ?s @ delay_reports (map_of (f_delays_n_priorities c))
         (sec sdiv 86400 - now sdiv 86400)"
      using expiry_error_reports [OF assms(1,2)] by blast
    then show ?thesis
      by (cases "sec = 0 \<and> nsec = 0")
        (auto simp: check_certificate_def conf Some a cert_reports_def andthen_apply on_snd_apply
          append_error_outcome prod_eq_iff)
  qed
  then show ?case using Cons by fastforce
qed

section \<open>Domains that do not load\<close>

text \<open>The times of a list that are due when one is reported only more than five hours after the last.\<close>

fun due :: "int option \<Rightarrow> int list \<Rightarrow> int list" where
  "due prev [] = []"
| "due prev (t # ts) =
     (case prev of
        None \<Rightarrow> t # due (Some t) ts
      | Some l \<Rightarrow> if t - l > 18000 then t # due (Some t) ts else due prev ts)"

lemma due_after:
  "(\<forall>b \<in> set (due (Some l) ts). b - l > 18000) \<and> sorted_wrt (\<lambda>a b. b - a > 18000) (due (Some l) ts)"
proof (induction ts arbitrary: l)
  case Nil
  then show ?case by simp
next
  case (Cons t ts)
  show ?case
  proof (cases "t - l > 18000")
    case True
    have "b - l > 18000" if "b \<in> set (due (Some t) ts)" for b
      using Cons [of t] that True by (smt (verit))
    then show ?thesis using Cons [of t] True by simp
  next
    case False
    then show ?thesis using Cons [of l] by simp
  qed
qed

lemma due_apart: "sorted_wrt (\<lambda>a b. b - a > 18000) (due prev ts)"
proof (cases prev)
  case None
  then show ?thesis using due_after by (cases ts) simp_all
next
  case (Some l)
  then show ?thesis using due_after [of l ts] by simp
qed

lemma due_covers: "t \<in> set ts \<Longrightarrow> \<exists>r. (r \<in> set (due prev ts) \<or> prev = Some r) \<and> t - r \<le> 18000"
proof (induction ts arbitrary: prev)
  case (Cons u ts)
  show ?case
  proof (cases "t = u")
    case True
    then show ?thesis by (cases prev) (auto intro: exI [of _ u])
  next
    case False
    then have "t \<in> set ts" using Cons.prems by simp
    from Cons.IH [OF this, of prev] Cons.IH [OF this, of "Some u"] show ?thesis
      by (cases prev) auto
  qed
qed simp

fun reporting_runs ::
    "ext \<Rightarrow> (int \<Rightarrow> int \<Rightarrow> string) \<Rightarrow> (string option \<times> cert_answer) list \<Rightarrow> int list
     \<Rightarrow> certificate \<times> server \<Rightarrow> int list" where
  "reporting_runs X to_s confs [] w = []"
| "reporting_runs X to_s confs (now # nows) w =
     (let w' = snd (certificate_watch X to_s (\<lambda>_. Some confs) now now [] w) in
      (if priorities (snd w') = priorities (snd w) then [] else [now])
      @ reporting_runs X to_s confs nows w')"

lemma failing_run:
  "\<exists>c' s'. certificate_watch X to_s (\<lambda>_. Some [(Some domain, Load_failed)]) now now [] (c, s) = (Inr (), (c', s'))
    \<and> (case f_access_error c domain of
         None \<Rightarrow> priorities s' = priorities s @ [75] \<and> f_access_error c' domain = Some now
       | Some l \<Rightarrow> if now - l > 18000
           then priorities s' = priorities s @ [100] \<and> f_access_error c' domain = Some now
           else priorities s' = priorities s \<and> f_access_error c' domain = Some l)"
proof -
  let ?s = "s\<lparr>doc := doc s @ [Member (sub [] ''certificate'')]\<rparr>"
  obtain c1 where c1: "parse_delays X now (c, ?s) = (Inr (), (c1, ?s))" "f_access_error c1 = f_access_error c"
    using parse_delays_result by blast
  show ?thesis
    by (cases "f_access_error c domain")
      (simp_all add: certificate_watch_def check_certificate_def load_error_def c1 andthen_apply
        on_snd_apply on_fst_apply append_error_outcome)
qed

lemma reporting_runs_due:
  "reporting_runs X to_s [(Some domain, Load_failed)] nows (c, s) = due (f_access_error c domain) nows"
proof (induction nows arbitrary: c s)
  case Nil
  then show ?case by simp
next
  case (Cons now nows)
  obtain c' s' where w: "certificate_watch X to_s (\<lambda>_. Some [(Some domain, Load_failed)]) now now [] (c, s)
      = (Inr (), (c', s'))"
    and r: "case f_access_error c domain of
         None \<Rightarrow> priorities s' = priorities s @ [75] \<and> f_access_error c' domain = Some now
       | Some l \<Rightarrow> if now - l > 18000
           then priorities s' = priorities s @ [100] \<and> f_access_error c' domain = Some now
           else priorities s' = priorities s \<and> f_access_error c' domain = Some l"
    using failing_run [of X to_s domain now c s] by blast
  have step: "reporting_runs X to_s [(Some domain, Load_failed)] (now # nows) (c, s) =
      (if priorities s' = priorities s then [] else [now]) @ due (f_access_error c' domain) nows"
    by (simp only: reporting_runs.simps w snd_conv Let_def Cons [of c' s'])
  show ?case
  proof (cases "f_access_error c domain")
    case None
    then show ?thesis using r unfolding step by simp
  next
    case (Some l)
    then show ?thesis using r unfolding step by (cases "now - l > 18000") simp_all
  qed
qed

section \<open>The names of the configuration files\<close>

text \<open>
  What \<^verbatim>\<open>glob(7)\<close> says of the patterns of this program: a star, a question mark and a set stand
  for characters other than a slash, the other characters for themselves. The sets are those
  without \<^verbatim>\<open>!\<close> and without a bracket.
\<close>

fun in_brackets :: "string \<Rightarrow> char \<Rightarrow> bool" where
  "in_brackets [] c = False"
| "in_brackets [a] c = (c = a)"
| "in_brackets [a, b] c = (c = a \<or> c = b)"
| "in_brackets (a # d # b # cs) c =
     (if d = CHR ''-'' then (of_char a :: nat) \<le> of_char c \<and> (of_char c :: nat) \<le> of_char b \<or> in_brackets cs c
      else c = a \<or> in_brackets (d # b # cs) c)"

function glob_match :: "string \<Rightarrow> string \<Rightarrow> bool" where
  "glob_match [] t = (t = [])"
| "glob_match (p # ps) t =
     (if p = CHR ''*'' then
        glob_match ps t \<or> (case t of [] \<Rightarrow> False | c # u \<Rightarrow> c \<noteq> CHR ''/'' \<and> glob_match (p # ps) u)
      else case t of
          [] \<Rightarrow> False
        | c # u \<Rightarrow>
            if p = CHR ''?'' then c \<noteq> CHR ''/'' \<and> glob_match ps u
            else case (if p = CHR ''['' then cut_at (CHR '']'') ps else None) of
                Some (cs, rest) \<Rightarrow> c \<noteq> CHR ''/'' \<and> in_brackets cs c \<and> glob_match rest u
              | None \<Rightarrow> c = p \<and> glob_match ps u)"
  by pat_completeness auto
termination
  by (relation "measure (\<lambda>(p, t). length p + length t)") (auto dest: cut_at_shorter split: if_splits)

declare glob_match.simps(2) [simp del]

definition plain_text :: "string \<Rightarrow> bool" where
  "plain_text p \<longleftrightarrow> set p \<inter> {CHR ''*'', CHR ''?'', CHR ''[''} = {}"

lemma glob_match_char:
  "p \<noteq> CHR ''*'' \<Longrightarrow> p \<noteq> CHR ''?'' \<Longrightarrow> p \<noteq> CHR ''['' \<Longrightarrow> glob_match (p # ps) t \<longleftrightarrow> (\<exists>u. t = p # u \<and> glob_match ps u)"
  by (cases t) (auto simp: glob_match.simps(2))

lemma glob_match_plain: "plain_text p \<Longrightarrow> glob_match (p @ ps) t \<longleftrightarrow> (\<exists>u. t = p @ u \<and> glob_match ps u)"
  by (induction p arbitrary: t) (auto simp: plain_text_def glob_match_char)

lemma glob_match_set:
  "CHR '']'' \<notin> set cs \<Longrightarrow> glob_match (CHR ''['' # cs @ CHR '']'' # ps) t
     \<longleftrightarrow> (\<exists>c u. t = c # u \<and> c \<noteq> CHR ''/'' \<and> in_brackets cs c \<and> glob_match ps u)"
  by (cases t) (auto simp: glob_match.simps(2) cut_at_first)

lemma conf_pattern:
  assumes "plain_text path"
  shows "glob_match (path @ ''/[0-9]0-9]-*.conf'') t
    \<longleftrightarrow> (\<exists>c u. t = path @ ''/'' @ c # ''0-9]-'' @ u \<and> c \<noteq> CHR ''/'' \<and> in_brackets ''0-9'' c \<and> glob_match ''*.conf'' u)"
  using glob_match_plain [of "path @ ''/''" "''[0-9]0-9]-*.conf''" t] assms
    glob_match_set [of "''0-9''" "''0-9]-*.conf''"] glob_match_plain [of "''0-9]-''" "''*.conf''"]
  by (auto simp: plain_text_def)

text \<open>The answer of \<^verbatim>\<open>glob_to_list\<close> when the files \<open>disk\<close> are there, with what is read of each.\<close>

definition found_files :: "(string \<times> 'a) list \<Rightarrow> string \<Rightarrow> 'a list option" where
  "found_files disk pattern = Some (map snd (filter (\<lambda>(f, _). glob_match pattern f) disk))"

definition certificate_path :: "server \<Rightarrow> string" where
  "certificate_path s =
     (if get_server_parameter ''certificate_path'' s = [] then ''/etc/sitter/certificates''
      else get_server_parameter ''certificate_path'' s)"

section \<open>Properties\<close>



text \<open>
  C19: for a domain whose certificate never loads, any two runs that report it are more than
  five hours apart, and every run comes at most five hours after a report; the first run is
  one.
\<close>

theorem certificate_failures_five_hours_apart:
  "sorted_wrt (\<lambda>a b. b - a > 18000)
     (reporting_runs X to_s [(Some domain, Load_failed)] (now # nows) (new_certificate, s))
   \<and> list_all (\<lambda>t. list_ex (\<lambda>r. t - r \<le> 18000)
        (reporting_runs X to_s [(Some domain, Load_failed)] (now # nows) (new_certificate, s))) (now # nows)
   \<and> hd (reporting_runs X to_s [(Some domain, Load_failed)] (now # nows) (new_certificate, s)) = now"
proof -
  have "f_access_error new_certificate domain = None" by (simp add: new_certificate_def)
  then show ?thesis
    unfolding reporting_runs_due list_all_iff list_ex_iff
    using due_apart [of None "now # nows"] due_covers [of _ "now # nows" None] by auto
qed

text \<open>
  C20: the pattern of the configuration files lacks a bracket: whatever files are there, with
  whatever domains and certificates, none with a name that has no \<^verbatim>\<open>]\<close> is read, a name of two
  digits, a dash and \<^verbatim>\<open>.conf\<close> included: a run reports nothing.
\<close>

theorem usual_configurations_are_never_read:
  assumes "plain_text (certificate_path s)" and "\<forall>(f, conf) \<in> set disk. CHR '']'' \<notin> set f"
  shows "\<exists>c' t. certificate_watch X to_s (found_files disk) now later json (c, s) = (Inr (), (c', t))
    \<and> logged t = logged s"
proof -
  let ?s = "s\<lparr>doc := doc s @ [Member (sub json ''certificate'')]\<rparr>"
  obtain c1 where c1: "parse_delays X later (c, ?s) = (Inr (), (c1, ?s))" using parse_delays_result by blast
  have "\<not> glob_match (certificate_path s @ ''/[0-9]0-9]-*.conf'') f" if "(f, conf) \<in> set disk" for f conf
    using assms(2) that unfolding conf_pattern [OF assms(1)] by auto
  then have none: "found_files disk (certificate_path s @ ''/[0-9]0-9]-*.conf'') = Some []"
    by (auto simp: found_files_def filter_empty_conv)
  have "get_server_parameter n ?s = get_server_parameter n s" for n
    by (simp add: get_server_parameter_def)
  then have "certificate_watch X to_s (found_files disk) now later json (c, s) = (Inr (), (c1, ?s))"
    using c1 none
    by (simp add: certificate_watch_def andthen_apply on_snd_apply certificate_path_def Let_def split: if_splits)
  then show ?thesis by simp
qed

theorem usual_configurations_are_never_read_witness:
  "\<exists>c' t. certificate_watch plain_host (\<lambda>_ _. [])
       (found_files [(''/etc/sitter/certificates/50-site.conf'', (Some ''a.example'', Load_failed))]) 0 0 []
       (new_certificate, new_server (\<lambda>_. False) (\<lambda>_. []) 0) = (Inr (), (c', t)) \<and> logged t = []"
proof -
  have "certificate_path (new_server (\<lambda>_. False) (\<lambda>_. []) 0) = ''/etc/sitter/certificates''"
    by (simp add: certificate_path_def get_server_parameter_def new_server_def)
  then show ?thesis
    using usual_configurations_are_never_read [of "new_server (\<lambda>_. False) (\<lambda>_. []) 0"
        "[(''/etc/sitter/certificates/50-site.conf'', (Some ''a.example'', Load_failed))]" plain_host "\<lambda>_ _. []" 0 0 "[]"
        new_certificate]
    by (simp add: plain_text_def new_server_def)
qed

text \<open>A file that is read: what the pattern asks for.\<close>

lemma pattern_example: "glob_match (''/c'' @ ''/[0-9]0-9]-*.conf'') ''/c/50-9]-site.conf''"
  by code_simp

end
