(* ===== verification/Log_Definition.thy ===== *)
theory Log_Definition
  imports Host
begin

unbundle bit_operations_syntax

text \<open>
  The definitions of the logs to check (\<^verbatim>\<open>plugins/sitter_log/definition.cpp\<close>,
  \<^verbatim>\<open>definition.h\<close>, \<^verbatim>\<open>search.cpp\<close>): the class, its setters, the parser of one configuration
  file with its file modes, and \<^verbatim>\<open>load()\<close>.

  A configuration file is its parameters and its sections. Modes, user and group identifiers
  have 32 bits, sizes 64. \<open>size_of\<close> is \<^verbatim>\<open>validator_size::convert_string()\<close>, \<open>uid_of\<close> and
  \<open>gid_of\<close> are \<^verbatim>\<open>getpwnam()\<close> and \<^verbatim>\<open>getgrnam()\<close>.
\<close>

section \<open>The class\<close>

record search =
  f_regex :: string
  f_report_as :: string

record definition_t =
  f_name :: string
  f_path :: string
  f_patterns :: "string list"
  f_max_size :: "64 word"
  f_uid :: "32 word"
  f_gid :: "32 word"
  f_mode :: "32 word"
  f_mode_mask :: "32 word"
  f_searches :: "search list"
  f_mandatory :: bool
  f_secure :: bool
  f_first_pattern :: bool

definition new_definition :: "string \<Rightarrow> bool \<Rightarrow> definition_t" where
  "new_definition name mandatory = \<lparr>
     f_name = name, f_path = ''/var/log'', f_patterns = [''*.log''], f_max_size = 0,
     f_uid = - 1, f_gid = - 1, f_mode = 0, f_mode_mask = 0xFFF, f_searches = [],
     f_mandatory = mandatory, f_secure = False, f_first_pattern = True\<rparr>"

definition set_secure :: "bool \<Rightarrow> definition_t \<Rightarrow> definition_t" where
  "set_secure b d = d\<lparr>f_secure := b\<rparr>"

definition set_path :: "string \<Rightarrow> definition_t \<Rightarrow> definition_t" where
  "set_path p d = d\<lparr>f_path := p\<rparr>"

definition set_user_name :: "(string \<Rightarrow> 32 word option) \<Rightarrow> string \<Rightarrow> definition_t \<Rightarrow> definition_t" where
  "set_user_name uid_of name d =
     (let d = d\<lparr>f_uid := - 1\<rparr> in
      if name \<noteq> [] then (case uid_of name of None \<Rightarrow> d | Some uid \<Rightarrow> d\<lparr>f_uid := uid\<rparr>) else d)"

definition set_group_name :: "(string \<Rightarrow> 32 word option) \<Rightarrow> string \<Rightarrow> definition_t \<Rightarrow> definition_t" where
  "set_group_name gid_of name d =
     (let d = d\<lparr>f_gid := - 1\<rparr> in
      if name \<noteq> [] then (case gid_of name of None \<Rightarrow> d | Some gid \<Rightarrow> d\<lparr>f_gid := gid\<rparr>) else d)"

definition set_mode :: "32 word \<Rightarrow> definition_t \<Rightarrow> definition_t" where
  "set_mode m d = d\<lparr>f_mode := m\<rparr>"

definition set_mode_mask :: "32 word \<Rightarrow> definition_t \<Rightarrow> definition_t" where
  "set_mode_mask m d = d\<lparr>f_mode_mask := m\<rparr>"

definition add_pattern :: "string \<Rightarrow> definition_t \<Rightarrow> definition_t" where
  "add_pattern p d =
     (let d = (if f_first_pattern d then d\<lparr>f_first_pattern := False, f_patterns := []\<rparr> else d)
      in d\<lparr>f_patterns := f_patterns d @ [p]\<rparr>)"

definition set_max_size :: "64 word \<Rightarrow> definition_t \<Rightarrow> definition_t" where
  "set_max_size n d = d\<lparr>f_max_size := n\<rparr>"

definition add_search :: "search \<Rightarrow> definition_t \<Rightarrow> definition_t" where
  "add_search sr d = d\<lparr>f_searches := f_searches d @ [sr]\<rparr>"

section \<open>File modes\<close>

text \<open>The digits the parser takes for octal ones: \<^verbatim>\<open>'0'\<close> to \<^verbatim>\<open>'8'\<close>.\<close>

definition octal_char :: "char \<Rightarrow> bool" where
  "octal_char c \<longleftrightarrow> (let k = of_char c :: nat in 48 \<le> k \<and> k \<le> 56)"

fun octal :: "32 word \<Rightarrow> string \<Rightarrow> 32 word \<times> string" where
  "octal m [] = (m, [])"
| "octal m (c # cs) = (if octal_char c then octal (m * 8 + of_nat (of_char c) - 48) cs else (m, c # cs))"

definition numeric_mode :: "string \<Rightarrow> string \<Rightarrow> exn + (32 word \<times> 32 word)" where
  "numeric_mode file str =
     (case octal 0 str of
        (mode, []) \<Rightarrow> Inr (mode, 0)
      | (mode, c # cs) \<Rightarrow>
          if c = CHR ''/'' then
            (case octal 0 cs of
               (mmask, []) \<Rightarrow> Inr (mode, mmask)
             | _ \<Rightarrow> Inl (Invalid_parameter (''invalid numeric mode \"'' @ str @ ''\" found in \"'' @ file
                                     @ ''\"; it must have a numeric mask.'')))
          else Inl (Invalid_parameter (''invalid numeric mode \"'' @ str @ ''\" found in \"'' @ file
                 @ ''\"; it must be one or two octal numbers separated by a slash.'')))"

text \<open>The classes and the operator: the flags, the operator, the rest of the text.\<close>

fun mode_who :: "32 word \<Rightarrow> string \<Rightarrow> exn + (32 word \<times> char option \<times> string)" where
  "mode_who flags [] = Inr (flags, None, [])"
| "mode_who flags (c # cs) =
     (if c = CHR ''u'' then mode_who (flags OR 0x1C0) cs
      else if c = CHR ''g'' then mode_who (flags OR 0x38) cs
      else if c = CHR ''o'' then mode_who (flags OR 0x7) cs
      else if c = CHR ''a'' then mode_who (flags OR 0x1FF) cs
      else if c = CHR ''+'' \<or> c = CHR ''-'' \<or> c = CHR ''=''
      then Inr (if flags = 0 then 0x1FF else flags, Some c, cs)
      else Inl (Invalid_parameter (''unknown character '' @ [c]
             @ '' for mode and/or operator; expected one or more of u, g, o, a, +, -, or =.'')))"

text \<open>The permissions: the low bits and the upper ones.\<close>

fun mode_what :: "32 word \<Rightarrow> 32 word \<Rightarrow> string \<Rightarrow> exn + (32 word \<times> 32 word)" where
  "mode_what mode upper [] = Inr (mode, upper)"
| "mode_what mode upper (c # cs) =
     (if c = CHR ''r'' then mode_what (mode OR 4) upper cs
      else if c = CHR ''w'' then mode_what (mode OR 2) upper cs
      else if c = CHR ''x'' then mode_what (mode OR 1) upper cs
      else if c = CHR ''s'' then mode_what mode (upper OR 0xC00) cs
      else if c = CHR ''t'' then mode_what mode (upper OR 0x200) cs
      else Inl (Invalid_parameter (''unknown character '' @ [c]
             @ '' for actual mode; expected one or more of r, w, x, s, or t.'')))"

definition full_mode :: "32 word \<Rightarrow> 32 word \<Rightarrow> 32 word \<Rightarrow> 32 word" where
  "full_mode flags mode upper =
     (let mode = mode * flags;
          mode = (if upper AND 0x200 \<noteq> 0 then mode OR 0x200 else mode)
      in if upper AND 0xC00 \<noteq> 0
         then mode OR (if flags AND 0x1C0 \<noteq> 0 then 0x800 else 0)
                   OR (if flags AND 0x38 \<noteq> 0 then 0x400 else 0)
         else mode)"

definition mode_with_operator :: "char option \<Rightarrow> 32 word \<Rightarrow> exn + (32 word \<times> 32 word)" where
  "mode_with_operator op mode =
     (if op = Some (CHR ''+'') then Inr (mode, mode)
      else if op = Some (CHR ''-'') then Inr (mode XOR 0x1FF, mode)
      else if op = Some (CHR ''='') then Inr (mode, 0xFFF)
      else Inl (Logic_error (''unexpected operator, did we add one above and are not''
                             @ '' properly handling it here?'')))"

definition symbolic_mode :: "string \<Rightarrow> exn + (32 word \<times> 32 word)" where
  "symbolic_mode str =
     (case mode_who 0 str of
        Inl e \<Rightarrow> Inl e
      | Inr (flags, op, rest) \<Rightarrow>
          (case mode_what 0 0 rest of
             Inl e \<Rightarrow> Inl e
           | Inr (mode, upper) \<Rightarrow> mode_with_operator op (full_mode flags mode upper)))"

definition parse_mode :: "string \<Rightarrow> string \<Rightarrow> exn + (32 word \<times> 32 word)" where
  "parse_mode file str =
     (if str = [] then Inr (0, 0)
      else if octal_char (hd str) then numeric_mode file str
      else symbolic_mode str)"

section \<open>One configuration file\<close>

record users =
  size_of :: "string \<Rightarrow> int option"
  uid_of :: "string \<Rightarrow> 32 word option"
  gid_of :: "string \<Rightarrow> 32 word option"

definition when_param :: "conf \<Rightarrow> string \<Rightarrow> (string \<Rightarrow> definition_t \<Rightarrow> exn + definition_t) \<Rightarrow>
    exn + definition_t \<Rightarrow> exn + definition_t" where
  "when_param defs name f r =
     (case r of
        Inl e \<Rightarrow> Inl e
      | Inr wl \<Rightarrow> (case c_param defs name of None \<Rightarrow> Inr wl | Some v \<Rightarrow> f v wl))"

fun add_sections :: "string \<Rightarrow> conf \<Rightarrow> string list \<Rightarrow> definition_t \<Rightarrow> exn + definition_t" where
  "add_sections file defs [] wl = Inr wl"
| "add_sections file defs (sec # secs) wl =
     (case c_param defs (sec @ ''::regex'') of
        None \<Rightarrow> add_sections file defs secs wl
      | Some regex \<Rightarrow>
          if regex = [] then
            Inl (Invalid_parameter (''regular expression cannot be empty in \"'' @ file @ ''\".''))
          else
            let report_as = (case c_param defs (sec @ ''::report_as'') of None \<Rightarrow> ''error'' | Some t \<Rightarrow> t)
            in add_sections file defs secs
                 (add_search \<lparr>f_regex = regex, f_report_as = report_as\<rparr> wl))"

definition read_definition :: "ext \<Rightarrow> users \<Rightarrow> string \<Rightarrow> conf \<Rightarrow> string \<Rightarrow> exn + definition_t" where
  "read_definition X U file defs name =
     (let mandatory = (case c_param defs ''mandatory'' of None \<Rightarrow> False | Some t \<Rightarrow> x_is_true X t);
          wl = Inr (new_definition name mandatory);
          wl = when_param defs ''secure'' (\<lambda>t wl. Inr (set_secure (x_is_true X t) wl)) wl;
          wl = when_param defs ''path'' (\<lambda>t wl. Inr (set_path t wl)) wl;
          wl = when_param defs ''path'' (\<lambda>t wl. Inr (fold add_pattern (x_split X t '':'') wl)) wl;
          wl = when_param defs ''user_name'' (\<lambda>t wl. Inr (set_user_name (uid_of U) t wl)) wl;
          wl = when_param defs ''group_name'' (\<lambda>t wl. Inr (set_group_name (gid_of U) t wl)) wl;
          wl = when_param defs ''max_size'' (\<lambda>t wl.
                 case size_of U t of
                   None \<Rightarrow> Inl (Invalid_parameter (''the \"max-size='' @ t
                             @ ''\" found in log definition \"'' @ file
                             @ ''\" is not considered a valid size.''))
                 | Some n \<Rightarrow> Inr (set_max_size (word_of_int n) wl)) wl;
          wl = when_param defs ''mode'' (\<lambda>t wl.
                 case parse_mode file (x_trim X t) of
                   Inl e \<Rightarrow> Inl e
                 | Inr (mode, mmask) \<Rightarrow>
                     Inr (set_mode_mask (if mmask = 0 then 0xFFF else mmask) (set_mode mode wl))) wl
      in case wl of
           Inl e \<Rightarrow> Inl e
         | Inr wl \<Rightarrow> add_sections file defs (c_sections defs) wl)"

definition load_config ::
    "ext \<Rightarrow> users \<Rightarrow> string \<times> conf \<Rightarrow> definition_t list \<Rightarrow> exn + definition_t list" where
  "load_config X U fc result =
     (case fc of (file, defs) \<Rightarrow>
        case c_param defs ''name'' of
          None \<Rightarrow> Inl (Missing_parameter ''the \"name\" parameter is mandatory in a log definition.'')
        | Some name \<Rightarrow>
            if name = [] then
              Inl (Invalid_parameter ''the \"name=...\" of a log definition cannot be the empty string.'')
            else if list_ex (\<lambda>l. name = f_name l) result then
              Inl (Invalid_parameter (''found log definition named \"'' @ name @ ''\" twice.''))
            else
              (case read_definition X U file defs name of
                 Inl e \<Rightarrow> Inl e
               | Inr wl \<Rightarrow> Inr (result @ [wl])))"

fun load_all :: "ext \<Rightarrow> users \<Rightarrow> (string \<times> conf) list \<Rightarrow> definition_t list \<Rightarrow> exn + definition_t list" where
  "load_all X U [] result = Inr result"
| "load_all X U (fc # fcs) result =
     (case load_config X U fc result of Inl e \<Rightarrow> Inl e | Inr result' \<Rightarrow> load_all X U fcs result')"

text \<open>\<open>glob\<close> gives the files for a pattern, with their content, in the order of the list.\<close>

definition load_definitions ::
    "ext \<Rightarrow> users \<Rightarrow> (string \<Rightarrow> (string \<times> conf) list) \<Rightarrow> exn + definition_t list" where
  "load_definitions X U glob = load_all X U (glob ''/usr/share/sitter/log-definitions/*.conf'') []"

section \<open>Octal texts\<close>

text \<open>What a user writes: the octal digits of a number.\<close>

fun oct_text :: "nat \<Rightarrow> string" where
  "oct_text n = (if n < 8 then [digit_char n] else oct_text (n div 8) @ [digit_char (n mod 8)])"

declare oct_text.simps [simp del]

lemma octal_digit: "d < 8 \<Longrightarrow> octal_char (digit_char d) \<and> of_char (digit_char d) = (48 + d :: nat)"
proof -
  have "\<forall>d \<in> set [0..<8]. octal_char (digit_char d) \<and> of_char (digit_char d) = (48 + d :: nat)"
    by code_simp
  then show "d < 8 \<Longrightarrow> ?thesis" by simp
qed

lemma octal_append:
  "octal m (oct_text n @ rest) = octal (m * 8 ^ length (oct_text n) + of_nat n) rest"
proof (induction n arbitrary: m rest rule: oct_text.induct)
  case (1 n)
  have digit: "octal k (digit_char d # rest) = octal (k * 8 + of_nat d) rest" if "d < 8" for k d
    using octal_digit [OF that] by simp
  show ?case
  proof (cases "n < 8")
    case True
    then show ?thesis by (simp add: oct_text.simps [of n] digit [OF True] mult.commute del: octal.simps)
  next
    case False
    have eq: "oct_text n = oct_text (n div 8) @ [digit_char (n mod 8)]"
      using False by (simp add: oct_text.simps [of n])
    have nat: "(of_nat n :: 32 word) = of_nat (n div 8) * 8 + of_nat (n mod 8)"
      by (metis div_mult_mod_eq of_nat_add of_nat_mult of_nat_numeral)
    have "octal m (oct_text n @ rest)
        = octal (m * 8 ^ length (oct_text (n div 8)) + of_nat (n div 8)) (digit_char (n mod 8) # rest)"
      using "1.IH" [OF False] by (simp add: eq)
    also have "\<dots> = octal ((m * 8 ^ length (oct_text (n div 8)) + of_nat (n div 8)) * 8 + of_nat (n mod 8)) rest"
      by (rule digit) simp
    also have "\<dots> = octal (m * 8 ^ length (oct_text n) + of_nat n) rest"
      by (simp add: eq nat algebra_simps)
    finally show ?thesis .
  qed
qed

lemma oct_text_Cons: "\<exists>d cs. d < 8 \<and> oct_text n = digit_char d # cs"
proof (induction n rule: oct_text.induct)
  case (1 n)
  show ?case
  proof (cases "n < 8")
    case True
    then show ?thesis by (auto simp: oct_text.simps [of n])
  next
    case False
    then show ?thesis using 1 by (auto simp: oct_text.simps [of n])
  qed
qed

lemma octal_slash [simp]: "\<not> octal_char (CHR ''/'')"
  by (simp add: octal_char_def)

lemma numeric_mode_texts:
  "numeric_mode file (oct_text m) = Inr (of_nat m, 0)"
  "numeric_mode file (oct_text m @ CHR ''/'' # oct_text k) = Inr (of_nat m, of_nat k)"
  using octal_append [of 0 m "[]"] octal_append [of 0 m "CHR ''/'' # oct_text k"]
    octal_append [of 0 k "[]"]
  by (simp_all add: numeric_mode_def)

section \<open>Symbolic modes\<close>

definition class_bits :: "char \<Rightarrow> 32 word" where
  "class_bits c = (if c = CHR ''u'' then 0x1C0 else if c = CHR ''g'' then 0x38
     else if c = CHR ''o'' then 0x7 else 0x1FF)"

definition perm_bits :: "char \<Rightarrow> 32 word" where
  "perm_bits c = (if c = CHR ''r'' then 4 else if c = CHR ''w'' then 2 else 1)"

definition classes :: "string \<Rightarrow> 32 word" where
  "classes ws = (let f = fold (\<lambda>c f. f OR class_bits c) ws 0 in if f = 0 then 0x1FF else f)"

definition perms :: "string \<Rightarrow> 32 word" where
  "perms ps = fold (\<lambda>c m. m OR perm_bits c) ps 0"

definition class_values :: "32 word list" where
  "class_values = [0x1FF, 0x1C0, 0x38, 0x7, 0x1F8, 0x1C7, 0x3F]"

text \<open>The mode that the letters stand for: the permissions, repeated in the chosen classes.\<close>

definition intended :: "string \<Rightarrow> string \<Rightarrow> 32 word" where
  "intended ws ps = (perms ps * 0x49) AND classes ws"

lemma mode_who_letters:
  "set ws \<subseteq> set ''ugoa'' \<Longrightarrow>
     mode_who f (ws @ rest) = mode_who (fold (\<lambda>c f. f OR class_bits c) ws f) rest"
  by (induction ws arbitrary: f) (auto simp: class_bits_def)

lemma mode_what_letters:
  "set ps \<subseteq> set ''rwx'' \<Longrightarrow> mode_what m u ps = Inr (fold (\<lambda>c m. m OR perm_bits c) ps m, u)"
  by (induction ps arbitrary: m) (auto simp: perm_bits_def)

lemma class_step: "c \<in> set ''ugoa'' \<Longrightarrow> f \<in> set (0 # class_values) \<Longrightarrow> f OR class_bits c \<in> set class_values"
  by (auto simp: class_bits_def class_values_def)

lemma perm_step: "c \<in> set ''rwx'' \<Longrightarrow> m \<in> set [0, 1, 2, 3, 4, 5, 6, 7] \<Longrightarrow>
    m OR perm_bits c \<in> set [1, 2, 3, 4, 5, 6, 7]"
  by (auto simp: perm_bits_def)

lemma classes_value:
  assumes "set ws \<subseteq> set ''ugoa''"
  shows "classes ws \<in> set class_values"
proof -
  have "f \<in> set (0 # class_values) \<Longrightarrow> fold (\<lambda>c f. f OR class_bits c) ws f \<in> set (0 # class_values)" for f
    using assms
  proof (induction ws arbitrary: f)
    case (Cons c ws)
    have "c \<in> set ''ugoa''" "set ws \<subseteq> set ''ugoa''" using Cons.prems(2) by simp_all
    then have "f OR class_bits c \<in> set (0 # class_values)"
      using class_step [OF _ Cons.prems(1)] by simp
    then show ?case using Cons.IH \<open>set ws \<subseteq> set ''ugoa''\<close> by simp
  qed simp
  from this [of 0] show ?thesis by (auto simp: classes_def Let_def class_values_def)
qed

lemma perms_value:
  assumes "set ps \<subseteq> set ''rwx''" and "ps \<noteq> []"
  shows "perms ps \<in> set [1, 2, 3, 4, 5, 6, 7]"
proof -
  have *: "m \<in> set [1, 2, 3, 4, 5, 6, 7] \<Longrightarrow> set ps \<subseteq> set ''rwx'' \<Longrightarrow>
      fold (\<lambda>c m. m OR perm_bits c) ps m \<in> set [1, 2, 3, 4, 5, 6, 7]" for m ps
  proof (induction ps arbitrary: m)
    case (Cons c ps)
    have c: "c \<in> set ''rwx''" "set ps \<subseteq> set ''rwx''" using Cons.prems(2) by simp_all
    have "m OR perm_bits c \<in> set [1, 2, 3, 4, 5, 6, 7]"
      by (rule perm_step [OF c(1)]) (use Cons.prems(1) in auto)
    then show ?case using Cons.IH [OF _ c(2)] by (simp only: fold_simps comp_apply)
  qed (simp only: fold_simps)
  obtain c cs where ps: "ps = c # cs" using assms(2) by (cases ps) auto
  have c: "c \<in> set ''rwx''" "set cs \<subseteq> set ''rwx''" using assms(1) by (simp_all add: ps)
  have "0 OR perm_bits c \<in> set [1, 2, 3, 4, 5, 6, 7]" by (rule perm_step [OF c(1)]) simp
  from * [OF this c(2)] show ?thesis unfolding perms_def ps by (simp only: fold_simps comp_apply)
qed

lemma symbolic_mode_letters:
  assumes "set ws \<subseteq> set ''ugoa''" and "set ps \<subseteq> set ''rwx''" and "op \<in> set ''+-=''"
  shows "parse_mode file (ws @ op # ps) = mode_with_operator (Some op) (perms ps * classes ws)"
proof -
  have "\<not> octal_char (hd (ws @ op # ps))"
    using assms(1,3) by (cases ws) (auto simp: octal_char_def)
  moreover have "mode_who f (op # ps) = Inr (if f = 0 then 0x1FF else f, Some op, ps)" for f
    using assms(3) by auto
  ultimately show ?thesis
    using mode_who_letters [OF assms(1), of 0 "op # ps"] mode_what_letters [OF assms(2), of 0 0]
    by (simp add: parse_mode_def symbolic_mode_def full_mode_def classes_def perms_def Let_def)
qed

lemma mode_tables:
  "\<forall>f \<in> set class_values. \<forall>p \<in> set [1, 2, 3, 4, 5, 6, 7].
     p * f = 7 * (p * 0x49 AND f) \<and> p * f AND 0xFFF = p * f
     \<and> (p * 0x49 AND f) AND p * f \<noteq> p * f \<and> p * 0x49 AND f \<noteq> 0 \<and> p * f \<noteq> 0
     \<and> (p * f XOR 0x1FF = 0 \<or> (p * f XOR 0x1FF) AND NOT (p * f) \<noteq> 0)"
  by (simp add: class_values_def)

section \<open>What loading keeps\<close>

definition if_loaded :: "(definition_t \<Rightarrow> bool) \<Rightarrow> exn + definition_t \<Rightarrow> bool" where
  "if_loaded P r \<longleftrightarrow> (case r of Inl _ \<Rightarrow> True | Inr wl \<Rightarrow> P wl)"

lemma if_loaded_when_param:
  assumes "if_loaded P r" and "\<And>v wl. c_param defs name = Some v \<Longrightarrow> P wl \<Longrightarrow> if_loaded P (f v wl)"
  shows "if_loaded P (when_param defs name f r)"
proof (cases r)
  case (Inl e)
  then show ?thesis by (simp add: if_loaded_def when_param_def)
next
  case (Inr wl)
  then have "P wl" using assms(1) by (simp add: if_loaded_def)
  with Inr show ?thesis
    using assms(2) [of _ wl] by (cases "c_param defs name") (simp_all add: if_loaded_def when_param_def)
qed

lemma add_patterns:
  "fold add_pattern ps d = (if ps = [] then d
     else d\<lparr>f_first_pattern := False,
            f_patterns := (if f_first_pattern d then [] else f_patterns d) @ ps\<rparr>)"
  by (induction ps arbitrary: d) (auto simp: add_pattern_def Let_def)

text \<open>The name and the patterns; the patterns come from the path, split at the colons.\<close>

definition pattern_source :: "ext \<Rightarrow> conf \<Rightarrow> string list" where
  "pattern_source X defs =
     (case c_param defs ''path'' of
        None \<Rightarrow> [''*.log'']
      | Some t \<Rightarrow> (if x_split X t '':'' = [] then [''*.log''] else x_split X t '':''))"

definition shaped :: "string \<Rightarrow> string list \<Rightarrow> definition_t \<Rightarrow> bool" where
  "shaped name ps wl \<longleftrightarrow> f_name wl = name \<and> f_patterns wl = ps"

lemma add_sections_shaped: "shaped n ps wl \<Longrightarrow> if_loaded (shaped n ps) (add_sections file defs secs wl)"
  by (induction "file" defs secs wl rule: add_sections.induct)
    (auto simp: if_loaded_def shaped_def add_search_def Let_def split: option.split)

lemma read_definition_shaped:
  "if_loaded (shaped name (pattern_source X defs)) (read_definition X U file defs name)"
proof -
  let ?m = "case c_param defs ''mandatory'' of None \<Rightarrow> False | Some t \<Rightarrow> x_is_true X t"
  let ?w0 = "when_param defs ''path'' (\<lambda>t wl. Inr (set_path t wl))
      (when_param defs ''secure'' (\<lambda>t wl. Inr (set_secure (x_is_true X t) wl))
         (Inr (new_definition name ?m)))"
  let ?w1 = "when_param defs ''path'' (\<lambda>t wl. Inr (fold add_pattern (x_split X t '':'') wl)) ?w0"
  let ?P = "shaped name (pattern_source X defs)"
  have w1: "if_loaded ?P ?w1"
    by (auto simp: if_loaded_def shaped_def pattern_source_def when_param_def add_patterns
        new_definition_def set_secure_def set_path_def split: option.split)
  have keep: "?P wl \<Longrightarrow> if_loaded ?P (Inr (set_user_name f t wl))"
    "?P wl \<Longrightarrow> if_loaded ?P (Inr (set_group_name f t wl))"
    "?P wl \<Longrightarrow> if_loaded ?P (Inr (set_max_size n wl))"
    "?P wl \<Longrightarrow> if_loaded ?P (Inr (set_mode_mask mm (set_mode m wl)))" for wl f t n m mm
    by (auto simp: if_loaded_def shaped_def set_user_name_def set_group_name_def set_max_size_def
        set_mode_mask_def set_mode_def Let_def split: option.split)
  let ?w2 = "when_param defs ''user_name'' (\<lambda>t wl. Inr (set_user_name (uid_of U) t wl)) ?w1"
  let ?w3 = "when_param defs ''group_name'' (\<lambda>t wl. Inr (set_group_name (gid_of U) t wl)) ?w2"
  let ?w4 = "when_param defs ''max_size'' (\<lambda>t wl.
                 case size_of U t of
                   None \<Rightarrow> Inl (Invalid_parameter (''the \"max-size='' @ t
                             @ ''\" found in log definition \"'' @ file
                             @ ''\" is not considered a valid size.''))
                 | Some n \<Rightarrow> Inr (set_max_size (word_of_int n) wl)) ?w3"
  let ?w5 = "when_param defs ''mode'' (\<lambda>t wl.
                 case parse_mode file (x_trim X t) of
                   Inl e \<Rightarrow> Inl e
                 | Inr (mode, mmask) \<Rightarrow>
                     Inr (set_mode_mask (if mmask = 0 then 0xFFF else mmask) (set_mode mode wl))) ?w4"
  have w3: "if_loaded ?P ?w3" by (intro if_loaded_when_param w1 keep)
  have w4: "if_loaded ?P ?w4"
  proof (rule if_loaded_when_param [OF w3])
    fix v wl assume "?P wl"
    then show "if_loaded ?P (case size_of U v of
                   None \<Rightarrow> Inl (Invalid_parameter (''the \"max-size='' @ v
                             @ ''\" found in log definition \"'' @ file
                             @ ''\" is not considered a valid size.''))
                 | Some n \<Rightarrow> Inr (set_max_size (word_of_int n) wl))"
      using keep(3) by (cases "size_of U v") (simp_all add: if_loaded_def)
  qed
  have w5: "if_loaded ?P ?w5"
  proof (rule if_loaded_when_param [OF w4])
    fix v wl assume "?P wl"
    then show "if_loaded ?P (case parse_mode file (x_trim X v) of
                   Inl e \<Rightarrow> Inl e
                 | Inr (mode, mmask) \<Rightarrow>
                     Inr (set_mode_mask (if mmask = 0 then 0xFFF else mmask) (set_mode mode wl)))"
      using keep(4) by (cases "parse_mode file (x_trim X v)") (simp_all add: if_loaded_def split: prod.split)
  qed
  show ?thesis
    using w5 add_sections_shaped [of name "pattern_source X defs"]
    unfolding read_definition_def Let_def
    by (cases ?w5) (simp_all add: if_loaded_def)
qed

definition conf_name :: "string \<times> conf \<Rightarrow> string" where
  "conf_name fc = (case c_param (snd fc) ''name'' of None \<Rightarrow> [] | Some n \<Rightarrow> n)"

lemma load_config_appends:
  assumes "load_config X U fc result = Inr result'"
  shows "\<exists>wl. result' = result @ [wl] \<and> f_name wl = conf_name fc \<and> conf_name fc \<noteq> []
    \<and> conf_name fc \<notin> f_name ` set result \<and> f_patterns wl = pattern_source X (snd fc)"
proof -
  obtain fname defs where fc: "fc = (fname, defs)" by (cases fc)
  obtain name where n: "c_param defs ''name'' = Some name" "name \<noteq> []"
      "\<not> list_ex (\<lambda>l. name = f_name l) result"
    using assms by (auto simp: load_config_def fc split: option.splits if_splits)
  obtain wl where "read_definition X U fname defs name = Inr wl" "result' = result @ [wl]"
    using assms n by (auto simp: load_config_def fc split: sum.splits)
  then show ?thesis
    using read_definition_shaped [of name X defs U fname] n
    by (auto simp: fc conf_name_def if_loaded_def shaped_def list_ex_iff)
qed

lemma load_all_appends:
  assumes "load_all X U fcs result = Inr defs" and "distinct (map f_name result)"
  shows "distinct (map f_name defs) \<and> map f_name defs = map f_name result @ map conf_name fcs
    \<and> map f_patterns defs = map f_patterns result @ map (pattern_source X \<circ> snd) fcs
    \<and> ([] \<notin> set (map f_name result) \<longrightarrow> [] \<notin> set (map f_name defs))"
  using assms
proof (induction X U fcs result rule: load_all.induct)
  case (1 X U result)
  then show ?case by simp
next
  case (2 X U fc fcs result)
  obtain r where r: "load_config X U fc result = Inr r" using "2.prems"(1) by (auto split: sum.splits)
  obtain wl where wl: "r = result @ [wl]" "f_name wl = conf_name fc" "conf_name fc \<noteq> []"
      "conf_name fc \<notin> f_name ` set result" "f_patterns wl = pattern_source X (snd fc)"
    using load_config_appends [OF r] by blast
  have "load_all X U fcs r = Inr defs" "distinct (map f_name r)"
    using "2.prems" r wl by simp_all
  note IH = "2.IH" [OF r this]
  have "map f_name r = map f_name result @ [conf_name fc]"
    "map f_patterns r = map f_patterns result @ [pattern_source X (snd fc)]"
    using wl by simp_all
  note rs = this
  show ?case
  proof (intro conjI impI)
    show "distinct (map f_name defs)" using IH by blast
    show "map f_name defs = map f_name result @ map conf_name (fc # fcs)" using IH rs by simp
    show "map f_patterns defs = map f_patterns result @ map (pattern_source X \<circ> snd) (fc # fcs)"
      using IH rs by simp
    assume "[] \<notin> set (map f_name result)"
    then have "[] \<notin> set (map f_name r)" using wl(3) unfolding rs(1) by simp
    then show "[] \<notin> set (map f_name defs)" using IH by blast
  qed
qed

section \<open>Properties\<close>

text \<open>
  C25: the octal digits of two numbers separated by a slash are read back as the mode and the
  mask, and those of one number as the mode with no mask, modulo 2^32.
\<close>

theorem octal_mode_roundtrip:
  "parse_mode file (oct_text m) = Inr (of_nat m, 0)
   \<and> parse_mode file (oct_text m @ ''/'' @ oct_text k) = Inr (of_nat m, of_nat k)"
proof -
  obtain d cs where d: "d < 8" "oct_text m = digit_char d # cs" using oct_text_Cons by blast
  have "octal_char (hd (oct_text m @ rest))" and "oct_text m @ rest \<noteq> []" for rest
    using octal_digit [OF d(1)] by (simp_all add: d(2))
  from this [of "[]"] this [of "''/'' @ oct_text k"] show ?thesis
    by (simp add: parse_mode_def numeric_mode_texts)
qed



text \<open>
  A mode with the minus operator gives a mode with bits outside of its own mask, which no
  file can match, or mode 0, which disables the check.
\<close>

theorem minus_mode_never_matches:
  assumes "set ws \<subseteq> set ''ugoa''" and "set ps \<subseteq> set ''rwx''" and "ps \<noteq> []"
  shows "\<exists>mode mmask. parse_mode file (ws @ ''-'' @ ps) = Inr (mode, mmask)
    \<and> (mode = 0 \<or> st_mode AND mmask \<noteq> mode)"
proof -
  let ?m = "perms ps * classes ws"
  have t: "?m XOR 0x1FF = 0 \<or> (?m XOR 0x1FF) AND NOT ?m \<noteq> 0"
    using mode_tables classes_value [OF assms(1)] perms_value [OF assms(2,3)] by blast
  have "st_mode AND ?m \<noteq> ?m XOR 0x1FF" if "(?m XOR 0x1FF) AND NOT ?m \<noteq> 0"
  proof
    assume eq: "st_mode AND ?m = ?m XOR 0x1FF"
    have "(st_mode AND ?m) AND NOT ?m = 0" by (simp add: bit_eq_iff bit_simps)
    then show False using that eq by simp
  qed
  then show ?thesis
    using t symbolic_mode_letters [OF assms(1,2), of "CHR ''-''" "file"]
    by (auto simp: mode_with_operator_def)
qed

theorem minus_mode_never_matches_witness:
  "parse_mode ''f'' ''o-w'' = Inr (0x1F1, 0xE) \<and> 0x81A4 AND (0xE :: 32 word) \<noteq> 0x1F1"
proof -
  have "parse_mode ''f'' ''o-w'' = Inr (0x1F1, 0xE)"
    by (simp add: parse_mode_def octal_char_def symbolic_mode_def full_mode_def mode_with_operator_def)
  with minus_mode_never_matches [of "''o''" "''w''" "''f''" "0x81A4"] show ?thesis by auto
qed

text \<open>
  When the definitions load, their names are those of the files, not empty and all
  different; and the patterns of each are the parts of its \<open>path\<close> parameter, whatever its
  other parameters say.
\<close>

theorem loaded_definitions_have_distinct_names:
  assumes "load_definitions X U glob = Inr defs"
  shows "map f_name defs = map conf_name (glob ''/usr/share/sitter/log-definitions/*.conf'')
    \<and> distinct (map f_name defs) \<and> [] \<notin> set (map f_name defs)
    \<and> map f_patterns defs
        = map (pattern_source X \<circ> snd) (glob ''/usr/share/sitter/log-definitions/*.conf'')"
  using load_all_appends [OF assms [unfolded load_definitions_def]]
  unfolding list.map append_Nil list.set distinct.simps by blast

definition users0 :: users where
  "users0 = \<lparr>size_of = (\<lambda>_. None), uid_of = (\<lambda>_. None), gid_of = (\<lambda>_. None)\<rparr>"

theorem loaded_definitions_have_distinct_names_witness:
  "map f_patterns (projr (load_definitions plain_host users0
     (\<lambda>_. [(''a.conf'', \<lparr>c_param = [''name'' \<mapsto> ''syslog'', ''path'' \<mapsto> ''/var/log''], c_sections = []\<rparr>)])))
   = [[''/var/log'']]"
proof -
  let ?c = "\<lparr>c_param = [''name'' \<mapsto> ''syslog'', ''path'' \<mapsto> ''/var/log''], c_sections = []\<rparr>"
  have s: "x_split plain_host ''/var/log'' '':'' = [''/var/log'']" by (simp add: plain_host_def)
  obtain defs where d: "load_definitions plain_host users0 (\<lambda>_. [(''a.conf'', ?c)]) = Inr defs"
    by (simp add: load_definitions_def load_config_def read_definition_def when_param_def s)
  have "pattern_source plain_host ?c = [''/var/log'']" by (simp add: pattern_source_def s)
  with loaded_definitions_have_distinct_names [OF d] d show ?thesis by simp
qed

end
