(* ===== verification/Log.thy ===== *)
theory Log
  imports Plugin Log_Definition
begin

unbundle bit_operations_syntax

text \<open>
  The \<^verbatim>\<open>log\<close> plugin (\<^verbatim>\<open>plugins/sitter_log/log.cpp\<close>): size, owner, group and mode of the files
  that the definitions name.

  The plugin works on its member \<^verbatim>\<open>f_found\<close> and the server. \<open>fs\<close> is what the file system
  answers: the files of a pattern and \<^verbatim>\<open>stat()\<close>. Sizes are compared as the 64-bit words they
  are cast to.
\<close>

record stat =
  st_size :: int
  st_mode :: "32 word"
  st_uid :: "32 word"
  st_gid :: "32 word"
  st_mtime :: int

record log_fs =
  fs_glob :: "string \<Rightarrow> string list"
  fs_stat :: "string \<Rightarrow> stat option"

definition unsigned_text :: "'a::len word \<Rightarrow> string" where
  "unsigned_text w = nat_text (unat w)"

definition too_big :: "definition_t \<Rightarrow> stat \<Rightarrow> bool" where
  "too_big def st \<longleftrightarrow> f_max_size def < word_of_int (st_size st)"

definition check_size :: "jref \<Rightarrow> string \<Rightarrow> definition_t \<Rightarrow> stat \<Rightarrow> (server, unit) act" where
  "check_size l filename def st =
     (if too_big def st then
        append_error l ''log''
          (''size of log file  '' @ f_name def @ '' ('' @ filename @ '') is '' @ int_text (st_size st)
           @ '', which is more than the maximum size of '' @ unsigned_text (f_max_size def))
          (if f_max_size def * 2 < word_of_int (st_size st) then 73 else 58)
      else ret ())"

definition check_owner :: "jref \<Rightarrow> string \<Rightarrow> definition_t \<Rightarrow> stat \<Rightarrow> (server, unit) act" where
  "check_owner l filename def st =
     (let uid = f_uid def in
      if uid \<noteq> - 1 \<and> uid \<noteq> st_uid st then
        append_error l ''log''
          (''log file owner mismatched for '' @ f_name def @ '' ('' @ filename @ ''), found ''
           @ unsigned_text (st_uid st) @ '' expected '' @ unsigned_text uid) 63
      else ret ())"

definition check_group :: "jref \<Rightarrow> string \<Rightarrow> definition_t \<Rightarrow> stat \<Rightarrow> (server, unit) act" where
  "check_group l filename def st =
     (let gid = f_gid def in
      if gid \<noteq> - 1 \<and> gid \<noteq> st_gid st then
        append_error l ''log''
          (''log file group mismatched for '' @ f_name def @ '' ('' @ filename @ ''), found ''
           @ unsigned_text (st_gid st) @ '' expected '' @ unsigned_text gid) 59
      else ret ())"

definition check_mode :: "jref \<Rightarrow> string \<Rightarrow> definition_t \<Rightarrow> stat \<Rightarrow> (server, unit) act" where
  "check_mode l filename def st =
     (let mode = f_mode def; mode_mask = f_mode_mask def in
      if mode \<noteq> 0 \<and> st_mode st AND mode_mask \<noteq> mode then
        append_error l ''log''
          (''log file mode mismatched '' @ f_name def @ '' ('' @ filename @ ''), found ''
           @ unsigned_text (st_mode st) @ '' expected '' @ unsigned_text mode) 64
      else ret ())"

definition check_log :: "log_fs \<Rightarrow> definition_t \<Rightarrow> jref \<Rightarrow> string \<Rightarrow> (bool \<times> server, unit) act" where
  "check_log fs def json filename =
     (case fs_stat fs filename of
        None \<Rightarrow> ret ()
      | Some st \<Rightarrow>
          andthen (on_fst (modify (\<lambda>_. True))) (\<lambda>_.
          let l = sub json ''log'' in
          andthen (on_snd (member l)) (\<lambda>_.
          andthen (on_snd (assign_all l
            [(''name'', JStr (f_name def)),
             (''filename'', JStr filename),
             (''size'', JInt (st_size st)),
             (''mode'', JInt (uint (st_mode st))),
             (''uid'', JInt (uint (st_uid st))),
             (''gid'', JInt (uint (st_gid st))),
             (''mtime'', JInt (st_mtime st))])) (\<lambda>_.
          andthen (on_snd (check_size l filename def st)) (\<lambda>_.
          andthen (on_snd (check_owner l filename def st)) (\<lambda>_.
          andthen (on_snd (check_group l filename def st)) (\<lambda>_.
          on_snd (check_mode l filename def st))))))))"

definition check_definition :: "log_fs \<Rightarrow> jref \<Rightarrow> definition_t \<Rightarrow> (bool \<times> server, unit) act" where
  "check_definition fs e def =
     andthen (on_fst (modify (\<lambda>_. False))) (\<lambda>_.
     andthen (for_each (\<lambda>p. for_each (check_log fs def e) (fs_glob fs (f_path def @ ''/'' @ p)))
                (f_patterns def)) (\<lambda>_.
     andthen (get fst) (\<lambda>found.
     if \<not> found then
       on_snd (append_error e ''log''
         (''no logs found for '' @ f_name def
          @ '' which says it is mandatory to have at least one log file'') 85)
     else ret ())))"

definition log_watch ::
    "ext \<Rightarrow> users \<Rightarrow> (string \<Rightarrow> (string \<times> conf) list) \<Rightarrow> log_fs \<Rightarrow> jref \<Rightarrow> (bool \<times> server, unit) act" where
  "log_watch X U confs fs json =
     (case load_definitions X U confs of
        Inl e \<Rightarrow> throw e
      | Inr log_defs \<Rightarrow>
          let e = sub json ''logs'' in
          andthen (on_snd (member e)) (\<lambda>_. for_each (check_definition fs e) log_defs))"

section \<open>The contract of a plugin\<close>

context server_relation
begin

lemma keeps_checks:
  "obeys R (check_size l fn def st)" "obeys R (check_owner l fn def st)"
  "obeys R (check_group l fn def st)" "obeys R (check_mode l fn def st)"
  by (simp_all add: check_size_def check_owner_def check_group_def check_mode_def Let_def
      R_append_error obeys_ret R_composes)

lemma keeps_check_log: "obeys (\<lambda>b. second (R b)) (check_log fs def json fn)"
  unfolding check_log_def Let_def
  by (auto split: option.split intro!: rules obeys_on_fst obeys_on_snd keeps_checks)

lemma keeps_check_definition: "obeys (\<lambda>b. second (R b)) (check_definition fs e def)"
  unfolding check_definition_def
  by (intro rules obeys_on_fst obeys_on_snd keeps_check_log)

lemma keeps_log_watch: "obeys (\<lambda>b. second (R b)) (log_watch X U confs fs json)"
  unfolding log_watch_def Let_def
  by (auto split: sum.split intro!: rules obeys_on_snd keeps_check_definition)

end

interpretation log: watch_plugin "log_watch X U confs fs json" snd for X U confs fs json
  using obeysD [OF frame.keeps_log_watch] by unfold_locales (simp add: second_def)

section \<open>What is reported\<close>

definition file_reports :: "definition_t \<Rightarrow> stat \<Rightarrow> int list" where
  "file_reports def st =
     (let size = word_of_int (st_size st) in
      (if f_max_size def < size then [if f_max_size def * 2 < size then 73 else 58] else [])
      @ (if f_uid def \<noteq> - 1 \<and> f_uid def \<noteq> st_uid st then [63] else [])
      @ (if f_gid def \<noteq> - 1 \<and> f_gid def \<noteq> st_gid st then [59] else [])
      @ (if f_mode def \<noteq> 0 \<and> st_mode st AND f_mode_mask def \<noteq> f_mode def then [64] else []))"

text \<open>The files of a definition that can be looked at, in order.\<close>

definition seen_files :: "log_fs \<Rightarrow> definition_t \<Rightarrow> stat list" where
  "seen_files fs def =
     List.map_filter (fs_stat fs) (concat (map (\<lambda>p. fs_glob fs (f_path def @ ''/'' @ p)) (f_patterns def)))"

definition definition_reports :: "log_fs \<Rightarrow> definition_t \<Rightarrow> int list" where
  "definition_reports fs def =
     (if seen_files fs def = [] then [85] else concat (map (file_reports def) (seen_files fs def)))"

lemma checks_report:
  "fst (check_size l fn def st s) = Inr ()" "fst (check_owner l fn def st s) = Inr ()"
  "fst (check_group l fn def st s) = Inr ()" "fst (check_mode l fn def st s) = Inr ()"
  "priorities (snd (check_size l fn def st s)) = priorities s
     @ (if f_max_size def < word_of_int (st_size st)
        then [if f_max_size def * 2 < word_of_int (st_size st) then 73 else 58] else [])"
  "priorities (snd (check_owner l fn def st s)) = priorities s
     @ (if f_uid def \<noteq> - 1 \<and> f_uid def \<noteq> st_uid st then [63] else [])"
  "priorities (snd (check_group l fn def st s)) = priorities s
     @ (if f_gid def \<noteq> - 1 \<and> f_gid def \<noteq> st_gid st then [59] else [])"
  "priorities (snd (check_mode l fn def st s)) = priorities s
     @ (if f_mode def \<noteq> 0 \<and> st_mode st AND f_mode_mask def \<noteq> f_mode def then [64] else [])"
  by (simp_all add: check_size_def check_owner_def check_group_def check_mode_def Let_def
      append_error_outcome too_big_def)

lemma check_log_reports:
  "\<exists>t. check_log fs def e fn (b, s) = (Inr (), (b \<or> fs_stat fs fn \<noteq> None, t))
    \<and> priorities t = priorities s
        @ (case fs_stat fs fn of None \<Rightarrow> [] | Some st \<Rightarrow> file_reports def st)"
proof (cases "fs_stat fs fn")
  case None
  then show ?thesis by (simp add: check_log_def)
next
  case (Some st)
  have r: "check_size l fn def st s = (Inr (), snd (check_size l fn def st s))"
    "check_owner l fn def st s = (Inr (), snd (check_owner l fn def st s))"
    "check_group l fn def st s = (Inr (), snd (check_group l fn def st s))"
    "check_mode l fn def st s = (Inr (), snd (check_mode l fn def st s))" for l s
    by (simp_all add: prod_eq_iff checks_report)
  show ?thesis
    by (simp add: check_log_def Some andthen_apply on_fst_apply on_snd_apply assign_all_apply
        checks_report file_reports_def Let_def)
qed

lemma check_logs_report:
  "\<exists>t. for_each (check_log fs def e) fns (b, s) = (Inr (), (b \<or> List.map_filter (fs_stat fs) fns \<noteq> [], t))
    \<and> priorities t = priorities s
        @ concat (map (file_reports def) (List.map_filter (fs_stat fs) fns))"
proof (induction fns arbitrary: b s)
  case Nil
  then show ?case by (simp add: map_filter_simps)
next
  case (Cons fn fns)
  obtain t where t: "check_log fs def e fn (b, s) = (Inr (), (b \<or> fs_stat fs fn \<noteq> None, t))"
      "priorities t = priorities s @ (case fs_stat fs fn of None \<Rightarrow> [] | Some st \<Rightarrow> file_reports def st)"
    using check_log_reports by blast
  then show ?case
    using Cons [of "b \<or> fs_stat fs fn \<noteq> None" t]
    by (cases "fs_stat fs fn") (auto simp: map_filter_simps)
qed

lemma for_each_concat: "for_each (\<lambda>p. for_each f (g p)) ps = for_each f (concat (map g ps))"
  by (induction ps) (simp_all add: for_each_append)

lemma check_definition_reports:
  "\<exists>b t. check_definition fs e def (b0, s) = (Inr (), (b, t))
    \<and> priorities t = priorities s @ definition_reports fs def"
proof -
  obtain t where t: "for_each (\<lambda>p. for_each (check_log fs def e) (fs_glob fs (f_path def @ ''/'' @ p)))
        (f_patterns def) (False, s) = (Inr (), (seen_files fs def \<noteq> [], t))"
      "priorities t = priorities s @ concat (map (file_reports def) (seen_files fs def))"
    unfolding for_each_concat seen_files_def using check_logs_report [of fs def e _ False s] by auto
  show ?thesis
    using t by (auto simp: check_definition_def definition_reports_def andthen_apply on_fst_apply
        on_snd_apply append_error_outcome)
qed

lemma check_definitions_report:
  "\<exists>b t. for_each (check_definition fs e) defs (b0, s) = (Inr (), (b, t))
    \<and> priorities t = priorities s @ concat (map (definition_reports fs) defs)"
proof (induction defs arbitrary: b0 s)
  case Nil
  then show ?case by simp
next
  case (Cons def defs)
  obtain b t where "check_definition fs e def (b0, s) = (Inr (), (b, t))"
      "priorities t = priorities s @ definition_reports fs def"
    using check_definition_reports by blast
  then show ?case using Cons [of b t] by auto
qed

section \<open>Properties\<close>



text \<open>
  \<^verbatim>\<open>json["log"]\<close> is one object, so each file sets its members again: two files that can be looked
  at set the same \<^verbatim>\<open>filename\<close>.
\<close>

lemma plugin_frame_extends: "plugin_frame s t \<Longrightarrow> \<exists>d. doc t = doc s @ d"
  using plugin_frame_components(1) by blast

lemma checks_doc:
  "\<exists>d. doc (snd (check_size l fn def st s)) = doc s @ d" "\<exists>d. doc (snd (check_owner l fn def st s)) = doc s @ d"
  "\<exists>d. doc (snd (check_group l fn def st s)) = doc s @ d" "\<exists>d. doc (snd (check_mode l fn def st s)) = doc s @ d"
  by (intro plugin_frame_extends obeysD [OF frame.keeps_checks(1)] obeysD [OF frame.keeps_checks(2)]
      obeysD [OF frame.keeps_checks(3)] obeysD [OF frame.keeps_checks(4)])+

lemma check_log_entry:
  assumes "fs_stat fs fn = Some st"
  shows "\<exists>t d. check_log fs def e fn (b, s) = (Inr (), (True, t)) \<and> doc t = doc s @ d
    \<and> Assign (sub (sub e ''log'') ''filename'') (JStr fn) \<in> set d"
proof -
  let ?l = "sub e ''log''"
  have r: "fst (check_size ?l fn def st s) = Inr ()" "fst (check_owner ?l fn def st s) = Inr ()"
    "fst (check_group ?l fn def st s) = Inr ()" "fst (check_mode ?l fn def st s) = Inr ()" for s
    by (simp_all add: checks_report)
  obtain s1 where s1: "\<exists>d. doc s1 = doc s @ d \<and> Assign (sub ?l ''filename'') (JStr fn) \<in> set d"
    "check_log fs def e fn (b, s) = (Inr (), (True, snd (check_mode ?l fn def st (snd (check_group ?l fn def st
       (snd (check_owner ?l fn def st (snd (check_size ?l fn def st s1)))))))))"
    by (rule that [of "s\<lparr>doc := doc s @ Member ?l # map (\<lambda>(k, v). Assign (sub ?l k) v)
          [(''name'', JStr (f_name def)), (''filename'', JStr fn), (''size'', JInt (st_size st)),
           (''mode'', JInt (uint (st_mode st))), (''uid'', JInt (uint (st_uid st))),
           (''gid'', JInt (uint (st_gid st))), (''mtime'', JInt (st_mtime st))]\<rparr>"])
      (simp_all add: check_log_def assms andthen_apply on_fst_apply on_snd_apply assign_all_apply Let_def r)
  then show ?thesis
    using checks_doc(1) [of ?l fn def st s1] checks_doc(2) [of ?l fn def st "snd (check_size ?l fn def st s1)"]
      checks_doc(3) [of ?l fn def st "snd (check_owner ?l fn def st (snd (check_size ?l fn def st s1)))"]
      checks_doc(4) [of ?l fn def st
        "snd (check_group ?l fn def st (snd (check_owner ?l fn def st (snd (check_size ?l fn def st s1)))))"]
    by auto
qed

lemma log_files_share_an_entry:
  assumes "fs_stat fs f \<noteq> None" and "fs_stat fs g \<noteq> None"
  shows "\<exists>t. for_each (check_log fs def e) [f, g] (b, s) = (Inr (), (True, t))
    \<and> Assign (sub (sub e ''log'') ''filename'') (JStr f) \<in> set (doc t)
    \<and> Assign (sub (sub e ''log'') ''filename'') (JStr g) \<in> set (doc t)"
proof -
  obtain st su where st: "fs_stat fs f = Some st" "fs_stat fs g = Some su" using assms by auto
  obtain t d where t: "check_log fs def e f (b, s) = (Inr (), (True, t))" "doc t = doc s @ d"
    "Assign (sub (sub e ''log'') ''filename'') (JStr f) \<in> set d" using check_log_entry [OF st(1)] by blast
  obtain u k where "check_log fs def e g (True, t) = (Inr (), (True, u))" "doc u = doc t @ k"
    "Assign (sub (sub e ''log'') ''filename'') (JStr g) \<in> set k" using check_log_entry [OF st(2)] by blast
  then show ?thesis using t by (simp add: andthen_apply)
qed

end
