(* ===== verification/Packages.thy ===== *)
theory Packages
  imports Plugin Ordered_Map
begin

text \<open>
  The \<^verbatim>\<open>packages\<close> plugin (\<^verbatim>\<open>plugins/sitter_packages/packages.cpp\<close>): packages that must be
  installed, must not be, or conflict with each other.

  The globals of the source are the record \<open>packages\<close>: the definitions, the known statuses
  (\<^verbatim>\<open>std::map\<close>), and the two flags of the cache. \<open>dpkg\<close> is the exit code and the trimmed
  output of \<^verbatim>\<open>dpkg-query\<close> for a package; the files of the cache are those of the server.
\<close>

section \<open>The definitions\<close>

datatype installation_t =
    PACKAGE_INSTALLATION_OPTIONAL | PACKAGE_INSTALLATION_REQUIRED | PACKAGE_INSTALLATION_UNWANTED

record sitter_package_t =
  f_name :: string
  f_description :: string
  f_conflicts :: "string list"        \<comment> \<open>a \<^verbatim>\<open>std::set\<close>: sorted, without duplicates\<close>
  f_in_conflict :: "string list"
  f_installation :: installation_t
  f_priority :: int

record packages =
  g_packages :: "sitter_package_t list"
  g_installed_packages :: "(string \<times> bool) list"
  g_cache_loaded :: bool
  g_cache_modified :: bool

definition new_packages :: packages where
  "new_packages = \<lparr>g_packages = [], g_installed_packages = [], g_cache_loaded = False,
     g_cache_modified = False\<rparr>"

definition new_package :: "string \<Rightarrow> installation_t \<Rightarrow> int \<Rightarrow> sitter_package_t" where
  "new_package name installation priority =
     \<lparr>f_name = name, f_description = [], f_conflicts = [], f_in_conflict = [],
      f_installation = installation, f_priority = signed_take_bit 31 priority\<rparr>"

definition set_description :: "ext \<Rightarrow> string \<Rightarrow> sitter_package_t \<Rightarrow> sitter_package_t" where
  "set_description X d p = p\<lparr>f_description := x_trim X d\<rparr>"

definition set_add :: "string \<Rightarrow> string list \<Rightarrow> string list" where
  "set_add x xs = (if x \<in> set xs then xs else insort x xs)"

definition add_conflict :: "string \<Rightarrow> sitter_package_t \<Rightarrow> exn + sitter_package_t" where
  "add_conflict package_name p =
     (if package_name = f_name p
      then Inl (Invalid_parameter ''a package cannot be in conflict with itself'')
      else Inr (p\<lparr>f_conflicts := set_add package_name (f_conflicts p)\<rparr>))"

fun installation_as_string :: "installation_t \<Rightarrow> string" where
  "installation_as_string PACKAGE_INSTALLATION_REQUIRED = ''required''"
| "installation_as_string PACKAGE_INSTALLATION_UNWANTED = ''unwanted''"
| "installation_as_string PACKAGE_INSTALLATION_OPTIONAL = ''optional''"

definition installation_from_string :: "string \<Rightarrow> exn + installation_t" where
  "installation_from_string t =
     (if t = [] \<or> t = ''optional'' then Inr PACKAGE_INSTALLATION_OPTIONAL
      else if t = ''required'' then Inr PACKAGE_INSTALLATION_REQUIRED
      else if t = ''unwanted'' then Inr PACKAGE_INSTALLATION_UNWANTED
      else Inl (Invalid_parameter ''invalid installation name, cannot load your configuration file''))"

section \<open>Loading them\<close>

fun add_conflicts :: "string list \<Rightarrow> sitter_package_t \<Rightarrow> exn + sitter_package_t" where
  "add_conflicts [] p = Inr p"
| "add_conflicts (c # cs) p =
     (case add_conflict c p of Inl e \<Rightarrow> Inl e | Inr p' \<Rightarrow> add_conflicts cs p')"

text \<open>The parameter that is tested is the misspelled one of the source.\<close>

definition load_package :: "ext \<Rightarrow> conf \<Rightarrow> sitter_package_t list \<Rightarrow> exn + sitter_package_t list" where
  "load_package X package result =
     (if \<not> has_param package ''name'' then Inr result
      else
        let name = param package ''name'';
            priority = (if has_param package ''priority''
                        then snd (x_integer X (param package ''priority'') 15) else 15);
            installation = (if has_param package ''intallation''
                            then installation_from_string (param package ''installation'')
                            else Inr PACKAGE_INSTALLATION_OPTIONAL)
        in case installation of
             Inl e \<Rightarrow> Inl e
           | Inr inst \<Rightarrow>
               (let description = (if has_param package ''description''
                                   then param package ''description'' else []);
                    conflicts = (if has_param package ''conflicts''
                                 then x_split X (param package ''conflicts'') '','' else []);
                    wp = set_description X description (new_package name inst priority)
                in case add_conflicts conflicts wp of
                     Inl e \<Rightarrow> Inl e
                   | Inr wp \<Rightarrow> Inr (result @ [wp])))"

fun load_each :: "ext \<Rightarrow> conf list \<Rightarrow> sitter_package_t list \<Rightarrow> (exn option \<times> sitter_package_t list)" where
  "load_each X [] result = (None, result)"
| "load_each X (c # cs) result =
     (case load_package X c result of Inl e \<Rightarrow> (Some e, result) | Inr r \<Rightarrow> load_each X cs r)"

definition load_packages :: "ext \<Rightarrow> (string \<Rightarrow> conf list) \<Rightarrow> (packages \<times> server, unit) act" where
  "load_packages X glob = (\<lambda>(g, s).
     let packages_path = get_server_parameter ''sitter_packages_path'' s;
         packages_path = (if packages_path = [] then ''/usr/share/sitter/packages'' else packages_path);
         (e, ps) = load_each X (glob (packages_path @ ''/*.conf'')) []
     in (case e of None \<Rightarrow> Inr () | Some e \<Rightarrow> Inl e, (g\<lparr>g_packages := ps\<rparr>, s)))"

section \<open>The statuses and their cache\<close>

definition cache_line :: "string \<Rightarrow> (string \<times> bool) list \<Rightarrow> (string \<times> bool) list" where
  "cache_line line m =
     (case cut_at (CHR ''='') line of
        None \<Rightarrow> m
      | Some (name, value) \<Rightarrow> (if name = [] then m else put name (value = ''t'') m))"

function read_cache :: "string \<Rightarrow> (string \<times> bool) list \<Rightarrow> (string \<times> bool) list" where
  "read_cache content m =
     (case cut_at (CHR 0x0A) content of
        None \<Rightarrow> cache_line content m
      | Some (line, rest) \<Rightarrow> read_cache rest (cache_line line m))"
  by pat_completeness auto
termination
  by (relation "measure (\<lambda>(content, m). length content)") (auto dest: cut_at_shorter)

declare read_cache.simps [simp del]

definition cache_text :: "(string \<times> bool) list \<Rightarrow> string" where
  "cache_text m = concat (map (\<lambda>(name, b). name @ ''='' @ (if b then ''t'' else ''f'') @ [CHR 0x0A]) m)"

definition is_package_installed ::
    "ext \<Rightarrow> (string \<Rightarrow> int \<times> string) \<Rightarrow> string \<Rightarrow> (packages \<times> server, bool) act" where
  "is_package_installed X dpkg package_name =
     andthen (get (\<lambda>(g, s). g_cache_loaded g)) (\<lambda>loaded.
     andthen
       (if \<not> loaded then
          andthen (on_fst (modify (\<lambda>g. g\<lparr>g_cache_loaded := True\<rparr>))) (\<lambda>_.
          andthen (on_snd (get_cache_path X ''package-statuses.txt'')) (\<lambda>path.
          andthen (on_snd (get (\<lambda>s. files s path))) (\<lambda>file.
          case file of
            None \<Rightarrow> ret ()
          | Some content \<Rightarrow>
              on_fst (modify (\<lambda>g. g\<lparr>g_installed_packages :=
                                       read_cache content (g_installed_packages g)\<rparr>)))))
        else ret ()) (\<lambda>_.
     andthen (get (\<lambda>(g, s). map_of (g_installed_packages g) package_name)) (\<lambda>it.
     case it of
       Some result \<Rightarrow> ret result
     | None \<Rightarrow>
         let (r, output) = dpkg package_name;
             result = (r = 0 \<and> output = ''install ok installed'')
         in andthen (on_fst (modify (\<lambda>g. g\<lparr>
              g_installed_packages := put package_name result (g_installed_packages g),
              g_cache_modified := True\<rparr>))) (\<lambda>_. ret result))))"

text \<open>The packages that are installed among some names, in order.\<close>

fun installed_ones ::
    "ext \<Rightarrow> (string \<Rightarrow> int \<times> string) \<Rightarrow> string list \<Rightarrow> (packages \<times> server, string list) act" where
  "installed_ones X dpkg [] = ret []"
| "installed_ones X dpkg (u # us) =
     andthen (is_package_installed X dpkg u) (\<lambda>b.
     andthen (installed_ones X dpkg us) (\<lambda>rest.
     ret (if b then u # rest else rest)))"

text \<open>\<open>is_in_conflict\<close> gives the package back with its member \<^verbatim>\<open>f_in_conflict\<close>.\<close>

definition is_in_conflict ::
    "ext \<Rightarrow> (string \<Rightarrow> int \<times> string) \<Rightarrow> sitter_package_t \<Rightarrow> (packages \<times> server, bool \<times> sitter_package_t) act" where
  "is_in_conflict X dpkg pc =
     andthen (is_package_installed X dpkg (f_name pc)) (\<lambda>b.
     if \<not> b then ret (False, pc)
     else
       andthen (installed_ones X dpkg (f_conflicts pc)) (\<lambda>us.
       let pc = pc\<lparr>f_in_conflict := fold set_add us []\<rparr>
       in ret (f_in_conflict pc \<noteq> [], pc)))"

definition save_cache :: "ext \<Rightarrow> (packages \<times> server, unit) act" where
  "save_cache X =
     andthen (get (\<lambda>(g, s). g_cache_modified g)) (\<lambda>modified.
     if modified then
       andthen (on_snd (get_cache_path X ''package-statuses.txt'')) (\<lambda>path.
       andthen (get (\<lambda>(g, s). cache_text (g_installed_packages g))) (\<lambda>text.
       andthen (on_snd (write_all X path text)) (\<lambda>_. ret ())))
     else ret ())"

section \<open>The run\<close>

definition check_conflicts ::
    "ext \<Rightarrow> (string \<Rightarrow> int \<times> string) \<Rightarrow> jref \<Rightarrow> sitter_package_t \<Rightarrow> (packages \<times> server, unit) act" where
  "check_conflicts X dpkg json pc =
     andthen (is_in_conflict X dpkg pc) (\<lambda>(conflict, pc).
     if conflict then
       on_snd (append_error json ''packages''
         (f_description pc @ '' The \"'' @ f_name pc @ ''\" package is in conflict with \"''
          @ x_join X ''\", \"'' (f_in_conflict pc) @ ''\".'') (f_priority pc))
     else ret ())"

definition check_package ::
    "ext \<Rightarrow> (string \<Rightarrow> int \<times> string) \<Rightarrow> jref \<Rightarrow> sitter_package_t \<Rightarrow> (packages \<times> server, unit) act" where
  "check_package X dpkg json pc =
     andthen (on_snd (append_item (sub (sub json ''packages'') ''package''))) (\<lambda>package.
     andthen (on_snd (assign_all package
       ([(''name'', JStr (f_name pc)),
         (''installation'', JStr (installation_as_string (f_installation pc)))]
        @ (if f_conflicts pc \<noteq> [] then [(''conflicts'', JStr (x_join X '', '' (f_conflicts pc)))] else [])))) (\<lambda>_.
     case f_installation pc of
       PACKAGE_INSTALLATION_REQUIRED \<Rightarrow>
         andthen (is_package_installed X dpkg (f_name pc)) (\<lambda>b.
         if \<not> b then
           on_snd (append_error package ''packages''
             (''The \"'' @ f_name pc @ ''\" package is required but not (yet) installed.''
              @ '' Please install this package at your earliest convenience.'') (f_priority pc))
         else check_conflicts X dpkg json pc)
     | PACKAGE_INSTALLATION_UNWANTED \<Rightarrow>
         andthen (is_package_installed X dpkg (f_name pc)) (\<lambda>b.
         if b then
           on_snd (append_error package ''packages''
             (''The \"'' @ f_name pc @ ''\" package is expected to NOT ever be installed.''
              @ '' Please remove this package at your earliest convenience.'') (f_priority pc))
         else check_conflicts X dpkg json pc)
     | PACKAGE_INSTALLATION_OPTIONAL \<Rightarrow> check_conflicts X dpkg json pc))"

definition packages_watch ::
    "ext \<Rightarrow> (string \<Rightarrow> conf list) \<Rightarrow> (string \<Rightarrow> int \<times> string) \<Rightarrow> jref \<Rightarrow> (packages \<times> server, unit) act" where
  "packages_watch X glob dpkg json =
     andthen (load_packages X glob) (\<lambda>_.
     andthen (on_snd (member (sub json ''packages''))) (\<lambda>_.
     andthen (get (\<lambda>(g, s). g_packages g)) (\<lambda>ps.
     andthen (for_each (check_package X dpkg json) ps) (\<lambda>_.
     save_cache X))))"

section \<open>The contract of a plugin\<close>

context server_relation
begin

lemma keeps_is_package_installed: "obeys (\<lambda>b. second (R b)) (is_package_installed X dpkg name)"
  unfolding is_package_installed_def Let_def
  by (intro rules obeys_on_fst obeys_on_snd)
    (auto split: option.split prod.split intro!: rules obeys_on_fst)

lemma keeps_installed_ones: "obeys (\<lambda>b. second (R b)) (installed_ones X dpkg us)"
proof (induction us)
  case Nil
  show ?case unfolding installed_ones.simps by (intro rules)
next
  case (Cons u us)
  then show ?case
    unfolding installed_ones.simps
    by (intro rules keeps_is_package_installed)
qed

lemma keeps_check_conflicts: "obeys (\<lambda>b. second (R b)) (check_conflicts X dpkg json pc)"
  unfolding check_conflicts_def is_in_conflict_def Let_def
  by (auto split: prod.split intro!: rules obeys_on_snd keeps_is_package_installed keeps_installed_ones)

lemma keeps_check_package: "obeys (\<lambda>b. second (R b)) (check_package X dpkg json pc)"
  unfolding check_package_def
  by (intro rules obeys_on_snd;
      cases "f_installation pc")
    (auto intro!: rules obeys_on_snd keeps_is_package_installed keeps_check_conflicts)

lemma keeps_load_packages: "obeys (\<lambda>b. second (R b)) (load_packages X glob)"
  by (auto simp: obeys_def second_def load_packages_def Let_def split: prod.split intro: composes_refl [OF R_composes])

lemma keeps_packages_watch:
  assumes "\<And>path. named ''package-statuses.txt'' path \<Longrightarrow> writes path"
  shows "obeys (\<lambda>b. second (R b)) (packages_watch X glob dpkg json)"
  unfolding packages_watch_def save_cache_def
  by (intro cache_path_then_second rules assms obeys_on_snd keeps_load_packages keeps_check_package)

end

interpretation packages: watch_plugin "packages_watch X glob dpkg json" snd for X glob dpkg json
  using obeysD [OF frame.keeps_packages_watch] by unfold_locales (simp add: second_def)

section \<open>The cache file\<close>

text \<open>What makes a name safe to write: Debian names have neither character.\<close>

definition plain_name :: "string \<Rightarrow> bool" where
  "plain_name n \<longleftrightarrow> n \<noteq> [] \<and> CHR ''='' \<notin> set n \<and> CHR 0x0A \<notin> set n"

lemma read_cache_line:
  "CHR 0x0A \<notin> set line \<Longrightarrow> read_cache (line @ CHR 0x0A # rest) m = read_cache rest (cache_line line m)"
  by (subst read_cache.simps) (simp add: cut_at_first)

lemma read_cache_text:
  assumes "\<forall>(n, b) \<in> set m. plain_name n"
  shows "read_cache (cache_text m) m0 = omap.insert_all m m0"
  using assms
proof (induction m arbitrary: m0)
  case Nil
  then show ?case by (subst read_cache.simps) (simp add: cache_text_def cache_line_def omap.insert_all_def)
next
  case (Cons e m)
  obtain n b where e: "e = (n, b)" by (cases e)
  have n: "plain_name n" using Cons.prems by (simp add: e)
  let ?line = "n @ ''='' @ (if b then ''t'' else ''f'')"
  have "cache_text (e # m) = ?line @ CHR 0x0A # cache_text m" by (simp add: cache_text_def e)
  moreover have "CHR 0x0A \<notin> set ?line" using n by (simp add: plain_name_def)
  moreover have "cache_line ?line m0 = put n b m0"
    using n cut_at_first [of "CHR ''=''" n] by (auto simp: cache_line_def plain_name_def)
  ultimately show ?case
    using Cons read_cache_line [of ?line "cache_text m" m0] by (simp add: e omap.insert_all_def)
qed

lemma ordered_same_map:
  assumes "ordered (m :: ('k::linorder \<times> 'v) list)" and "ordered m'" and "map_of m = map_of m'"
  shows "m = m'"
proof -
  have 1: "sorted (map fst m)" "distinct (map fst m)" "sorted (map fst m')" "distinct (map fst m')"
    using assms(1,2) unfolding ordered_def by (simp_all add: strict_sorted_iff)
  have "set m = set m'"
    using set_map_of_compr [OF 1(2)] set_map_of_compr [OF 1(4)] assms(3) by simp
  moreover have "inj_on fst (set m)" using 1(2) by (simp add: distinct_map)
  ultimately show ?thesis using map_sorted_distinct_set_unique [of fst m m'] 1 by simp
qed

section \<open>What a lookup answers\<close>

text \<open>
  The status of a package for the loaded plugin: the known one, or what \<^verbatim>\<open>dpkg-query\<close> says.
  A lookup gives it and does not change it for any package.
\<close>

definition status :: "(string \<Rightarrow> int \<times> string) \<Rightarrow> (string \<times> bool) list \<Rightarrow> string \<Rightarrow> bool" where
  "status dpkg m name =
     (case map_of m name of
        Some b \<Rightarrow> b
      | None \<Rightarrow> fst (dpkg name) = 0 \<and> snd (dpkg name) = ''install ok installed'')"

lemma status_put:
  "ordered m \<Longrightarrow> status dpkg (put n (status dpkg m n) m) = status dpkg m"
  by (auto simp: status_def map_of_put fun_eq_iff)

definition ready :: "packages \<Rightarrow> bool" where
  "ready g \<longleftrightarrow> g_cache_loaded g \<and> ordered (g_installed_packages g)"

lemma lookup_ready:
  assumes "ready g"
  shows "\<exists>g'. is_package_installed X dpkg name (g, s) = (Inr (status dpkg (g_installed_packages g) name), (g', s))
    \<and> ready g' \<and> status dpkg (g_installed_packages g') = status dpkg (g_installed_packages g)
    \<and> g_packages g' = g_packages g"
proof (cases "map_of (g_installed_packages g) name")
  case None
  let ?b = "status dpkg (g_installed_packages g) name"
  have b: "?b = (fst (dpkg name) = 0 \<and> snd (dpkg name) = ''install ok installed'')"
    by (simp add: status_def None)
  let ?g = "g\<lparr>g_installed_packages := put name ?b (g_installed_packages g), g_cache_modified := True\<rparr>"
  have "is_package_installed X dpkg name (g, s) = (Inr ?b, (?g, s))"
    using assms None by (simp add: is_package_installed_def ready_def andthen_apply on_fst_apply b
        Let_def split: prod.split)
  moreover have "ready ?g" using assms by (simp add: ready_def ordered_put)
  moreover have "status dpkg (g_installed_packages ?g) = status dpkg (g_installed_packages g)"
    using assms status_put by (simp add: ready_def)
  ultimately show ?thesis by (intro exI [of _ ?g]) simp
next
  case (Some b)
  then show ?thesis
    using assms by (simp add: is_package_installed_def ready_def status_def)
qed

lemma installed_ones_ready:
  "ready g \<Longrightarrow> \<exists>g'. installed_ones X dpkg us (g, s) =
      (Inr (filter (status dpkg (g_installed_packages g)) us), (g', s))
    \<and> ready g' \<and> status dpkg (g_installed_packages g') = status dpkg (g_installed_packages g)
    \<and> g_packages g' = g_packages g"
proof (induction us arbitrary: g)
  case Nil
  then show ?case by simp
next
  case (Cons u us)
  obtain g1 where 1: "is_package_installed X dpkg u (g, s) = (Inr (status dpkg (g_installed_packages g) u), (g1, s))"
      "ready g1" "status dpkg (g_installed_packages g1) = status dpkg (g_installed_packages g)"
      "g_packages g1 = g_packages g"
    using lookup_ready [OF Cons.prems] by blast
  show ?case using Cons.IH [OF 1(2)] 1 by auto
qed

lemma set_add_not_empty: "fold set_add us acc = [] \<longleftrightarrow> us = [] \<and> acc = []"
proof (induction us arbitrary: acc)
  case (Cons u us)
  have "set_add u acc \<noteq> []" by (auto simp: set_add_def)
  then show ?case using Cons by simp
qed simp

section \<open>What is reported\<close>

definition package_reports :: "(string \<Rightarrow> bool) \<Rightarrow> sitter_package_t \<Rightarrow> int list" where
  "package_reports inst p =
     (if f_installation p = PACKAGE_INSTALLATION_REQUIRED \<and> \<not> inst (f_name p) then [f_priority p]
      else if f_installation p = PACKAGE_INSTALLATION_UNWANTED \<and> inst (f_name p) then [f_priority p]
      else if inst (f_name p) \<and> list_ex inst (f_conflicts p) then [f_priority p]
      else [])"

definition accepted :: "sitter_package_t \<Rightarrow> bool" where
  "accepted p \<longleftrightarrow> 0 \<le> f_priority p \<and> f_priority p \<le> 100"

lemma check_conflicts_ready:
  assumes "ready g" and "accepted pc"
  shows "\<exists>g' t. check_conflicts X dpkg json pc (g, s) = (Inr (), (g', t)) \<and> ready g'
    \<and> status dpkg (g_installed_packages g') = status dpkg (g_installed_packages g)
    \<and> priorities t = priorities s
      @ (if status dpkg (g_installed_packages g) (f_name pc)
            \<and> list_ex (status dpkg (g_installed_packages g)) (f_conflicts pc) then [f_priority pc] else [])"
proof -
  obtain g1 where 1: "is_package_installed X dpkg (f_name pc) (g, s)
      = (Inr (status dpkg (g_installed_packages g) (f_name pc)), (g1, s))"
      "ready g1" "status dpkg (g_installed_packages g1) = status dpkg (g_installed_packages g)"
    using lookup_ready [OF assms(1)] by blast
  obtain g2 where 2: "installed_ones X dpkg (f_conflicts pc) (g1, s)
      = (Inr (filter (status dpkg (g_installed_packages g)) (f_conflicts pc)), (g2, s))"
      "ready g2" "status dpkg (g_installed_packages g2) = status dpkg (g_installed_packages g)"
    using installed_ones_ready [OF 1(2), of X dpkg "f_conflicts pc" s] 1(3) by auto
  have e: "fold set_add (filter P us) [] \<noteq> [] \<longleftrightarrow> list_ex P us" for P us
    by (auto simp: set_add_not_empty list_ex_iff filter_empty_conv)
  show ?thesis
  proof (cases "status dpkg (g_installed_packages g) (f_name pc)")
    case False
    then show ?thesis using 1 by (simp add: check_conflicts_def is_in_conflict_def)
  next
    case True
    then show ?thesis
      using 1 2 assms(2) e [of "status dpkg (g_installed_packages g)" "f_conflicts pc"]
      by (cases "list_ex (status dpkg (g_installed_packages g)) (f_conflicts pc)")
        (simp_all add: check_conflicts_def is_in_conflict_def andthen_apply on_snd_apply
          append_error_outcome accepted_def Let_def)
  qed
qed

lemma check_package_ready:
  assumes "ready g" and "accepted pc"
  shows "\<exists>g' t. check_package X dpkg json pc (g, s) = (Inr (), (g', t)) \<and> ready g'
    \<and> status dpkg (g_installed_packages g') = status dpkg (g_installed_packages g)
    \<and> priorities t = priorities s @ package_reports (status dpkg (g_installed_packages g)) pc"
proof -
  let ?st = "status dpkg (g_installed_packages g)"
  let ?i = "append_item (sub (sub json ''packages'') ''package'')"
  obtain p d where pre: "check_package X dpkg json pc (g, s) =
      (case f_installation pc of
       PACKAGE_INSTALLATION_REQUIRED \<Rightarrow>
         andthen (is_package_installed X dpkg (f_name pc)) (\<lambda>b.
         if \<not> b then
           on_snd (append_error p ''packages''
             (''The \"'' @ f_name pc @ ''\" package is required but not (yet) installed.''
              @ '' Please install this package at your earliest convenience.'') (f_priority pc))
         else check_conflicts X dpkg json pc)
     | PACKAGE_INSTALLATION_UNWANTED \<Rightarrow>
         andthen (is_package_installed X dpkg (f_name pc)) (\<lambda>b.
         if b then
           on_snd (append_error p ''packages''
             (''The \"'' @ f_name pc @ ''\" package is expected to NOT ever be installed.''
              @ '' Please remove this package at your earliest convenience.'') (f_priority pc))
         else check_conflicts X dpkg json pc)
     | PACKAGE_INSTALLATION_OPTIONAL \<Rightarrow> check_conflicts X dpkg json pc) (g, s\<lparr>doc := d\<rparr>)"
    by (simp add: check_package_def andthen_apply on_snd_apply assign_all_apply)
  let ?s = "s\<lparr>doc := d\<rparr>"
  obtain g1 where 1: "is_package_installed X dpkg (f_name pc) (g, ?s) = (Inr (?st (f_name pc)), (g1, ?s))"
      "ready g1" "status dpkg (g_installed_packages g1) = ?st"
    using lookup_ready [OF assms(1)] by blast
  obtain g2 t2 where 2: "check_conflicts X dpkg json pc (g1, ?s) = (Inr (), (g2, t2))" "ready g2"
    "status dpkg (g_installed_packages g2) = ?st"
    "priorities t2 = priorities s @ (if ?st (f_name pc) \<and> list_ex ?st (f_conflicts pc) then [f_priority pc] else [])"
    using check_conflicts_ready [OF 1(2) assms(2), of X dpkg json ?s] unfolding 1(3) by auto
  obtain g3 t3 where 3: "check_conflicts X dpkg json pc (g, ?s) = (Inr (), (g3, t3))" "ready g3"
    "status dpkg (g_installed_packages g3) = ?st"
    "priorities t3 = priorities s @ (if ?st (f_name pc) \<and> list_ex ?st (f_conflicts pc) then [f_priority pc] else [])"
    using check_conflicts_ready [OF assms, of X dpkg json ?s] by auto
  show ?thesis
    using 1 2 3 assms(2)
    by (cases "f_installation pc"; cases "?st (f_name pc)")
      (simp_all add: pre package_reports_def andthen_apply on_snd_apply append_error_outcome accepted_def)
qed

lemma check_packages_ready:
  assumes "\<forall>p \<in> set ps. accepted p"
  shows "ready g \<Longrightarrow> \<exists>g' t. for_each (check_package X dpkg json) ps (g, s) = (Inr (), (g', t)) \<and> ready g'
    \<and> status dpkg (g_installed_packages g') = status dpkg (g_installed_packages g)
    \<and> priorities t = priorities s
        @ concat (map (package_reports (status dpkg (g_installed_packages g))) ps)"
  using assms
proof (induction ps arbitrary: g s)
  case Nil
  then show ?case by simp
next
  case (Cons p ps)
  obtain g1 t1 where 1: "check_package X dpkg json p (g, s) = (Inr (), (g1, t1))" "ready g1"
    "status dpkg (g_installed_packages g1) = status dpkg (g_installed_packages g)"
    "priorities t1 = priorities s @ package_reports (status dpkg (g_installed_packages g)) p"
    using check_package_ready [OF Cons.prems(1)] Cons.prems(2) by (meson list.set_intros(1))
  have "\<forall>p \<in> set ps. accepted p" using Cons.prems(2) by simp
  from Cons.IH [OF 1(2) this, of t1] show ?case using 1 by auto
qed

section \<open>Whole runs\<close>

lemma load_each_optional:
  assumes "\<forall>c \<in> set cs. \<not> has_param c ''intallation''"
    and "\<forall>p \<in> set result. f_installation p = PACKAGE_INSTALLATION_OPTIONAL"
  shows "\<forall>p \<in> set (snd (load_each X cs result)). f_installation p = PACKAGE_INSTALLATION_OPTIONAL"
  using assms
proof (induction X cs result rule: load_each.induct)
  case (1 X result)
  then show ?case by simp
next
  case (2 X c cs result)
  have ins: "add_conflicts us p = Inr p' \<Longrightarrow> f_installation p' = f_installation p" for us p p'
    by (induction us p rule: add_conflicts.induct) (auto simp: add_conflict_def split: sum.splits if_splits)
  show ?case
  proof (cases "load_package X c result")
    case (Inl e)
    then show ?thesis using "2.prems" by simp
  next
    case (Inr r)
    then have "\<forall>p \<in> set r. f_installation p = PACKAGE_INSTALLATION_OPTIONAL"
      using "2.prems"
      by (auto simp: load_package_def set_description_def new_package_def Let_def
          split: if_splits sum.splits dest!: ins)
    then show ?thesis using "2.IH" [OF Inr] "2.prems" Inr by simp
  qed
qed

lemma packages_watch_ready:
  assumes "ready g" and "load_packages X glob (g, s) = (Inr (), (g0, s))" and "\<forall>p \<in> set (g_packages g0). accepted p"
  shows "\<exists>g' t. packages_watch X glob dpkg json (g, s) = (Inr (), (g', t))
    \<and> priorities t = priorities s
        @ concat (map (package_reports (status dpkg (g_installed_packages g))) (g_packages g0))"
proof -
  let ?s = "s\<lparr>doc := doc s @ [Member (sub json ''packages'')]\<rparr>"
  have g0: "ready g0" "g_installed_packages g0 = g_installed_packages g"
    using assms(1,2) by (auto simp: load_packages_def ready_def Let_def split: prod.splits)
  obtain g1 t1 where 1: "for_each (check_package X dpkg json) (g_packages g0) (g0, ?s) = (Inr (), (g1, t1))"
    "priorities t1 = priorities s
        @ concat (map (package_reports (status dpkg (g_installed_packages g))) (g_packages g0))"
    using check_packages_ready [OF assms(3) g0(1), of X dpkg json ?s] unfolding g0(2) by auto
  have "\<exists>g2 t2. save_cache X (g1, t1) = (Inr (), (g2, t2)) \<and> priorities t2 = priorities t1"
    by (auto simp: save_cache_def andthen_apply on_snd_apply write_all_apply get_cache_path_def Let_def)
  then show ?thesis using 1 assms(2) by (auto simp: packages_watch_def andthen_apply on_snd_apply)
qed

section \<open>Properties\<close>

text \<open>
  C17: the statuses that \<^verbatim>\<open>save_cache()\<close> writes are read back as they were, in the order of the
  map, for package names without an equal sign or a new line.
\<close>

theorem package_cache_roundtrip:
  assumes "ordered m" and "\<forall>(n, b) \<in> set m. plain_name n"
  shows "read_cache (cache_text m) [] = m"
proof (rule ordered_same_map)
  have sorted: "sorted_wrt (<) (map fst m)" using assms(1) by (simp add: ordered_def)
  then have d: "distinct (map fst m)" by (simp add: strict_sorted_iff)
  then have "distinct (map fst (rev m))" by (simp add: rev_map [symmetric])
  then have "map_of (rev m) = map_of m" using d map_of_inject_set [of "rev m" m] by simp
  then show "map_of (read_cache (cache_text m) []) = map_of m"
    unfolding read_cache_text [OF assms(2)]
    by (simp add: omap.look_insert_all)
  show "ordered (read_cache (cache_text m) [])"
    unfolding read_cache_text [OF assms(2)] by (rule omap.ok_insert_all) simp
qed (rule assms(1))

theorem package_cache_roundtrip_witness:
  "read_cache (cache_text [(''ntp'', True), (''ntpdate'', False)]) [] = [(''ntp'', True), (''ntpdate'', False)]"
proof (rule package_cache_roundtrip)
  show "ordered [(''ntp'', True), (''ntpdate'', False)]"
    by (simp add: ordered_def less_char_def)
  show "\<forall>(n, b) \<in> set [(''ntp'', True), (''ntpdate'', False)]. plain_name n"
    by (simp add: plain_name_def)
qed


definition conf0 :: conf where
  "conf0 = \<lparr>c_param = [''name'' \<mapsto> ''ntp'', ''installation'' \<mapsto> ''required'', ''conflicts'' \<mapsto> ''ntpdate'',
     ''priority'' \<mapsto> ''60''], c_sections = []\<rparr>"

lemma load_conf0:
  "load_packages plain_host (\<lambda>_. [conf0]) (g, s) = (Inr (), (g\<lparr>g_packages :=
     [\<lparr>f_name = ''ntp'', f_description = [], f_conflicts = [''ntpdate''], f_in_conflict = [],
       f_installation = PACKAGE_INSTALLATION_OPTIONAL, f_priority = 60\<rparr>]\<rparr>, s))"
proof -
  have "plain_number ''60'' = Some 60" by code_simp
  then show ?thesis
    by (simp add: load_packages_def load_package_def conf0_def has_param_def param_def Let_def
        set_description_def new_package_def plain_host_def plain_trim_def add_conflict_def set_add_def)
qed


text \<open>
  No file of definitions can make a package required or unwanted unless it has a
  parameter named \<open>intallation\<close>: with the documented \<open>installation\<close> parameter only, every
  loaded definition is optional, so a missing required package is not reported.
\<close>

theorem installation_parameter_is_ignored:
  assumes "\<forall>c \<in> set (glob (packages_path @ ''/*.conf'')). \<not> has_param c ''intallation''"
    and "packages_path = (if get_server_parameter ''sitter_packages_path'' s = []
           then ''/usr/share/sitter/packages'' else get_server_parameter ''sitter_packages_path'' s)"
    and "load_packages X glob (g, s) = (r, (g0, t))"
  shows "\<forall>p \<in> set (g_packages g0). f_installation p = PACKAGE_INSTALLATION_OPTIONAL
    \<and> (package_reports inst p = [] \<or> inst (f_name p))"
proof -
  have "g_packages g0 = snd (load_each X (glob (packages_path @ ''/*.conf'')) [])"
    using assms(3) unfolding load_packages_def assms(2) by (auto simp: Let_def split: prod.splits)
  then have "\<forall>p \<in> set (g_packages g0). f_installation p = PACKAGE_INSTALLATION_OPTIONAL"
    using load_each_optional [OF assms(1), of "[]"] by simp
  then show ?thesis by (auto simp: package_reports_def)
qed

theorem installation_parameter_is_ignored_witness:
  "list_all (\<lambda>p. f_installation p = PACKAGE_INSTALLATION_OPTIONAL)
     (g_packages (fst (snd (load_packages plain_host (\<lambda>_. [conf0])
        (new_packages, new_server (\<lambda>_. True) (\<lambda>_. []) 0)))))"
proof -
  obtain r g t where l: "load_packages plain_host (\<lambda>_. [conf0])
      (new_packages, new_server (\<lambda>_. True) (\<lambda>_. []) 0) = (r, (g, t))" by (metis prod.exhaust)
  have "\<forall>c \<in> set [conf0]. \<not> has_param c ''intallation''"
    by (simp add: has_param_def conf0_def)
  from installation_parameter_is_ignored [where glob = "\<lambda>_. [conf0]", OF this refl l]
  show ?thesis unfolding l list_all_iff by simp
qed

end
