(* ===== verification/Processes.thy ===== *)
theory Processes
  imports Plugin
begin

text \<open>
  The \<^verbatim>\<open>processes\<close> plugin (\<^verbatim>\<open>plugins/sitter_processes/processes.cpp\<close>): the processes that are
  expected to run on this computer.

  The two static variables of the source are the record \<open>processes\<close>. \<open>proc_env\<close> is what the
  system answers: \<^verbatim>\<open>systemctl\<close> (its output as it is, and its exit code), the configuration of
  the snapserver, and the maintenance file, of which \<^verbatim>\<open>file_contents::contents()\<close> gives
  what \<open>pe_maintenance\<close> holds. A running process is its name, its arguments and the numbers
  \<^verbatim>\<open>output_process()\<close> copies.
\<close>

section \<open>The definitions\<close>

record sitter_process =
  f_name :: string
  f_command :: string
  f_service :: string
  f_match :: string
  f_match_defined :: bool
  f_mandatory :: bool
  f_allow_duplicates :: bool
  f_service_is_enabled :: bool
  f_service_is_active :: bool
  f_service_is_backend :: bool

record processes =
  g_valid_backends :: "string list"
  g_processes :: "sitter_process list"

definition new_processes :: processes where
  "new_processes = \<lparr>g_valid_backends = [], g_processes = []\<rparr>"

record proc_env =
  pe_show :: "string \<Rightarrow> string"          \<comment> \<open>\<^verbatim>\<open>get_output()\<close> of \<^verbatim>\<open>systemctl show -p UnitFileState --value\<close>\<close>
  pe_is_active :: "string \<Rightarrow> int"        \<comment> \<open>exit code of \<^verbatim>\<open>systemctl is-active\<close>\<close>
  pe_server_conf :: conf
  pe_maintenance :: "string option"

definition is_service_enabled :: "proc_env \<Rightarrow> string \<Rightarrow> bool" where
  "is_service_enabled env service = (pe_show env service = ''enabled'')"

definition is_service_active :: "proc_env \<Rightarrow> string \<Rightarrow> bool" where
  "is_service_active env service = (pe_is_active env service = 0)"

definition is_in_maintenance :: "proc_env \<Rightarrow> bool" where
  "is_in_maintenance env =
     (case pe_maintenance env of
        None \<Rightarrow> False
      | Some contents \<Rightarrow>
          (case find_text ''##MAINTENANCE-START##'' contents of
             None \<Rightarrow> False
           | Some from \<Rightarrow>
               let s = dropWhile is_blank (drop 21 from) in
               if s \<noteq> [] \<and> hd s = CHR ''#'' then False
               else find_text ''Retry-After'' contents \<noteq> None))"

definition new_process :: "string \<Rightarrow> bool \<Rightarrow> bool \<Rightarrow> sitter_process" where
  "new_process name mandatory allow_duplicates =
     \<lparr>f_name = name, f_command = [], f_service = [], f_match = [], f_match_defined = False,
      f_mandatory = mandatory, f_allow_duplicates = allow_duplicates, f_service_is_enabled = True,
      f_service_is_active = True, f_service_is_backend = False\<rparr>"

definition set_mandatory :: "bool \<Rightarrow> sitter_process \<Rightarrow> sitter_process" where
  "set_mandatory b p = p\<lparr>f_mandatory := b\<rparr>"

definition set_command :: "string \<Rightarrow> sitter_process \<Rightarrow> sitter_process" where
  "set_command c p = p\<lparr>f_command := c\<rparr>"

definition set_service :: "proc_env \<Rightarrow> string \<Rightarrow> bool \<Rightarrow> sitter_process \<Rightarrow> sitter_process" where
  "set_service env service backend p =
     (let p = p\<lparr>f_service := service\<rparr> in
      if service = [] then
        p\<lparr>f_service_is_enabled := True, f_service_is_active := True, f_service_is_backend := False\<rparr>
      else
        let enabled = is_service_enabled env service in
        p\<lparr>f_service_is_enabled := enabled,
          f_service_is_active := (if enabled then is_service_active env service else False),
          f_service_is_backend := backend\<rparr>)"

text \<open>Assigning an invalid pattern to the regular expression raises.\<close>

definition set_match :: "ext \<Rightarrow> string \<Rightarrow> sitter_process \<Rightarrow> exn + sitter_process" where
  "set_match X pat p =
     (if x_regex X pat [] = None then Inl Regex_error
      else Inr (p\<lparr>f_match_defined := (pat \<noteq> []), f_match := pat\<rparr>))"

definition backends :: "ext \<Rightarrow> proc_env \<Rightarrow> string list \<Rightarrow> string list" where
  "backends X env valid =
     (if valid = []
      then map (x_trim X) (x_split X (param (pe_server_conf env) ''backends'') '','')
      else valid)"

definition is_process_expected_to_run :: "ext \<Rightarrow> proc_env \<Rightarrow> sitter_process \<Rightarrow> (processes, bool) act" where
  "is_process_expected_to_run X env p =
     (if f_service p = [] then ret True
      else if f_service_is_backend p then
        if param (pe_server_conf env) ''backend_status'' = ''disabled'' then ret False
        else
          andthen (modify (\<lambda>g. g\<lparr>g_valid_backends := backends X env (g_valid_backends g)\<rparr>)) (\<lambda>_.
          get (\<lambda>g. f_service p \<in> set (g_valid_backends g)))
      else ret (f_service_is_enabled p \<or> f_service_is_active p))"

definition matches :: "ext \<Rightarrow> sitter_process \<Rightarrow> string \<Rightarrow> string \<Rightarrow> bool" where
  "matches X p command cmdline =
     (if f_command p \<noteq> [] \<and> f_command p \<noteq> command then False
      else if f_match_defined p \<and> x_regex X (f_match p) cmdline \<noteq> Some True then False
      else if f_command p = [] \<and> \<not> f_match_defined p \<and> f_name p \<noteq> command then False
      else True)"

section \<open>Loading them\<close>

text \<open>
  \<^verbatim>\<open>std::find_if\<close> with the test that raises: the definitions with the one of that name made
  mandatory, \<open>None\<close> when there is none of that name.
\<close>

fun merge_duplicate :: "string \<Rightarrow> bool \<Rightarrow> bool \<Rightarrow> sitter_process list \<Rightarrow> exn + sitter_process list option" where
  "merge_duplicate name allow mandatory [] = Inr None"
| "merge_duplicate name allow mandatory (p # ps) =
     (if name = f_name p then
        (if \<not> allow \<or> \<not> f_allow_duplicates p
         then Inl (Invalid_name (''found process \"'' @ name @ ''\" twice and duplicates are not allowed.''))
         else Inr (Some ((if mandatory then set_mandatory True p else p) # ps)))
      else map_sum id (map_option (\<lambda>qs. p # qs)) (merge_duplicate name allow mandatory ps))"

definition build_process :: "ext \<Rightarrow> proc_env \<Rightarrow> conf \<Rightarrow> sitter_process \<Rightarrow> exn + sitter_process" where
  "build_process X env process wp =
     (let wp = (if has_param process ''command'' then set_command (param process ''command'') wp else wp);
          wp = (if has_param process ''service''
                then let backend = (if has_param process ''backend''
                                    then x_is_true X (param process ''backend'') else False)
                     in set_service env (param process ''service'') backend wp
                else wp)
      in if has_param process ''match'' then set_match X (param process ''match'') wp else Inr wp)"

definition is_mandatory :: "ext \<Rightarrow> conf \<Rightarrow> bool" where
  "is_mandatory X process = (if has_param process ''mandatory'' then x_is_true X (param process ''mandatory'') else False)"

definition load_process :: "ext \<Rightarrow> proc_env \<Rightarrow> conf \<Rightarrow> sitter_process list \<Rightarrow> exn + sitter_process list" where
  "load_process X env process ps =
     (if \<not> has_param process ''name'' then Inr ps
      else
        let name = param process ''name'';
            mandatory = is_mandatory X process;
            allow_duplicates = (if has_param process ''allow_duplicates''
                                then x_is_true X (param process ''allow_duplicates'') else False)
        in case merge_duplicate name allow_duplicates mandatory ps of
             Inl e \<Rightarrow> Inl e
           | Inr (Some ps') \<Rightarrow> Inr ps'
           | Inr None \<Rightarrow>
               (case build_process X env process (new_process name mandatory allow_duplicates) of
                  Inl e \<Rightarrow> Inl e
                | Inr wp \<Rightarrow> Inr (ps @ [wp])))"

fun load_each :: "ext \<Rightarrow> proc_env \<Rightarrow> conf list \<Rightarrow> sitter_process list \<Rightarrow> exn option \<times> sitter_process list" where
  "load_each X env [] ps = (None, ps)"
| "load_each X env (c # cs) ps =
     (case load_process X env c ps of Inl e \<Rightarrow> (Some e, ps) | Inr ps' \<Rightarrow> load_each X env cs ps')"

definition load_processes ::
    "ext \<Rightarrow> proc_env \<Rightarrow> (string \<Rightarrow> conf list) \<Rightarrow> string \<Rightarrow> (processes, unit) act" where
  "load_processes X env glob processes_path = (\<lambda>g.
     let path = (if processes_path = [] then ''/usr/share/sitter/processes'' else processes_path);
         (e, ps) = load_each X env (glob (path @ ''/*.conf'')) []
     in (case e of None \<Rightarrow> Inr () | Some e \<Rightarrow> Inl e, g\<lparr>g_processes := ps\<rparr>))"

section \<open>The run\<close>

type_synonym running = "string \<times> string list \<times> process_info"

definition command_line :: "running \<Rightarrow> string \<times> string" where
  "command_line r =
     (case r of (name, args, _) \<Rightarrow>
        (after_last (CHR ''/'') name,
         fold (\<lambda>a line. if a = [] then line else line @ '' '' @ a) args name))"

text \<open>The first definition that matches, and the others.\<close>

fun take_match :: "(sitter_process \<Rightarrow> bool) \<Rightarrow> sitter_process list \<Rightarrow> (sitter_process \<times> sitter_process list) option" where
  "take_match P [] = None"
| "take_match P (p # ps) =
     (if P p then Some (p, ps) else map_option (\<lambda>(q, qs). (q, p # qs)) (take_match P ps))"

definition found_process ::
    "ext \<Rightarrow> proc_env \<Rightarrow> jref \<Rightarrow> process_info \<Rightarrow> sitter_process \<Rightarrow> (processes \<times> server, unit) act" where
  "found_process X env e info p =
     andthen (on_snd (output_process ''processes'' e (Some info) (f_name p) 35)) (\<lambda>_.
     if f_service_is_backend p then
       andthen (on_fst (is_process_expected_to_run X env p)) (\<lambda>expected.
       if \<not> expected then
         on_snd (append_error e ''processes'' (''found process \"'' @ f_name p @ ''\" running when disabled.'') 35)
       else ret ())
     else ret ())"

fun look_for :: "ext \<Rightarrow> proc_env \<Rightarrow> jref \<Rightarrow> running list \<Rightarrow> (processes \<times> server, unit) act" where
  "look_for X env e [] = ret ()"
| "look_for X env e (r # rs) =
     andthen (get (\<lambda>(g, s). g_processes g)) (\<lambda>ps.
     if ps = [] then ret ()
     else
       let (command, cmdline) = command_line r in
       case take_match (\<lambda>p. matches X p command cmdline) ps of
         None \<Rightarrow> look_for X env e rs
       | Some (p, others) \<Rightarrow>
           andthen (found_process X env e (snd (snd r)) p) (\<lambda>_.
           andthen (on_fst (modify (\<lambda>g. g\<lparr>g_processes := others\<rparr>))) (\<lambda>_.
           look_for X env e rs)))"

definition missing_process :: "ext \<Rightarrow> proc_env \<Rightarrow> jref \<Rightarrow> sitter_process \<Rightarrow> (processes \<times> server, unit) act" where
  "missing_process X env json p =
     andthen (on_snd (append_item (sub json ''process''))) (\<lambda>proc.
     andthen (on_snd (assign (sub proc ''name'') (JStr (f_name p)))) (\<lambda>_.
     andthen (on_fst (is_process_expected_to_run X env p)) (\<lambda>expected.
     if expected then
       let message = (if f_mandatory p then ''can't find mandatory process \"''
                      else ''can't find expected process \"'') @ f_name p @ ''\" in the list of processes.'';
           priority = (if f_mandatory p then 95 else 60);
           priority = (if f_service_is_backend p \<and> is_in_maintenance env then 5 else priority)
       in on_snd (append_error proc ''processes'' message priority)
     else on_snd (assign (sub proc ''resident'') (JStr ''no'')))))"

definition processes_watch ::
    "ext \<Rightarrow> proc_env \<Rightarrow> (string \<Rightarrow> conf list) \<Rightarrow> running list \<Rightarrow> jref \<Rightarrow> (processes \<times> server, unit) act" where
  "processes_watch X env glob list json =
     andthen (get (\<lambda>(g, s). get_server_parameter ''sitter_processes_path'' s)) (\<lambda>path.
     andthen (on_fst (load_processes X env glob path)) (\<lambda>_.
     let e = sub json ''processes'' in
     andthen (on_snd (member e)) (\<lambda>_.
     andthen (look_for X env e list) (\<lambda>_.
     andthen (get (\<lambda>(g, s). g_processes g)) (\<lambda>missing.
     for_each (missing_process X env json) missing)))))"

section \<open>The contract of a plugin\<close>

context server_relation
begin

lemma keeps_found_process: "obeys (\<lambda>b. second (R b)) (found_process X env e info p)"
  unfolding found_process_def
  by (intro rules obeys_on_fst obeys_on_snd R_output_process)

lemma keeps_look_for: "obeys (\<lambda>b. second (R b)) (look_for X env e rs)"
proof (induction rs)
  case Nil
  show ?case unfolding look_for.simps by (intro rules)
next
  case (Cons r rs)
  show ?case
    unfolding look_for.simps Let_def
    by (intro rules)
      (auto split: option.split prod.split
        intro!: rules obeys_on_fst keeps_found_process Cons)
qed

lemma keeps_missing_process: "obeys (\<lambda>b. second (R b)) (missing_process X env json p)"
  unfolding missing_process_def Let_def
  by (intro rules obeys_on_fst obeys_on_snd) simp_all

lemma keeps_processes_watch: "obeys (\<lambda>b. second (R b)) (processes_watch X env glob list json)"
  unfolding processes_watch_def Let_def
  by (intro rules obeys_on_fst obeys_on_snd keeps_look_for keeps_missing_process)

end

interpretation processes: watch_plugin "processes_watch X env glob list json" snd for X env glob list json
  using obeysD [OF frame.keeps_processes_watch] by unfold_locales (simp add: second_def)

section \<open>Duplicate definitions\<close>

lemma merge_duplicate_none:
  "merge_duplicate n a m ps = Inr None \<longleftrightarrow> n \<notin> f_name ` set ps"
proof (induction n a m ps rule: merge_duplicate.induct)
  case (2 n a m p ps)
  then show ?case by (cases "merge_duplicate n a m ps") auto
qed simp

text \<open>A duplicate only changes whether the definition of its name is mandatory.\<close>

lemma merge_duplicate_some:
  "merge_duplicate n a m ps = Inr (Some qs) \<Longrightarrow> distinct (map f_name ps) \<Longrightarrow>
     n \<in> f_name ` set ps
     \<and> qs = map (\<lambda>p. p\<lparr>f_mandatory := f_mandatory p \<or> m \<and> f_name p = n\<rparr>) ps"
proof (induction n a m ps arbitrary: qs rule: merge_duplicate.induct)
  case (1 n a m)
  then show ?case by simp
next
  case (2 n a m p ps)
  show ?case
  proof (cases "n = f_name p")
    case True
    then have "n \<notin> f_name ` set ps" using "2.prems"(2) by auto
    have "p\<lparr>f_mandatory := f_mandatory p \<or> m \<and> f_name p = n\<rparr> = p" if "p \<in> set ps" for p
    proof -
      have "f_name p \<noteq> n" using that \<open>n \<notin> f_name ` set ps\<close> by auto
      then show ?thesis by (cases p) simp
    qed
    then have "map (\<lambda>p. p\<lparr>f_mandatory := f_mandatory p \<or> m \<and> f_name p = n\<rparr>) ps = ps"
      by (rule map_idI)
    then show ?thesis using True "2.prems" by (auto simp: set_mandatory_def split: if_splits)
  next
    case False
    obtain qs' where qs': "merge_duplicate n a m ps = Inr (Some qs')" "qs = p # qs'"
      using False "2.prems"(1) by (cases "merge_duplicate n a m ps") auto
    then show ?thesis using "2.IH" [OF False qs'(1)] False "2.prems"(2) by auto
  qed
qed

definition names_of :: "conf list \<Rightarrow> string set" where
  "names_of cs = {param c ''name'' | c. c \<in> set cs \<and> has_param c ''name''}"

definition mandatory_in :: "ext \<Rightarrow> conf list \<Rightarrow> string \<Rightarrow> bool" where
  "mandatory_in X cs n \<longleftrightarrow> list_ex (\<lambda>c. has_param c ''name'' \<and> param c ''name'' = n \<and> is_mandatory X c) cs"

text \<open>What loading guarantees of the definitions, after the files \<open>cs\<close>.\<close>

definition loaded_from :: "ext \<Rightarrow> proc_env \<Rightarrow> conf list \<Rightarrow> sitter_process list \<Rightarrow> bool" where
  "loaded_from X env cs ps \<longleftrightarrow>
     distinct (map f_name ps) \<and> f_name ` set ps = names_of cs
     \<and> (\<forall>p \<in> set ps. f_mandatory p = mandatory_in X cs (f_name p)
          \<and> (f_service p \<noteq> [] \<longrightarrow> f_service_is_enabled p = is_service_enabled env (f_service p)
               \<and> f_service_is_active p
                   = (is_service_enabled env (f_service p) \<and> is_service_active env (f_service p))))"

lemma build_process_shape:
  assumes "build_process X env c (new_process n m a) = Inr wp"
  shows "f_name wp = n \<and> f_mandatory wp = m
    \<and> (f_service wp \<noteq> [] \<longrightarrow> f_service_is_enabled wp = is_service_enabled env (f_service wp)
         \<and> f_service_is_active wp
             = (is_service_enabled env (f_service wp) \<and> is_service_active env (f_service wp)))"
  using assms
  by (auto simp: build_process_def new_process_def set_command_def set_service_def set_match_def Let_def
      split: if_splits)

lemma load_process_step:
  assumes "load_process X env c ps = Inr ps'" and "loaded_from X env cs ps"
  shows "loaded_from X env (cs @ [c]) ps'"
proof (cases "has_param c ''name''")
  case False
  then show ?thesis using assms by (auto simp: load_process_def loaded_from_def names_of_def mandatory_in_def)
next
  case True
  let ?n = "param c ''name''"
  let ?a = "if has_param c ''allow_duplicates'' then x_is_true X (param c ''allow_duplicates'') else False"
  have names: "names_of (cs @ [c]) = insert ?n (names_of cs)" using True by (auto simp: names_of_def)
  have mand: "mandatory_in X (cs @ [c]) k \<longleftrightarrow> mandatory_in X cs k \<or> k = ?n \<and> is_mandatory X c" for k
    using True by (auto simp: mandatory_in_def)
  have d: "distinct (map f_name ps)" "f_name ` set ps = names_of cs" using assms(2) by (auto simp: loaded_from_def)
  show ?thesis
  proof (cases "merge_duplicate ?n ?a (is_mandatory X c) ps")
    case (Inl e)
    then show ?thesis using assms(1) True by (simp add: load_process_def)
  next
    case (Inr r)
    show ?thesis
    proof (cases r)
      case None
      obtain wp where wp: "build_process X env c (new_process ?n (is_mandatory X c) ?a) = Inr wp"
          "ps' = ps @ [wp]"
        using assms(1) True Inr None by (auto simp: load_process_def split: sum.splits)
      have new: "?n \<notin> f_name ` set ps" using Inr None by (simp add: merge_duplicate_none)
      then have neq: "\<forall>p \<in> set ps. f_name p \<noteq> ?n" by (metis imageI)
      from new have "\<not> mandatory_in X cs ?n"
        unfolding d(2) by (auto simp: names_of_def mandatory_in_def list_ex_iff)
      then show ?thesis
        using assms(2) build_process_shape [OF wp(1)] new neq d
        unfolding loaded_from_def wp(2) names mand by auto
    next
      case (Some qs)
      have "ps' = qs" using assms(1) True Inr Some by (simp add: load_process_def)
      then show ?thesis
        using merge_duplicate_some [OF Inr [unfolded Some] d(1)] assms(2)
        unfolding loaded_from_def names mand by (auto simp: comp_def image_image)
    qed
  qed
qed

lemma load_each_step:
  "load_each X env cs ps = (None, ps') \<Longrightarrow> loaded_from X env cs0 ps \<Longrightarrow> loaded_from X env (cs0 @ cs) ps'"
proof (induction X env cs ps arbitrary: cs0 rule: load_each.induct)
  case (2 X env c cs ps)
  obtain ps1 where 1: "load_process X env c ps = Inr ps1" "load_each X env cs ps1 = (None, ps')"
    using "2.prems"(1) by (auto split: sum.splits)
  from "2.IH" [OF 1 load_process_step [OF 1(1) "2.prems"(2)]] show ?case by simp
qed simp

lemma loaded_from_nothing: "loaded_from X env [] []"
  by (simp add: loaded_from_def names_of_def)

definition process_files :: "(string \<Rightarrow> conf list) \<Rightarrow> string \<Rightarrow> conf list" where
  "process_files glob path = glob ((if path = [] then ''/usr/share/sitter/processes'' else path) @ ''/*.conf'')"

lemma load_processes_loaded:
  assumes "load_processes X env glob path g = (Inr (), g0)"
  shows "loaded_from X env (process_files glob path) (g_processes g0)"
    and "g_valid_backends g0 = g_valid_backends g"
  using assms load_each_step [OF _ loaded_from_nothing, of X env "process_files glob path"]
  by (auto simp: load_processes_def process_files_def Let_def split: prod.splits option.splits)

section \<open>Expected and missing processes\<close>

definition expected :: "ext \<Rightarrow> proc_env \<Rightarrow> string list \<Rightarrow> sitter_process \<Rightarrow> bool" where
  "expected X env valid p =
     (if f_service p = [] then True
      else if f_service_is_backend p
      then param (pe_server_conf env) ''backend_status'' \<noteq> ''disabled''
           \<and> f_service p \<in> set (backends X env valid)
      else f_service_is_enabled p \<or> f_service_is_active p)"

lemma backends_again [simp]: "backends X env (backends X env v) = backends X env v"
  by (simp add: backends_def)

lemma expected_result:
  "\<exists>g'. is_process_expected_to_run X env p g = (Inr (expected X env (g_valid_backends g) p), g')
    \<and> g_processes g' = g_processes g
    \<and> backends X env (g_valid_backends g') = backends X env (g_valid_backends g)"
  by (simp add: is_process_expected_to_run_def expected_def)

lemma expected_backends:
  "backends X env v = backends X env w \<Longrightarrow> expected X env v = expected X env w"
  by (simp add: expected_def fun_eq_iff)

definition running_matches :: "ext \<Rightarrow> running \<Rightarrow> sitter_process \<Rightarrow> bool" where
  "running_matches X r p = matches X p (fst (command_line r)) (snd (command_line r))"

definition drop_match :: "ext \<Rightarrow> sitter_process list \<Rightarrow> running \<Rightarrow> sitter_process list" where
  "drop_match X ps r = (case take_match (running_matches X r) ps of None \<Rightarrow> ps | Some (p, qs) \<Rightarrow> qs)"

lemma take_match_none: "take_match P ps = None \<longleftrightarrow> (\<forall>p \<in> set ps. \<not> P p)"
  by (induction ps) auto

lemma take_match_only:
  "take_match P ps = Some (p, qs) \<Longrightarrow> length (filter P ps) \<le> 1 \<Longrightarrow> qs = filter (\<lambda>q. \<not> P q) ps \<and> P p"
proof (induction ps arbitrary: qs)
  case (Cons q ps)
  show ?case
  proof (cases "P q")
    case True
    then have "filter P ps = []" using Cons.prems(2) by simp
    then have "filter (\<lambda>q. \<not> P q) ps = ps" by (auto simp: filter_empty_conv intro!: filter_True)
    then show ?thesis using True Cons.prems(1) by auto
  next
    case False
    then show ?thesis using Cons by (auto split: option.splits)
  qed
qed simp

text \<open>No running process matches two of the definitions.\<close>

definition exclusive :: "ext \<Rightarrow> running list \<Rightarrow> sitter_process list \<Rightarrow> bool" where
  "exclusive X rs ps \<longleftrightarrow> list_all (\<lambda>r. length (filter (running_matches X r) ps) \<le> 1) rs"

lemma drop_match_empty [simp]: "drop_match X [] r = []"
  by (simp add: drop_match_def)

lemma leftover_empty: "fold (\<lambda>r ps. drop_match X ps r) rs [] = []"
  by (induction rs) simp_all

lemma drop_match_exclusive:
  assumes "length (filter (running_matches X r) ps) \<le> 1"
  shows "drop_match X ps r = filter (\<lambda>p. \<not> running_matches X r p) ps"
proof (cases "take_match (running_matches X r) ps")
  case None
  then have "filter (\<lambda>p. \<not> running_matches X r p) ps = ps"
    by (auto simp: take_match_none intro!: filter_True)
  then show ?thesis using None by (simp add: drop_match_def)
next
  case (Some e)
  then show ?thesis using take_match_only [of "running_matches X r" ps] assms
    by (cases e) (auto simp: drop_match_def)
qed

lemma exclusive_filter: "exclusive X rs ps \<Longrightarrow> exclusive X rs (filter P ps)"
proof -
  have "length (filter Q (filter P ps)) \<le> length (filter Q ps)" for Q
    by (induction ps) auto
  then show "exclusive X rs ps \<Longrightarrow> ?thesis"
    by (auto simp: exclusive_def list_all_iff intro: order_trans)
qed

lemma leftover_exclusive:
  "exclusive X rs ps \<Longrightarrow> fold (\<lambda>r ps. drop_match X ps r) rs ps
     = filter (\<lambda>p. \<not> list_ex (\<lambda>r. running_matches X r p) rs) ps"
proof (induction rs arbitrary: ps)
  case (Cons r rs)
  have 1: "length (filter (running_matches X r) ps) \<le> 1" "exclusive X rs ps"
    using Cons.prems by (simp_all add: exclusive_def)
  show ?case
    using Cons.IH [OF exclusive_filter [OF 1(2)], of "\<lambda>p. \<not> running_matches X r p"]
    by (simp add: drop_match_exclusive [OF 1(1)] conj_commute)
qed simp

section \<open>What is reported\<close>

definition no_backend :: "sitter_process list \<Rightarrow> bool" where
  "no_backend ps \<longleftrightarrow> list_all (\<lambda>p. \<not> f_service_is_backend p) ps"

lemma output_process_found:
  "\<exists>d. output_process pl e (Some info) n prio s = (Inr True, s\<lparr>doc := d\<rparr>)"
  by (rule exI) (simp add: output_process_def andthen_apply assign_all_apply)

lemma found_process_result:
  "\<exists>g' t fr. found_process X env e info p (g, s) = (Inr (), (g', t))
    \<and> g_processes g' = g_processes g
    \<and> backends X env (g_valid_backends g') = backends X env (g_valid_backends g)
    \<and> priorities t = priorities s @ fr \<and> set fr \<subseteq> {35} \<and> (\<not> f_service_is_backend p \<longrightarrow> fr = [])"
proof -
  obtain d where d: "output_process ''processes'' e (Some info) (f_name p) 35 s = (Inr True, s\<lparr>doc := d\<rparr>)"
    using output_process_found by blast
  obtain g' where g': "is_process_expected_to_run X env p g = (Inr (expected X env (g_valid_backends g) p), g')"
      "g_processes g' = g_processes g"
      "backends X env (g_valid_backends g') = backends X env (g_valid_backends g)"
    using expected_result by blast
  show ?thesis
    using d g'
    by (cases "f_service_is_backend p"; cases "expected X env (g_valid_backends g) p")
      (auto simp: found_process_def andthen_apply on_fst_apply on_snd_apply append_error_outcome)
qed

lemma take_match_backend:
  "take_match P ps = Some (p, qs) \<Longrightarrow> no_backend ps \<Longrightarrow> \<not> f_service_is_backend p \<and> no_backend qs"
  by (induction ps arbitrary: qs) (auto simp: no_backend_def split: if_splits)

lemma look_for_result:
  "\<exists>g' t fr. look_for X env e rs (g, s) = (Inr (), (g', t))
    \<and> g_processes g' = fold (\<lambda>r ps. drop_match X ps r) rs (g_processes g)
    \<and> backends X env (g_valid_backends g') = backends X env (g_valid_backends g)
    \<and> priorities t = priorities s @ fr \<and> set fr \<subseteq> {35}
    \<and> (no_backend (g_processes g) \<longrightarrow> fr = [])"
proof (induction rs arbitrary: g s)
  case Nil
  then show ?case by simp
next
  case (Cons r rs)
  let ?tm = "take_match (running_matches X r) (g_processes g)"
  have m: "(\<lambda>p. matches X p command cmdline) = running_matches X r" if "command_line r = (command, cmdline)"
    for command cmdline using that by (simp add: running_matches_def fun_eq_iff)
  consider "g_processes g = []" | "g_processes g \<noteq> []" "?tm = None"
    | p qs where "g_processes g \<noteq> []" "?tm = Some (p, qs)"
    by (cases ?tm) auto
  then show ?case
  proof cases
    case 1
    then have "fold (\<lambda>r ps. drop_match X ps r) (r # rs) (g_processes g) = g_processes g"
      by (simp only: leftover_empty)
    with 1 show ?thesis by (intro exI [of _ g] exI [of _ s] exI [of _ "[]"]) (simp del: fold_simps)
  next
    case 2
    then have "look_for X env e (r # rs) (g, s) = look_for X env e rs (g, s)"
      using m by (cases "command_line r") simp
    then show ?thesis using Cons [of g s] 2 by (simp add: drop_match_def)
  next
    case 3
    obtain g1 t1 fr1 where 1: "found_process X env e (snd (snd r)) p (g, s) = (Inr (), (g1, t1))"
      "backends X env (g_valid_backends g1) = backends X env (g_valid_backends g)"
      "priorities t1 = priorities s @ fr1" "set fr1 \<subseteq> {35}" "\<not> f_service_is_backend p \<longrightarrow> fr1 = []"
      using found_process_result by blast
    have step: "look_for X env e (r # rs) (g, s) = look_for X env e rs (g1\<lparr>g_processes := qs\<rparr>, t1)"
      using 3 m 1(1) by (cases "command_line r") (simp add: andthen_apply on_fst_apply)
    obtain g' t fr where 2: "look_for X env e rs (g1\<lparr>g_processes := qs\<rparr>, t1) = (Inr (), (g', t))"
      "g_processes g' = fold (\<lambda>r ps. drop_match X ps r) rs qs"
      "backends X env (g_valid_backends g') = backends X env (g_valid_backends g1)"
      "priorities t = priorities t1 @ fr" "set fr \<subseteq> {35}" "no_backend qs \<longrightarrow> fr = []"
      using Cons [of "g1\<lparr>g_processes := qs\<rparr>" t1] by auto
    have "drop_match X (g_processes g) r = qs" using 3 by (simp add: drop_match_def)
    then show ?thesis
      using step 1 2 take_match_backend [OF 3(2)]
      by (intro exI [of _ g'] exI [of _ t] exI [of _ "fr1 @ fr"]) simp
  qed
qed

definition missing_priority :: "proc_env \<Rightarrow> sitter_process \<Rightarrow> int" where
  "missing_priority env p =
     (if f_service_is_backend p \<and> is_in_maintenance env then 5
      else if f_mandatory p then 95 else 60)"

lemma missing_process_result:
  "\<exists>g' t. missing_process X env json p (g, s) = (Inr (), (g', t))
    \<and> backends X env (g_valid_backends g') = backends X env (g_valid_backends g)
    \<and> priorities t = priorities s
        @ (if expected X env (g_valid_backends g) p then [missing_priority env p] else [])"
proof -
  obtain g' where g': "is_process_expected_to_run X env p g = (Inr (expected X env (g_valid_backends g) p), g')"
      "backends X env (g_valid_backends g') = backends X env (g_valid_backends g)"
    using expected_result by blast
  have r: "\<not> missing_priority env p < 0" "\<not> 100 < missing_priority env p"
    by (simp_all add: missing_priority_def)
  have prio: "(if f_service_is_backend p \<and> is_in_maintenance env then 5
      else if f_mandatory p then 95 else 60) = missing_priority env p"
    by (simp add: missing_priority_def)
  show ?thesis
    using g' r
    by (simp add: missing_process_def Let_def andthen_apply on_fst_apply on_snd_apply prio
        append_error_outcome)
qed

lemma missing_processes_result:
  "\<exists>g' t. for_each (missing_process X env json) ps (g, s) = (Inr (), (g', t))
    \<and> priorities t = priorities s
        @ map (missing_priority env) (filter (expected X env (g_valid_backends g)) ps)"
proof (induction ps arbitrary: g s)
  case Nil
  then show ?case by simp
next
  case (Cons p ps)
  obtain g1 t1 where 1: "missing_process X env json p (g, s) = (Inr (), (g1, t1))"
    "backends X env (g_valid_backends g1) = backends X env (g_valid_backends g)"
    "priorities t1 = priorities s
        @ (if expected X env (g_valid_backends g) p then [missing_priority env p] else [])"
    using missing_process_result by blast
  have "expected X env (g_valid_backends g1) = expected X env (g_valid_backends g)"
    by (rule expected_backends [OF 1(2)])
  then show ?case using Cons [of g1 t1] 1 by auto
qed

section \<open>Properties\<close>

text \<open>
  C15: when the files of definitions load, there is exactly one definition for each name they
  give, and it is mandatory exactly when one of the files of that name says so.
\<close>

theorem process_definitions_merge:
  assumes "load_processes X env glob path g = (Inr (), g0)"
  shows "distinct (map f_name (g_processes g0))
    \<and> f_name ` set (g_processes g0) = names_of (process_files glob path)
    \<and> (\<forall>p \<in> set (g_processes g0). f_mandatory p = mandatory_in X (process_files glob path) (f_name p))"
  using load_processes_loaded(1) [OF assms] by (auto simp: loaded_from_def)

definition conf1 :: "string \<Rightarrow> conf" where
  "conf1 m = \<lparr>c_param = [''name'' \<mapsto> ''mysqld'', ''mandatory'' \<mapsto> m, ''allow_duplicates'' \<mapsto> ''true'',
     ''service'' \<mapsto> ''mysql''], c_sections = []\<rparr>"

definition env1 :: proc_env where
  "env1 = \<lparr>pe_show = \<lambda>_. ''enabled'' @ [CHR 0x0A], pe_is_active = \<lambda>_. 0,
     pe_server_conf = \<lparr>c_param = Map.empty, c_sections = []\<rparr>, pe_maintenance = None\<rparr>"

lemma load_conf1:
  "load_processes plain_host env1 (\<lambda>_. [conf1 ''false'', conf1 ''true'']) [] g
     = (Inr (), g\<lparr>g_processes := [\<lparr>f_name = ''mysqld'', f_command = [], f_service = ''mysql'',
          f_match = [], f_match_defined = False, f_mandatory = True, f_allow_duplicates = True,
          f_service_is_enabled = False, f_service_is_active = False, f_service_is_backend = False\<rparr>]\<rparr>)"
  by (simp add: load_processes_def load_process_def build_process_def conf1_def env1_def has_param_def
      param_def is_mandatory_def new_process_def set_service_def set_mandatory_def is_service_enabled_def
      plain_host_def Let_def)

theorem process_definitions_merge_witness:
  "\<exists>g0. load_processes plain_host env1 (\<lambda>_. [conf1 ''false'', conf1 ''true'']) [] new_processes = (Inr (), g0)
     \<and> distinct (map f_name (g_processes g0)) \<and> map f_mandatory (g_processes g0) = [True]"
  using process_definitions_merge [OF load_conf1 [of new_processes]] load_conf1 [of new_processes] by simp


definition conf2 :: conf where
  "conf2 = \<lparr>c_param = [''name'' \<mapsto> ''ntpd''], c_sections = []\<rparr>"

lemma load_conf2:
  "load_processes plain_host env1 (\<lambda>_. [conf2]) [] g = (Inr (), g\<lparr>g_processes := [new_process ''ntpd'' False False]\<rparr>)"
  by (simp add: load_processes_def load_process_def build_process_def conf2_def has_param_def
      param_def is_mandatory_def Let_def)


text \<open>
  C40: \<^verbatim>\<open>is_service_enabled()\<close> compares the whole output of \<^verbatim>\<open>systemctl\<close>, line end included. With
  an output that ends with a new line, no service that is not a backend is ever expected
  to run, so its missing process is never reported, mandatory or not.
\<close>

theorem services_are_never_expected:
  assumes "load_processes X env glob path g = (Inr (), g0)"
    and "\<forall>service. \<exists>word. pe_show env service = word @ [CHR 0x0A]"
    and "p \<in> set (g_processes g0)" and "f_service p \<noteq> []" and "\<not> f_service_is_backend p"
  shows "\<not> expected X env valid p
    \<and> fst (is_process_expected_to_run X env p g0) = Inr False"
proof -
  obtain word where "pe_show env (f_service p) = word @ [CHR 0x0A]" using assms(2) by blast
  moreover have "word @ [CHR 0x0A] \<noteq> ''enabled''"
  proof
    assume "word @ [CHR 0x0A] = ''enabled''"
    then have "last (word @ [CHR 0x0A]) = last ''enabled''" by (simp only:)
    then show False by simp
  qed
  ultimately have "\<not> is_service_enabled env (f_service p)" by (simp add: is_service_enabled_def)
  then have "\<not> f_service_is_enabled p \<and> \<not> f_service_is_active p"
    using load_processes_loaded(1) [OF assms(1)] assms(3,4) by (auto simp: loaded_from_def)
  then show ?thesis using assms(4,5) by (simp add: expected_def is_process_expected_to_run_def)
qed

theorem services_are_never_expected_witness:
  "fst (is_process_expected_to_run plain_host env1
     (hd (g_processes (snd (load_processes plain_host env1 (\<lambda>_. [conf1 ''false'', conf1 ''true'']) [] new_processes))))
     (snd (load_processes plain_host env1 (\<lambda>_. [conf1 ''false'', conf1 ''true'']) [] new_processes))) = Inr False"
proof -
  have "\<forall>service. \<exists>word. pe_show env1 service = word @ [CHR 0x0A]"
    unfolding env1_def by (intro allI exI [of _ "''enabled''"]) simp
  from services_are_never_expected [OF load_conf1 [of new_processes] this, of _ "[]"]
  show ?thesis unfolding load_conf1 by simp
qed

end
