(* ===== verification/Scripts.thy ===== *)
theory Scripts
  imports Plugin
begin

text \<open>
  The \<^verbatim>\<open>scripts\<close> plugin (\<^verbatim>\<open>plugins/sitter_scripts/scripts.cpp\<close>): it runs each file of a
  directory with the script starter and reports what fails or writes to its error output.

  The record \<open>scripts\<close> is the object of the plugin. \<open>P starter file\<close> is what running a script
  gives; \<open>clock i\<close> is \<^verbatim>\<open>time(nullptr)\<close> when the i-th file is reached; \<open>glob\<close> lists a directory.
  The plugin and the server are the pair the operations work on.
\<close>

section \<open>The object\<close>

record scripts =
  f_scripts :: jref
  f_script_starter :: string
  f_log_path :: string
  f_log_subfolder :: string
  f_scripts_output_log :: string
  f_scripts_error_log :: string
  f_script_filename :: string
  f_start_date :: int

definition parameter_or :: "string \<Rightarrow> string \<Rightarrow> server \<Rightarrow> string" where
  "parameter_or name default_value s =
     (let value = get_server_parameter name s in if value = [] then default_value else value)"

text \<open>The object and the \<^verbatim>\<open>setenv()\<close> calls, in order.\<close>

definition bootstrap :: "server \<Rightarrow> scripts \<times> (string \<times> string) list" where
  "bootstrap s =
     (let starter = parameter_or ''script_starter'' ''/usr/sbin/sitter-script-starter'' s;
          out = parameter_or ''sitter_scripts_output'' ''/var/lib/sitter/script-files'' s;
          log_path = parameter_or ''log_path'' ''/var/log/sitter/scripts'' s;
          subfolder = parameter_or ''log_subfolder'' ''sitter-output'' s
      in (\<lparr>f_scripts = [],
           f_script_starter = starter,
           f_log_path = log_path,
           f_log_subfolder = subfolder,
           f_scripts_output_log = log_path @ ''/'' @ subfolder @ ''/sitter-scripts.log'',
           f_scripts_error_log = log_path @ ''/'' @ subfolder @ ''/sitter-scripts-errors.log'',
           f_script_filename = [],
           f_start_date = 0\<rparr>,
          [(''SITTER_SCRIPTS_OUTPUT'', out),
           (''SITTER_SCRIPTS_LOG_PATH'', log_path),
           (''SITTER_SCRIPTS_LOG_SUBFOLDER'', subfolder)]))"

section \<open>Dates\<close>

text \<open>
  \<^verbatim>\<open>gmtime_r()\<close> followed by \<^verbatim>\<open>strftime("%D %T")\<close>: month, day and year of two digits each. The
  day of the Gregorian calendar is found from the number of days since the epoch: \<open>z\<close> counts
  days from the 1st of March of the year 0, in eras of 400 years.
\<close>

definition civil :: "int \<Rightarrow> int \<times> int \<times> int" where
  "civil days =
     (let z = days + 719468;
          era = z div 146097;
          doe = z mod 146097;
          yoe = (doe - doe div 1460 + doe div 36524 - doe div 146096) div 365;
          doy = doe - (365 * yoe + yoe div 4 - yoe div 100);
          mp = (5 * doy + 2) div 153;
          m = (if mp < 10 then mp + 3 else mp - 9)
      in (yoe + era * 400 + (if m \<le> 2 then 1 else 0), m, doy - (153 * mp + 2) div 5 + 1))"

definition two_digits :: "int \<Rightarrow> string" where
  "two_digits n = [digit_char (nat n div 10), digit_char (nat n)]"

definition format_date :: "int \<Rightarrow> string" where
  "format_date t =
     (let (y, m, d) = civil (t div 86400); secs = t mod 86400 in
      two_digits m @ ''/'' @ two_digits d @ ''/'' @ two_digits (y mod 100) @ '' ''
      @ two_digits (secs div 3600) @ '':'' @ two_digits (secs div 60 mod 60) @ '':''
      @ two_digits (secs mod 60))"

section \<open>The header of a report\<close>

text \<open>
  The version of the build, \<^verbatim>\<open>my_address\<close> of the communicatord configuration, and the
  addresses of the computer, \<open>None\<close> for a null pointer. The host name is a file.
\<close>

record header_env =
  he_version :: string
  he_my_address :: string
  he_addresses :: "string list option"

definition NL :: string where
  "NL = [CHR 0x0A]"

definition generate_header :: "ext \<Rightarrow> header_env \<Rightarrow> string \<Rightarrow> scripts \<Rightarrow> server \<Rightarrow> string" where
  "generate_header X env type c s =
     ''--- '' @ type @ '' -----------------------------------------------------------'' @ NL
     @ ''Sitter-Version: '' @ he_version env @ NL
     @ ''Output-Type: '' @ type @ NL
     @ ''Date: '' @ format_date (f_start_date c) @ NL
     @ ''Script: '' @ f_script_filename c @ NL
     @ (case files s ''/etc/hostname'' of
          Some contents \<Rightarrow> ''Hostname: '' @ x_trim X contents @ NL
        | None \<Rightarrow> [])
     @ (if he_my_address env \<noteq> [] then ''IP-Address: '' @ he_my_address env @ NL
        else case he_addresses env of
               Some ips \<Rightarrow> ''IP-Addresses: '' @ plain_join '', '' ips @ NL
             | None \<Rightarrow> [])
     @ NL"

section \<open>Running one script\<close>

record script_result =
  sr_start :: int
  sr_wait :: int
  sr_output :: string
  sr_error :: string

definition exit_code_of :: "script_result \<Rightarrow> int" where
  "exit_code_of r = (let exit_code = sr_start r in if exit_code = 0 then sr_wait r else exit_code)"

definition end_line :: "string \<Rightarrow> string" where
  "end_line text = (if last text \<noteq> CHR 0x0A then text @ NL else text)"

definition process_script ::
    "ext \<Rightarrow> header_env \<Rightarrow> (string \<Rightarrow> string \<Rightarrow> script_result) \<Rightarrow> int \<Rightarrow> string
      \<Rightarrow> (scripts \<times> server, unit) act" where
  "process_script X env P now script_filename =
     (if find_text ''README'' script_filename \<noteq> None then ret ()
      else
        andthen (on_fst (modify (\<lambda>c. c\<lparr>f_script_filename := script_filename, f_start_date := now\<rparr>))) (\<lambda>_.
        andthen (get fst) (\<lambda>c.
        let r = P (f_script_starter c) script_filename;
            exit_code = exit_code_of r;
            e = sub (f_scripts c) ''script'' in
        andthen (on_snd (assign_all e [(''name'', JStr script_filename), (''exit_code'', JInt exit_code)])) (\<lambda>_.
        andthen (if exit_code \<noteq> 0 \<and> sr_output r \<noteq> [] then
            andthen (get (\<lambda>(c, s). end_line (generate_header X env ''OUTPUT'' c s @ sr_output r))) (\<lambda>output.
            andthen (on_snd (assign (sub e ''output'') (JStr output))) (\<lambda>_.
            andthen (on_snd (write_all X (f_scripts_output_log c) output)) (\<lambda>_.
            on_snd (append_error e ''scripts'' output (if exit_code = 0 then 35 else 65)))))
          else ret ()) (\<lambda>_.
        if sr_error r \<noteq> [] then
          andthen (get (\<lambda>(c, s). end_line (generate_header X env ''ERROR'' c s @ sr_error r))) (\<lambda>error.
          andthen (on_snd (write_all X (f_scripts_error_log c) error)) (\<lambda>_.
          on_snd (append_error e ''scripts'' error 90)))
        else ret ())))))"

definition scripts_watch ::
    "ext \<Rightarrow> header_env \<Rightarrow> (string \<Rightarrow> string \<Rightarrow> script_result) \<Rightarrow> (string \<Rightarrow> string list) \<Rightarrow> (nat \<Rightarrow> int)
      \<Rightarrow> jref \<Rightarrow> (scripts \<times> server, unit) act" where
  "scripts_watch X env P glob clock json =
     andthen (get (\<lambda>(c, s). parameter_or ''sitter_scripts_path'' ''/usr/share/sitter/scripts'' s)) (\<lambda>scripts_path.
     andthen (on_snd (member (sub json ''scripts''))) (\<lambda>_.
     andthen (on_fst (modify (\<lambda>c. c\<lparr>f_scripts := sub json ''scripts''\<rparr>))) (\<lambda>_.
     for_each (\<lambda>(index, script_filename). process_script X env P (clock index) script_filename)
       (enumerate 0 (glob (scripts_path @ ''/*''))))))"

section \<open>The contract of a plugin\<close>

context server_relation
begin

lemma keeps_process_script:
  "(\<And>path. writes path) \<Longrightarrow> obeys (\<lambda>b. second (R b)) (process_script X env P now script_filename)"
  unfolding process_script_def Let_def
  by (intro rules R_write_all obeys_on_fst obeys_on_snd)

lemma keeps_scripts_watch:
  "(\<And>path. writes path) \<Longrightarrow> obeys (\<lambda>b. second (R b)) (scripts_watch X env P glob clock json)"
  unfolding scripts_watch_def
  by (intro rules obeys_on_fst obeys_on_snd) (auto intro: keeps_process_script)

end

interpretation scripts: watch_plugin "scripts_watch X env P glob clock json" snd
    for X env P glob clock json
  by unfold_locales (use obeysD [OF frame.keeps_scripts_watch] in \<open>simp add: second_def\<close>)

section \<open>What is reported\<close>

lemma format_date_examples:
  "format_date 0 = ''01/01/70 00:00:00''"
  "format_date 1709251199 = ''02/29/24 23:59:59''"
  "format_date (- 1) = ''12/31/69 23:59:59''"
  by code_simp+

text \<open>The date takes 17 characters, within the 31 that \<^verbatim>\<open>strftime()\<close> may write.\<close>

lemma format_date_length: "length (format_date t) = 17"
  by (simp add: format_date_def two_digits_def Let_def split: prod.split)

text \<open>The priorities of one script, and its effect on the two log files.\<close>

definition script_fails :: "script_result \<Rightarrow> bool" where
  "script_fails r \<longleftrightarrow> exit_code_of r \<noteq> 0 \<and> sr_output r \<noteq> []"

definition script_priorities :: "script_result \<Rightarrow> int list" where
  "script_priorities r = (if script_fails r then [65] else []) @ (if sr_error r \<noteq> [] then [90] else [])"

definition is_readme :: "string \<Rightarrow> bool" where
  "is_readme name \<longleftrightarrow> find_text ''README'' name \<noteq> None"

definition report_text :: "ext \<Rightarrow> header_env \<Rightarrow> string \<Rightarrow> scripts \<Rightarrow> server \<Rightarrow> int \<Rightarrow> string \<Rightarrow> string \<Rightarrow> string" where
  "report_text X env type c s now name body =
     end_line (generate_header X env type (c\<lparr>f_script_filename := name, f_start_date := now\<rparr>) s @ body)"

text \<open>What stays the same while the scripts run: the paths and the host name.\<close>

definition same_setup :: "scripts \<times> server \<Rightarrow> scripts \<times> server \<Rightarrow> bool" where
  "same_setup = (\<lambda>(c, s) (c', s').
     f_script_starter c' = f_script_starter c \<and> f_scripts c' = f_scripts c
     \<and> f_scripts_output_log c' = f_scripts_output_log c \<and> f_scripts_error_log c' = f_scripts_error_log c
     \<and> files s' ''/etc/hostname'' = files s ''/etc/hostname'')"

lemma generate_header_same:
  "files s' ''/etc/hostname'' = files s ''/etc/hostname'' \<Longrightarrow> f_start_date c' = f_start_date c
   \<Longrightarrow> f_script_filename c' = f_script_filename c
   \<Longrightarrow> generate_header X env type c' s' = generate_header X env type c s"
  by (simp add: generate_header_def)

lemma report_text_same:
  "same_setup (c, s) (c', s') \<Longrightarrow> report_text X env type c' s' now name body = report_text X env type c s now name body"
  unfolding report_text_def same_setup_def by (simp add: generate_header_def)

definition logs_apart :: "scripts \<Rightarrow> bool" where
  "logs_apart c \<longleftrightarrow> f_scripts_output_log c \<noteq> f_scripts_error_log c
     \<and> f_scripts_output_log c \<noteq> ''/etc/hostname'' \<and> f_scripts_error_log c \<noteq> ''/etc/hostname''"

lemma bootstrap_logs_apart: "logs_apart (fst (bootstrap s))"
proof -
  have "rev (f_scripts_output_log c) \<noteq> rev (f_scripts_error_log c)"
    "rev (f_scripts_output_log c) \<noteq> rev ''/etc/hostname''"
    "rev (f_scripts_error_log c) \<noteq> rev ''/etc/hostname''" if "c = fst (bootstrap s)" for c
    by (simp_all add: that bootstrap_def Let_def)
  then show ?thesis unfolding logs_apart_def rev_is_rev_conv by simp
qed

lemma process_script_result:
  assumes "logs_apart c" and "x_can_write X (f_scripts_output_log c)" and "x_can_write X (f_scripts_error_log c)"
  shows "\<exists>c' t. process_script X env P now name (c, s) = (Inr (), (c', t))
    \<and> same_setup (c, s) (c', t) \<and> logs_apart c'
    \<and> priorities t = priorities s
        @ (if is_readme name then [] else script_priorities (P (f_script_starter c) name))
    \<and> files t (f_scripts_output_log c) =
        (if \<not> is_readme name \<and> script_fails (P (f_script_starter c) name)
         then Some (report_text X env ''OUTPUT'' c s now name (sr_output (P (f_script_starter c) name)))
         else files s (f_scripts_output_log c))"
proof (cases "is_readme name")
  case True
  then show ?thesis using assms by (simp add: process_script_def is_readme_def same_setup_def)
next
  case False
  let ?r = "P (f_script_starter c) name"
  note defs = process_script_def is_readme_def script_fails_def script_priorities_def Let_def andthen_apply
    on_fst_apply on_snd_apply assign_all_apply write_all_apply append_error_outcome same_setup_def
    logs_apart_def report_text_def
  note h = generate_header_def
  show ?thesis
    using False assms
    by (cases "exit_code_of ?r \<noteq> 0 \<and> sr_output ?r \<noteq> []"; cases "sr_error ?r = []") (auto simp: defs h)
qed

text \<open>The scripts a run starts, with the time it does.\<close>

definition started :: "(nat \<Rightarrow> int) \<Rightarrow> (nat \<times> string) list \<Rightarrow> (int \<times> string) list" where
  "started clock fs = map (\<lambda>(i, f). (clock i, f)) (filter (\<lambda>(i, f). \<not> is_readme f) fs)"

text \<open>The text of a log after some scripts: that of the last one that wrote to it.\<close>

fun last_log :: "((int \<times> string) \<Rightarrow> string option) \<Rightarrow> (int \<times> string) list \<Rightarrow> string option \<Rightarrow> string option" where
  "last_log f [] old = old"
| "last_log f (x # xs) old = last_log f xs (case f x of None \<Rightarrow> old | Some t \<Rightarrow> Some t)"

definition output_of :: "ext \<Rightarrow> header_env \<Rightarrow> (string \<Rightarrow> string \<Rightarrow> script_result) \<Rightarrow> scripts \<Rightarrow> server
    \<Rightarrow> int \<times> string \<Rightarrow> string option" where
  "output_of X env P c s = (\<lambda>(now, name).
     if script_fails (P (f_script_starter c) name)
     then Some (report_text X env ''OUTPUT'' c s now name (sr_output (P (f_script_starter c) name)))
     else None)"

lemma output_of_apply: "output_of X env P c s (now, name) =
     (if script_fails (P (f_script_starter c) name)
      then Some (report_text X env ''OUTPUT'' c s now name (sr_output (P (f_script_starter c) name)))
      else None)"
  by (simp add: output_of_def)

lemma process_scripts_result:
  assumes "logs_apart c" and "x_can_write X (f_scripts_output_log c)" and "x_can_write X (f_scripts_error_log c)"
  shows "\<exists>c' t. for_each (\<lambda>(i, f). process_script X env P (clock i) f) fs (c, s) = (Inr (), (c', t))
    \<and> priorities t = priorities s
        @ concat (map (\<lambda>(now, f). script_priorities (P (f_script_starter c) f)) (started clock fs))
    \<and> files t (f_scripts_output_log c) =
        last_log (output_of X env P c s) (started clock fs) (files s (f_scripts_output_log c))"
  using assms
proof (induction fs arbitrary: c s)
  case Nil
  then show ?case by (simp add: started_def)
next
  case (Cons x fs)
  obtain i f where x: "x = (i, f)" by (cases x)
  obtain c1 s1 where 1: "process_script X env P (clock i) f (c, s) = (Inr (), (c1, s1))"
    "same_setup (c, s) (c1, s1)" "logs_apart c1"
    "priorities s1 = priorities s
        @ (if is_readme f then [] else script_priorities (P (f_script_starter c) f))"
    "files s1 (f_scripts_output_log c) =
        (if \<not> is_readme f \<and> script_fails (P (f_script_starter c) f)
         then Some (report_text X env ''OUTPUT'' c s (clock i) f (sr_output (P (f_script_starter c) f)))
         else files s (f_scripts_output_log c))"
    using process_script_result [OF Cons.prems] by blast
  have same: "f_script_starter c1 = f_script_starter c" "f_scripts_output_log c1 = f_scripts_output_log c"
    "f_scripts_error_log c1 = f_scripts_error_log c" "output_of X env P c1 s1 = output_of X env P c s"
    using 1(2) report_text_same [OF 1(2)] by (simp_all add: same_setup_def output_of_def fun_eq_iff)
  show ?case
    using Cons.IH [of c1 s1] 1(1,3,4,5) Cons.prems
    by (auto simp: x same started_def output_of_apply)
qed

section \<open>Properties\<close>

text \<open>
  C27: a run starts every file of the scripts directory whose path does not have README in it,
  in order, never raises, and reports for each: an error at 65 when it fails and wrote
  to its output, and one at 90 when it wrote to its error output; nothing otherwise, also
  when it fails in silence. The log of the outputs afterwards holds the report of the
  last script that failed with an output and nothing of the others.
\<close>

theorem failing_scripts_are_reported:
  assumes "c = fst (bootstrap srv)" and "x_can_write X (f_scripts_output_log c)"
    and "x_can_write X (f_scripts_error_log c)"
  shows "\<exists>c' t. scripts_watch X env P glob clock json (c, s) = (Inr (), (c', t))
    \<and> (let sts = started clock (enumerate 0
            (glob (parameter_or ''sitter_scripts_path'' ''/usr/share/sitter/scripts'' s @ ''/*'')))
       in priorities t = priorities s
            @ concat (map (\<lambda>(now, f). script_priorities (P (f_script_starter c) f)) sts)
        \<and> files t (f_scripts_output_log c) =
            last_log (output_of X env P c s) sts (files s (f_scripts_output_log c)))"
proof -
  let ?c = "c\<lparr>f_scripts := sub json ''scripts''\<rparr>"
  let ?s = "s\<lparr>doc := doc s @ [Member (sub json ''scripts'')]\<rparr>"
  have a: "logs_apart ?c" using bootstrap_logs_apart [of srv] assms(1) by (simp add: logs_apart_def)
  have o: "output_of X env P ?c ?s = output_of X env P c s"
    by (simp add: output_of_def report_text_def generate_header_def fun_eq_iff)
  show ?thesis
    using process_scripts_result [OF a, of X env P clock "enumerate 0
            (glob (parameter_or ''sitter_scripts_path'' ''/usr/share/sitter/scripts'' s @ ''/*''))" ?s]
      assms(2,3)
    by (auto simp: scripts_watch_def andthen_apply on_fst_apply on_snd_apply o Let_def)
qed

definition results0 :: "string \<Rightarrow> string \<Rightarrow> script_result" where
  "results0 starter name =
     (if name = ''a'' then \<lparr>sr_start = 0, sr_wait = 1, sr_output = ''down'', sr_error = ''bad''\<rparr>
      else if name = ''b'' then \<lparr>sr_start = 0, sr_wait = 0, sr_output = ''fine'', sr_error = []\<rparr>
      else \<lparr>sr_start = 2, sr_wait = 0, sr_output = ''late'', sr_error = []\<rparr>)"

theorem failing_scripts_are_reported_witness:
  "\<exists>c' t. scripts_watch plain_host \<lparr>he_version = [], he_my_address = [], he_addresses = None\<rparr> results0
      (\<lambda>_. [''a'', ''b'', ''README.md'', ''c'']) (\<lambda>_. 0) []
      (fst (bootstrap (new_server (\<lambda>_. False) (\<lambda>_. []) 0)), new_server (\<lambda>_. False) (\<lambda>_. []) 0) = (Inr (), (c', t))
    \<and> priorities t = [65, 90, 65]"
proof -
  have "started (\<lambda>_. 0) (enumerate 0 [''a'', ''b'', ''README.md'', ''c''])
      = [(0, ''a''), (0, ''b''), (0, ''c'')]"
    by code_simp
  then show ?thesis
    using failing_scripts_are_reported [where srv = "new_server (\<lambda>_. False) (\<lambda>_. []) 0"
        and X = plain_host and P = results0 and glob = "\<lambda>_. [''a'', ''b'', ''README.md'', ''c'']"
        and clock = "\<lambda>_. 0" and json = "[]" and s = "new_server (\<lambda>_. False) (\<lambda>_. []) 0", OF refl,
        of "\<lparr>he_version = [], he_my_address = [], he_addresses = None\<rparr>"]
    by (auto simp: plain_host_def results0_def script_priorities_def script_fails_def exit_code_of_def
        new_server_def priorities_def Let_def)
qed

end
