(* ===== verification/All_Plugins.thy ===== *)
theory All_Plugins
  imports Worker Cpu Memory Reboot Network Apt Disk Certificate Log Packages Processes Scripts
begin

text \<open>
  The plugins of the repository together: the objects they keep between two runs, and the list
  of computations that \<^verbatim>\<open>process_watch\<close> calls for the plugins that are loaded.

  The record \<open>host\<close> is what the plugins see of the computer during one run. The locale
  \<open>plugin_list\<close> of the worker is interpreted here on the list, so what it proves holds of the
  plugins as they are modelled, with no hypothesis about them.
\<close>

section \<open>The objects\<close>

record objects =
  o_certificate :: certificate
  o_disk :: process
  o_log :: bool
  o_packages :: packages
  o_processes :: processes
  o_scripts :: scripts

text \<open>After the \<^verbatim>\<open>bootstrap()\<close> of each plugin. \<open>p\<close> is the alarm of the process.\<close>

definition new_objects :: "process \<Rightarrow> server \<Rightarrow> objects" where
  "new_objects p s =
     \<lparr>o_certificate = new_certificate, o_disk = p, o_log = False, o_packages = new_packages,
      o_processes = new_processes, o_scripts = fst (bootstrap s)\<rparr>"

section \<open>One run of each\<close>

record host =
  h_ext :: ext
  h_now :: int
  h_cpu :: cpu_env
  h_tokens :: "string \<Rightarrow> string list"
  h_meminfo :: "string option"
  h_reboot_required :: bool
  h_duration_text :: "int \<Rightarrow> string"
  h_communicatord :: "process_info option"
  h_ipwall :: "process_info option"
  h_nanoseconds :: int
  h_manager_cache :: "string option"
  h_flags :: "flag list"
  h_ratio_text :: "rat \<Rightarrow> string"
  h_mounts :: "(string \<times> answer) list"
  h_date_text :: "int \<Rightarrow> int \<Rightarrow> string"
  h_certificates :: "string \<Rightarrow> (string option \<times> cert_answer) list option"
  h_users :: users
  h_log_confs :: "string \<Rightarrow> (string \<times> conf) list"
  h_log_fs :: log_fs
  h_package_confs :: "string \<Rightarrow> conf list"
  h_dpkg :: "string \<Rightarrow> int \<times> string"
  h_proc_env :: proc_env
  h_process_confs :: "string \<Rightarrow> conf list"
  h_processes :: "running list"
  h_header :: header_env
  h_scripts :: "string \<Rightarrow> string \<Rightarrow> script_result"
  h_script_files :: "string \<Rightarrow> string list"
  h_clock :: "nat \<Rightarrow> int"

text \<open>A computation on one object, among all of them.\<close>

definition inside :: "('o \<Rightarrow> 'a) \<Rightarrow> ('a \<Rightarrow> 'o \<Rightarrow> 'o) \<Rightarrow> ('a \<times> 's, 'x) act \<Rightarrow> ('o \<times> 's, 'x) act" where
  "inside sel upd m = (\<lambda>(o1, s). case m (sel o1, s) of (r, (a, t)) \<Rightarrow> (r, (upd a o1, t)))"

text \<open>The plugin of a name, \<open>None\<close> for a name the repository has no plugin for.\<close>

definition plugin_named :: "host \<Rightarrow> string \<Rightarrow> (jref \<Rightarrow> (objects \<times> server, unit) act) option" where
  "plugin_named h name =
     (let X = h_ext h in
      if name = ''apt'' then Some (\<lambda>json. on_snd (apt_watch X (h_manager_cache h) (h_now h) json))
      else if name = ''certificate'' then Some (\<lambda>json. inside o_certificate (\<lambda>a. o_certificate_update (\<lambda>_. a))
        (certificate_watch X (h_date_text h) (h_certificates h) (h_now h) (h_now h) json))
      else if name = ''cpu'' then Some (\<lambda>json. on_snd (cpu_watch X (h_cpu h) json))
      else if name = ''disk'' then Some (\<lambda>json. inside o_disk (\<lambda>a. o_disk_update (\<lambda>_. a))
        (disk_watch X (h_ratio_text h) (h_mounts h) json))
      else if name = ''firewall'' then Some (\<lambda>json. on_snd (firewall_watch (h_ipwall h) json))
      else if name = ''flags'' then Some (\<lambda>json. on_snd (flags_watch (h_flags h) json))
      else if name = ''log'' then Some (\<lambda>json. inside o_log (\<lambda>a. o_log_update (\<lambda>_. a))
        (log_watch X (h_users h) (h_log_confs h) (h_log_fs h) json))
      else if name = ''memory'' then Some (\<lambda>json. on_snd (memory_watch (h_tokens h) (h_meminfo h) json))
      else if name = ''network'' then Some (\<lambda>json. on_snd (network_watch (h_duration_text h)
        (h_communicatord h) (h_nanoseconds h) json))
      else if name = ''packages'' then Some (\<lambda>json. inside o_packages (\<lambda>a. o_packages_update (\<lambda>_. a))
        (packages_watch X (h_package_confs h) (h_dpkg h) json))
      else if name = ''processes'' then Some (\<lambda>json. inside o_processes (\<lambda>a. o_processes_update (\<lambda>_. a))
        (processes_watch X (h_proc_env h) (h_process_confs h) (h_processes h) json))
      else if name = ''reboot'' then Some (\<lambda>json. on_snd (reboot_watch X (h_now h) (h_reboot_required h) json))
      else if name = ''scripts'' then Some (\<lambda>json. inside o_scripts (\<lambda>a. o_scripts_update (\<lambda>_. a))
        (scripts_watch X (h_header h) (h_scripts h) (h_script_files h) (h_clock h) json))
      else None)"

definition loaded_plugins :: "host \<Rightarrow> string list \<Rightarrow> (jref \<Rightarrow> (objects \<times> server, unit) act) list" where
  "loaded_plugins h names = List.map_filter (plugin_named h) names"

text \<open>
  The \<^verbatim>\<open>bootstrap()\<close> of a plugin connects its \<^verbatim>\<open>on_process_watch()\<close> to the signal, behind those that
  are connected already; the signal calls its listeners in that order.
\<close>

definition bootstrap_plugin ::
    "host \<Rightarrow> string \<Rightarrow> (jref \<Rightarrow> (objects \<times> server, unit) act) list \<Rightarrow> (jref \<Rightarrow> (objects \<times> server, unit) act) list" where
  "bootstrap_plugin h name listeners =
     (case plugin_named h name of None \<Rightarrow> listeners | Some p \<Rightarrow> listeners @ [p])"

lemma loaded_by_bootstrap: "fold (bootstrap_plugin h) names listeners = listeners @ loaded_plugins h names"
  by (induction names arbitrary: listeners)
    (simp_all add: loaded_plugins_def List.map_filter_def bootstrap_plugin_def split: option.split)

lemma signal_calls_in_order:
  "process_watch (fold (bootstrap_plugin h) (names @ [name]) []) json
     = andthen (process_watch (loaded_plugins h names) json) (\<lambda>_. process_watch (loaded_plugins h [name]) json)"
  by (simp only: loaded_by_bootstrap append_Nil)
    (simp add: loaded_plugins_def List.map_filter_def process_watch_def for_each_append)

section \<open>Every plugin keeps its contract\<close>

lemma obeys_inside: "obeys (\<lambda>b. second (R b)) m \<Longrightarrow> obeys (\<lambda>b. second (R b)) (inside sel upd m)"
  by (auto simp: obeys_def second_def inside_def split: prod.splits) (metis fst_conv snd_conv)

context server_relation
begin

lemmas stateful = keeps_certificate_watch keeps_disk_watch keeps_log_watch keeps_packages_watch keeps_processes_watch
  keeps_scripts_watch

lemmas stateless = keeps_apt_watch keeps_cpu_watch keeps_firewall_watch keeps_flags_watch keeps_memory_watch
  keeps_network_watch keeps_reboot_watch

lemma plugin_named_obeys:
  assumes "plugin_named h name = Some p" and "\<And>path. writes path"
  shows "obeys (\<lambda>b. second (R b)) (p json)"
  using assms unfolding plugin_named_def Let_def
  by (auto split: if_splits intro!: obeys_inside stateful obeys_on_snd stateless)

lemma loaded_plugins_obey:
  assumes "\<And>path. writes path"
  shows "obeys (\<lambda>b. second (R b)) (process_watch (loaded_plugins h names) json)"
  unfolding process_watch_def
  by (intro obeys_for_each composes_second R_composes)
    (auto simp: loaded_plugins_def List.map_filter_def intro: plugin_named_obeys assms)

end

lemma loaded_plugins_frame:
  assumes "p \<in> set (loaded_plugins h names)"
  shows "plugin_frame (snd w) (snd (snd (p json w)))"
proof -
  obtain name where "plugin_named h name = Some p"
    using assms by (auto simp: loaded_plugins_def List.map_filter_def)
  then have "obeys (\<lambda>_. second plugin_frame) (p json)" by (rule frame.plugin_named_obeys) simp
  from obeysD [OF this, of w] show ?thesis by (simp add: second_def)
qed

interpretation sitter: plugin_list "loaded_plugins h names" for h names
  by unfold_locales (rule loaded_plugins_frame)

end
