(* ===== verification/Daemon.thy ===== *)
theory Daemon
  imports All_Plugins
begin

text \<open>
  The daemon: the event loop of the main thread (\<^verbatim>\<open>sitter.cpp\<close>, \<^verbatim>\<open>messenger.cpp\<close>,
  \<^verbatim>\<open>tick_timer.cpp\<close>, \<^verbatim>\<open>interrupt.cpp\<close>, \<^verbatim>\<open>worker_done.cpp\<close>) and the worker thread
  (\<^verbatim>\<open>sitter_worker.cpp\<close>), as one step relation. A step is what one thread does between two
  points where the other can be seen: the worker holds its mutex from its test of the ticks
  to the wait, so these are one step; stopping the thread is one step for the flag and one
  for the call of \<^verbatim>\<open>wakeup()\<close>. A run is a step that opens it, one step for each plugin and one
  that closes it, so messages come between the plugins of a run; \<open>uninterrupted_run\<close> says that
  without them it is \<^verbatim>\<open>run_plugins()\<close>.
\<close>

section \<open>The state\<close>

text \<open>
  Where the worker is: at the head of \<^verbatim>\<open>loop()\<close>; in \<^verbatim>\<open>wait_next_tick()\<close> with the mutex, about
  to test; blocked in \<^verbatim>\<open>f_mutex.wait()\<close>; back from \<^verbatim>\<open>wait_next_tick()\<close>; in \<^verbatim>\<open>run_plugins()\<close>;
  gone through \<^verbatim>\<open>leave()\<close>.
\<close>

datatype worker_phase = In_loop | Testing | Blocked | Returned | Running | Left

text \<open>
  Where the main thread is: in the event loop; in \<^verbatim>\<open>stop()\<close> with the thread told to stop and
  not woken up; waiting for the end of the thread; out of \<^verbatim>\<open>stop()\<close>, all connections removed.
\<close>

datatype main_phase = Polling | Flagged | Joining | Stopped

text \<open>
  What the event loop listens to: \<^verbatim>\<open>run()\<close> adds the four, \<^verbatim>\<open>stop()\<close> removes them, and the loop
  returns once there is none.
\<close>

datatype connection = Interrupt_connection | Messenger_connection | Tick_timer_connection | Worker_done_connection

record daemon =
  d_err_once :: bool
  d_objects :: objects
  d_server :: server
  w_ticks :: int                  \<comment> \<open>\<^verbatim>\<open>sitter_worker::f_ticks\<close>\<close>
  d_continue :: bool              \<comment> \<open>what \<^verbatim>\<open>continue_running()\<close> answers\<close>
  d_worker :: worker_phase
  d_main :: main_phase
  d_plugins :: "string list"      \<comment> \<open>the plugins that \<^verbatim>\<open>enter()\<close> loaded, in the order they are called\<close>
  d_start :: int                  \<comment> \<open>the \<^verbatim>\<open>start_date\<close> of the run\<close>
  d_todo :: "string list"         \<comment> \<open>the plugins the run has not called yet\<close>
  t_enabled :: bool               \<comment> \<open>the tick timer\<close>
  t_delay :: int                  \<comment> \<open>its time out, in microseconds\<close>
  d_connections :: "connection list"
  d_ended :: bool                 \<comment> \<open>the thread is over: \<^verbatim>\<open>is_running()\<close> answers false\<close>

definition add_connection :: "connection \<Rightarrow> connection list \<Rightarrow> connection list" where
  "add_connection c cs = cs @ [c]"

definition run_connections :: "connection list" where
  "run_connections =
     fold add_connection
       [Interrupt_connection, Messenger_connection, Tick_timer_connection, Worker_done_connection] []"

definition new_daemon :: "process \<Rightarrow> string list \<Rightarrow> server \<Rightarrow> daemon" where
  "new_daemon p names s =
     \<lparr>d_err_once = True, d_objects = new_objects p s, d_server = s, w_ticks = 0, d_continue = True,
      d_worker = In_loop, d_main = Polling, d_plugins = names, d_start = 0, d_todo = [],
      t_enabled = False, t_delay = 60000000, d_connections = run_connections,
      d_ended = False\<rparr>"

section \<open>The operations of the main thread\<close>

definition signalled :: "worker_phase \<Rightarrow> worker_phase" where
  "signalled w = (if w = Blocked then Testing else w)"

definition tick :: "daemon \<Rightarrow> daemon" where
  "tick d = d\<lparr>w_ticks := w_ticks d + 1, d_worker := signalled (d_worker d)\<rparr>"

definition wakeup :: "daemon \<Rightarrow> daemon" where
  "wakeup d = d\<lparr>w_ticks := 1, d_worker := signalled (d_worker d)\<rparr>"

definition process_tick :: "daemon \<Rightarrow> daemon" where
  "process_tick d = tick d"

definition process_timeout :: "ext \<Rightarrow> daemon \<Rightarrow> daemon" where
  "process_timeout X d =
     (let d1 = process_tick d in
      case get_statistics_frequency X (d_server d1) of
        (Inl e, s) \<Rightarrow> d1\<lparr>d_server := s\<rparr>
      | (Inr frequency, s) \<Rightarrow> d1\<lparr>d_server := s, t_delay := frequency * 1000000\<rparr>)"

definition fluid_ready :: "daemon \<Rightarrow> daemon" where
  "fluid_ready d = d\<lparr>t_enabled := True\<rparr>"

datatype fluid_status = Status_new_value | Status_ready | Status_other

text \<open>
  \<open>def_opt\<close> and \<open>str_opt\<close> are the options once \<^verbatim>\<open>fluid_settings_connection::fluid_settings_changed()\<close>,
  which is called first, returned.
\<close>

definition fluid_settings_changed ::
    "fluid_status \<Rightarrow> string \<Rightarrow> (string \<Rightarrow> bool) \<Rightarrow> (string \<Rightarrow> string) \<Rightarrow> daemon \<Rightarrow> daemon" where
  "fluid_settings_changed st name def_opt str_opt d =
     (let d1 = d\<lparr>d_server := (d_server d)\<lparr>opt_defined := def_opt, opt_string := str_opt\<rparr>\<rparr> in
      case st of
        Status_new_value \<Rightarrow> d1\<lparr>d_server := clear_cache name (d_server d1)\<rparr>
      | Status_ready \<Rightarrow> fluid_ready d1
      | Status_other \<Rightarrow> d1)"

text \<open>\<^verbatim>\<open>ready()\<close> and \<^verbatim>\<open>msg_rusage()\<close>, with the time they are called at.\<close>

definition server_ready :: "int \<Rightarrow> daemon \<Rightarrow> daemon" where
  "server_ready now d = d\<lparr>d_server := set_communicatord_connected now True (d_server d)\<rparr>"

definition receive_rusage :: "ext \<Rightarrow> (string \<Rightarrow> string) \<Rightarrow> int \<Rightarrow> daemon \<Rightarrow> daemon" where
  "receive_rusage X msg now d = d\<lparr>d_server := runs (msg_rusage X msg now) (d_server d)\<rparr>"

text \<open>
  The end of \<^verbatim>\<open>stop()\<close> removes the connections; its start goes up to the thread, told to stop when
  it still runs, or else straight to that end.
\<close>

definition remove_connection :: "connection \<Rightarrow> connection list \<Rightarrow> connection list" where
  "remove_connection c cs = remove1 c cs"

definition end_stop :: "daemon \<Rightarrow> daemon" where
  "end_stop d = d\<lparr>d_main := Stopped, d_connections :=
     fold remove_connection
       [Messenger_connection, Interrupt_connection, Tick_timer_connection, Worker_done_connection]
       (d_connections d)\<rparr>"

definition begin_stop :: "daemon \<Rightarrow> daemon" where
  "begin_stop d =
     (let d1 = d\<lparr>d_server := (d_server d)\<lparr>f_stopping := True\<rparr>\<rparr> in
      if \<not> d_ended d1 then d1\<lparr>d_continue := False, d_main := Flagged\<rparr>
      else end_stop d1)"

text \<open>SIGINT, and the signal that the thread is done: both stop the daemon.\<close>

definition process_signal :: "daemon \<Rightarrow> daemon" where
  "process_signal d = begin_stop d"

definition process_read :: "daemon \<Rightarrow> daemon" where
  "process_read d = begin_stop d"

text \<open>The end of \<^verbatim>\<open>run()\<close>, and \<^verbatim>\<open>main()\<close>: how the server ended gives the exit code.\<close>

definition exit_code :: "daemon \<Rightarrow> int" where
  "exit_code d = (if f_force_restart (d_server d) then 2 else 0)"

datatype outcome = Exits int | Raises | Runs daemon

definition sitter_main :: "outcome \<Rightarrow> int" where
  "sitter_main r = (case r of Exits code \<Rightarrow> code | Raises \<Rightarrow> 1 | Runs d \<Rightarrow> exit_code d)"

section \<open>The operations of the worker\<close>

definition loop_head :: "daemon \<Rightarrow> daemon" where
  "loop_head d = d\<lparr>d_worker := (if d_continue d then Testing else Left)\<rparr>"

definition wait_next_tick :: "daemon \<Rightarrow> daemon" where
  "wait_next_tick d =
     (if d_continue d then
        (if w_ticks d \<noteq> 0 then
           d\<lparr>d_server := set_ticks (w_ticks d) (d_server d), w_ticks := 0, d_worker := Returned\<rparr>
         else d\<lparr>d_worker := Blocked\<rparr>)
      else d\<lparr>d_worker := Returned\<rparr>)"

text \<open>Back from \<^verbatim>\<open>wait_next_tick()\<close>: either a run starts, at \<open>start_date\<close>, or the thread ends.\<close>

definition after_wait :: "int \<Rightarrow> daemon \<Rightarrow> daemon" where
  "after_wait start_date d =
     (if d_continue d then
        d\<lparr>d_worker := Running, d_start := start_date, d_todo := d_plugins d,
          d_server := opened start_date (d_server d)\<rparr>
      else d\<lparr>d_worker := Left\<rparr>)"

text \<open>
  The next plugin of the run, with what it sees of the computer. An exception goes through
  \<^verbatim>\<open>process_watch\<close>, \<^verbatim>\<open>run_plugins()\<close> and \<^verbatim>\<open>loop()\<close> and ends the thread.
\<close>

definition run_plugin :: "host \<Rightarrow> daemon \<Rightarrow> daemon" where
  "run_plugin h d =
     (case d_todo d of
        [] \<Rightarrow> d
      | name # names \<Rightarrow>
          (case process_watch (loaded_plugins h [name]) [Key ''sitter''] (d_objects d, d_server d) of
             (r, (p, s)) \<Rightarrow> d\<lparr>d_objects := p, d_server := s, d_todo := names,
                               d_worker := (case r of Inl e \<Rightarrow> Left | Inr _ \<Rightarrow> Running)\<rparr>))"

text \<open>What follows the last plugin.\<close>

definition finish_run :: "ext \<Rightarrow> int \<Rightarrow> int \<Rightarrow> daemon \<Rightarrow> daemon" where
  "finish_run X end_date now d =
     (let s = closed end_date (d_server d) in
      if x_json_members X (doc s) [Key ''sitter''] \<le> 2
      then d\<lparr>d_err_once := False, d_server := s, d_worker := In_loop\<rparr>
      else (case after_plugins X (d_start d) end_date now s of
              (r, t) \<Rightarrow> d\<lparr>d_server := t, d_worker := (case r of Inl e \<Rightarrow> Left | Inr _ \<Rightarrow> In_loop)\<rparr>))"

text \<open>
  \<^verbatim>\<open>leave()\<close> signals the main thread; the thread itself ends a little later.
\<close>

definition thread_ended :: "daemon \<Rightarrow> daemon" where
  "thread_ended d = d\<lparr>d_ended := True\<rparr>"

section \<open>The steps\<close>

text \<open>What happens in a step. Every time the clock is read, the event has its value.\<close>

datatype event =
    Settings fluid_status string "string \<Rightarrow> bool" "string \<Rightarrow> string" | Timeout | Ready int | Rusage "string \<Rightarrow> string" int
  | Stop_message | Interrupt | Thread_done | Wakeup | Join
  | Loop_head | Wait | After_wait int | Plugin host | Finish int int | Ended

inductive step :: "ext \<Rightarrow> daemon \<Rightarrow> event \<Rightarrow> daemon \<Rightarrow> bool" for X where
  settings: "d_main d = Polling \<Longrightarrow> step X d (Settings st name def_opt str_opt)
    (fluid_settings_changed st name def_opt str_opt d)"
| timeout: "d_main d = Polling \<Longrightarrow> t_enabled d \<Longrightarrow> step X d Timeout (process_timeout X d)"
| ready: "d_main d = Polling \<Longrightarrow> step X d (Ready now) (server_ready now d)"
| rusage: "d_main d = Polling \<Longrightarrow> step X d (Rusage msg now) (receive_rusage X msg now d)"
| stop_message: "d_main d = Polling \<Longrightarrow> step X d Stop_message (begin_stop d)"
| interrupt: "d_main d = Polling \<Longrightarrow> step X d Interrupt (process_signal d)"
| thread_done: "d_main d = Polling \<Longrightarrow> d_worker d = Left \<Longrightarrow> step X d Thread_done (process_read d)"
| wakeup: "d_main d = Flagged \<Longrightarrow> step X d Wakeup (wakeup d\<lparr>d_main := Joining\<rparr>)"
| join: "d_main d = Joining \<Longrightarrow> d_ended d \<Longrightarrow> step X d Join (end_stop d)"
| loop_head: "d_worker d = In_loop \<Longrightarrow> step X d Loop_head (loop_head d)"
| wait: "d_worker d = Testing \<Longrightarrow> step X d Wait (wait_next_tick d)"
| after_wait: "d_worker d = Returned \<Longrightarrow> step X d (After_wait start_date) (after_wait start_date d)"
| run_plugin: "d_worker d = Running \<Longrightarrow> d_todo d \<noteq> [] \<Longrightarrow> h_ext h = X \<Longrightarrow> step X d (Plugin h) (run_plugin h d)"
| finish: "d_worker d = Running \<Longrightarrow> d_todo d = []
    \<Longrightarrow> step X d (Finish end_date now) (finish_run X end_date now d)"
| ended: "d_worker d = Left \<Longrightarrow> \<not> d_ended d \<Longrightarrow> step X d Ended (thread_ended d)"

inductive_simps step_simps:
  "step X d (Settings st name def_opt str_opt) d'" "step X d Timeout d'" "step X d (Ready now) d'"
  "step X d (Rusage msg now) d'" "step X d Stop_message d'" "step X d Interrupt d'"
  "step X d Thread_done d'" "step X d Wakeup d'" "step X d Join d'"
  "step X d Loop_head d'" "step X d Wait d'" "step X d (After_wait start_date) d'"
  "step X d (Plugin h) d'" "step X d (Finish end_date now) d'"

inductive_cases stepE: "step X d e d'"

text \<open>A history: the events of a sequence of steps, in order.\<close>

fun history :: "ext \<Rightarrow> daemon \<Rightarrow> event list \<Rightarrow> daemon \<Rightarrow> bool" where
  "history X d [] d' \<longleftrightarrow> d' = d"
| "history X d (e # es) d' \<longleftrightarrow> (\<exists>u. step X d e u \<and> history X u es d')"

lemma history_append: "history X d (es @ fs) d' \<longleftrightarrow> (\<exists>u. history X d es u \<and> history X u fs d')"
  by (induction es arbitrary: d) auto

lemma history_invariant:
  assumes "\<And>d e d'. step X d e d' \<Longrightarrow> I d \<Longrightarrow> I d'" and "history X d es d'" and "I d"
  shows "I d'"
  using assms(2,3) by (induction es arbitrary: d) (auto intro: assms(1))

section \<open>The invariant\<close>

definition safe :: "daemon \<Rightarrow> bool" where
  "safe d \<longleftrightarrow> 0 \<le> w_ticks d
     \<and> (d_worker d = Blocked \<longrightarrow> w_ticks d = 0 \<and> (d_continue d \<or> d_main d = Flagged))
     \<and> (d_main d = Polling \<longrightarrow> d_continue d)
     \<and> (d_main d = Flagged \<or> d_main d = Joining \<longrightarrow> \<not> d_continue d)
     \<and> (d_main d = Stopped \<longrightarrow> d_ended d) \<and> (d_ended d \<longrightarrow> d_worker d = Left)
     \<and> d_connections d = (if d_main d = Stopped then [] else run_connections)
     \<and> 60000000 \<le> t_delay d \<and> settings_ok (d_server d)"

lemma all_connections_removed:
  "fold remove_connection
     [Messenger_connection, Interrupt_connection, Tick_timer_connection, Worker_done_connection] run_connections = []"
  by (simp add: run_connections_def add_connection_def remove_connection_def)

lemma end_stop_rest [simp]:
  "d_main (end_stop d) = Stopped" "d_worker (end_stop d) = d_worker d" "w_ticks (end_stop d) = w_ticks d"
  "d_continue (end_stop d) = d_continue d" "t_delay (end_stop d) = t_delay d" "d_server (end_stop d) = d_server d"
  "d_objects (end_stop d) = d_objects d" "d_todo (end_stop d) = d_todo d" "d_plugins (end_stop d) = d_plugins d"
  "d_start (end_stop d) = d_start d" "t_enabled (end_stop d) = t_enabled d" "d_err_once (end_stop d) = d_err_once d"
  "d_ended (end_stop d) = d_ended d"
  by (simp_all add: end_stop_def)

lemma end_stop_connections: "d_connections d = run_connections \<Longrightarrow> d_connections (end_stop d) = []"
  by (simp only: end_stop_def all_connections_removed) simp

lemma new_daemon_safe: "settings_ok s \<Longrightarrow> safe (new_daemon p names s)"
  by (simp add: safe_def new_daemon_def)

lemma settings_ok_updates:
  "settings_ok (s\<lparr>opt_defined := od, opt_string := os\<rparr>) = settings_ok s"
  "settings_ok (s\<lparr>f_stopping := b\<rparr>) = settings_ok s" "settings_ok (s\<lparr>f_ticks := n\<rparr>) = settings_ok s"
  "settings_ok (s\<lparr>files := fs\<rparr>) = settings_ok s"
  "settings_ok (s\<lparr>f_communicatord_connected := c\<rparr>) = settings_ok s"
  by (simp_all add: settings_defs)

lemma record_usage_files: "\<exists>fs. runs (msg_rusage X msg now) s = s\<lparr>files := fs\<rparr>"
proof -
  have same: "\<exists>fs. s = s\<lparr>files := fs\<rparr>" by (rule exI [of _ "files s"]) simp
  have "runs (msg_rusage X msg now) s = s \<or> (\<exists>fs. runs (msg_rusage X msg now) s = s\<lparr>files := fs\<rparr>)"
    by (simp add: runs_def msg_rusage_def record_usage_def andthen_apply write_all_apply Let_def) blast
  then show ?thesis using same by (elim disjE) simp_all
qed

lemma timeout_result:
  assumes "settings_ok (d_server d)"
  shows "\<exists>v \<ge> 60. process_timeout X d =
     d\<lparr>w_ticks := w_ticks d + 1, d_worker := signalled (d_worker d),
       d_server := (d_server d)\<lparr>f_statistics_frequency := v\<rparr>, t_delay := v * 1000000\<rparr>
     \<and> settings_ok ((d_server d)\<lparr>f_statistics_frequency := v\<rparr>)"
proof -
  obtain r s where s: "get_statistics_frequency X (d_server d) = (r, s)" by fastforce
  have st: "stats_ok (d_server d)" using assms by (simp add: settings_ok_def)
  note f = frequency_fetch [OF s st]
  have "settings_ok s" using frequency_fetch_ok [OF assms s] .
  then show ?thesis
    using f s by (intro exI [of _ "f_statistics_frequency s"])
      (simp add: process_timeout_def process_tick_def tick_def Let_def)
qed

text \<open>A plugin changes the objects and the server; the server as the contract of the plugins says.\<close>

lemma run_plugin_rest:
  "w_ticks (run_plugin h d) = w_ticks d" "d_continue (run_plugin h d) = d_continue d"
  "d_main (run_plugin h d) = d_main d" "t_delay (run_plugin h d) = t_delay d"
  "t_enabled (run_plugin h d) = t_enabled d" "d_start (run_plugin h d) = d_start d"
  "d_plugins (run_plugin h d) = d_plugins d" "d_todo (run_plugin h d) = tl (d_todo d)"
  "d_connections (run_plugin h d) = d_connections d" "d_ended (run_plugin h d) = d_ended d"
  by (auto simp: run_plugin_def split: prod.split sum.split list.split)

lemma run_plugin_worker:
  "d_todo d \<noteq> [] \<Longrightarrow> d_worker (run_plugin h d) = Running \<or> d_worker (run_plugin h d) = Left"
  by (auto simp: run_plugin_def split: prod.split sum.split list.split)

lemma run_plugin_server:
  shows "\<exists>l. logged (d_server (run_plugin h d)) = logged (d_server d) @ l
      \<and> f_error_count (d_server (run_plugin h d)) = f_error_count (d_server d) + int (length l)
      \<and> f_max_error_priority (d_server (run_plugin h d)) = worst_of (f_max_error_priority (d_server d)) l"
    and "settings_ok (d_server (run_plugin h d)) = settings_ok (d_server d)"
    and "settles X (d_server (run_plugin h d)) = settles X (d_server d)"
    and "outbox (d_server (run_plugin h d)) = outbox (d_server d)"
    and "f_communicatord_connected (d_server (run_plugin h d)) = f_communicatord_connected (d_server d)"
    and "f_communicatord_disconnected (d_server (run_plugin h d)) = f_communicatord_disconnected (d_server d)"
    and "f_force_restart (d_server (run_plugin h d)) = f_force_restart (d_server d)"
proof -
  have "run_plugin h d = d \<or> (\<exists>name r p. process_watch (loaded_plugins h [name]) [Key ''sitter'']
      (d_objects d, d_server d) = (r, (p, d_server (run_plugin h d))))"
    by (auto simp: run_plugin_def split: prod.split list.split)
  then consider "run_plugin h d = d" | name r p where "process_watch (loaded_plugins h [name]) [Key ''sitter'']
      (d_objects d, d_server d) = (r, (p, d_server (run_plugin h d)))" by blast
  note c = this
  show "\<exists>l. logged (d_server (run_plugin h d)) = logged (d_server d) @ l
      \<and> f_error_count (d_server (run_plugin h d)) = f_error_count (d_server d) + int (length l)
      \<and> f_max_error_priority (d_server (run_plugin h d)) = worst_of (f_max_error_priority (d_server d)) l"
    by (cases rule: c) (auto dest: sitter.watch_keeps(1) intro: exI [of _ "[]"])
  show "settings_ok (d_server (run_plugin h d)) = settings_ok (d_server d)"
    "settles X (d_server (run_plugin h d)) = settles X (d_server d)"
    "outbox (d_server (run_plugin h d)) = outbox (d_server d)"
    "f_communicatord_connected (d_server (run_plugin h d)) = f_communicatord_connected (d_server d)"
    "f_communicatord_disconnected (d_server (run_plugin h d)) = f_communicatord_disconnected (d_server d)"
    "f_force_restart (d_server (run_plugin h d)) = f_force_restart (d_server d)"
    by (cases rule: c; simp add: sitter.watch_keeps(2-7))+
qed

text \<open>The end of a run reports no error; it may read settings, write files and send an email.\<close>

lemma finish_run_rest:
  "w_ticks (finish_run X e n d) = w_ticks d" "d_continue (finish_run X e n d) = d_continue d"
  "d_main (finish_run X e n d) = d_main d" "t_delay (finish_run X e n d) = t_delay d"
  "t_enabled (finish_run X e n d) = t_enabled d" "d_start (finish_run X e n d) = d_start d"
  "d_plugins (finish_run X e n d) = d_plugins d" "d_todo (finish_run X e n d) = d_todo d"
  "d_connections (finish_run X e n d) = d_connections d" "d_ended (finish_run X e n d) = d_ended d"
  by (auto simp: finish_run_def Let_def split: prod.split sum.split)

lemma finish_run_worker: "d_worker (finish_run X e n d) = In_loop \<or> d_worker (finish_run X e n d) = Left"
  by (auto simp: finish_run_def Let_def split: prod.split sum.split)

lemma finish_run_server:
  assumes "integer_keeps X" and "settings_ok (d_server d)"
  shows "settings_ok (d_server (finish_run X e n d))"
    and "logged (d_server (finish_run X e n d)) = logged (d_server d)"
    and "f_error_count (d_server (finish_run X e n d)) = f_error_count (d_server d)"
    and "f_max_error_priority (d_server (finish_run X e n d)) = f_max_error_priority (d_server d)"
    and "f_communicatord_connected (d_server (finish_run X e n d)) = f_communicatord_connected (d_server d)"
    and "f_communicatord_disconnected (d_server (finish_run X e n d)) = f_communicatord_disconnected (d_server d)"
    and "f_force_restart (d_server (finish_run X e n d)) = f_force_restart (d_server d)"
proof -
  obtain r t where t: "after_plugins X (d_start d) e n (closed e (d_server d)) = (r, t)" by fastforce
  note m = keeps_result [OF keeps_after_plugins t]
  have *: "d_server (finish_run X e n d) = closed e (d_server d) \<or> d_server (finish_run X e n d) = t"
    by (simp add: finish_run_def Let_def t)
  show "settings_ok (d_server (finish_run X e n d))"
    "logged (d_server (finish_run X e n d)) = logged (d_server d)"
    "f_error_count (d_server (finish_run X e n d)) = f_error_count (d_server d)"
    "f_max_error_priority (d_server (finish_run X e n d)) = f_max_error_priority (d_server d)"
    "f_communicatord_connected (d_server (finish_run X e n d)) = f_communicatord_connected (d_server d)"
    "f_communicatord_disconnected (d_server (finish_run X e n d)) = f_communicatord_disconnected (d_server d)"
    "f_force_restart (d_server (finish_run X e n d)) = f_force_restart (d_server d)"
    using * m assms by (auto simp: mails_def closed_kept)
qed

lemmas operation_defs = fluid_settings_changed_def fluid_ready_def server_ready_def
  begin_stop_def process_signal_def process_read_def wakeup_def loop_head_def wait_next_tick_def
  after_wait_def signalled_def set_ticks_def set_communicatord_connected_def thread_ended_def Let_def

lemma step_safe:
  assumes "step X d e d'" and "integer_keeps X" and "safe d"
  shows "safe d'"
  using assms(1)
proof (cases rule: step.cases)
  case (timeout)
  have "settings_ok (d_server d)" using assms(3) by (simp add: safe_def)
  then obtain v where "60 \<le> v" "process_timeout X d =
     d\<lparr>w_ticks := w_ticks d + 1, d_worker := signalled (d_worker d),
       d_server := (d_server d)\<lparr>f_statistics_frequency := v\<rparr>, t_delay := v * 1000000\<rparr>"
     "settings_ok ((d_server d)\<lparr>f_statistics_frequency := v\<rparr>)"
    using timeout_result by blast
  then show ?thesis using timeout assms(3) by (auto simp: safe_def signalled_def)
next
  case (rusage msg now)
  obtain fs where "runs (msg_rusage X msg now) (d_server d) = (d_server d)\<lparr>files := fs\<rparr>"
    using record_usage_files by blast
  then show ?thesis using rusage assms(3) by (simp add: receive_rusage_def safe_def settings_ok_updates)
next
  case (run_plugin h)
  show ?thesis
    using assms(3) run_plugin run_plugin_worker [OF run_plugin(4), of h] run_plugin_server(2) [of h d]
    by (auto simp: safe_def run_plugin_rest)
next
  case (finish e n)
  show ?thesis
    using assms(2,3) finish finish_run_server(1) [of X d e n] finish_run_worker [of X e n d]
    by (auto simp: safe_def finish_run_rest)
next
  case (settings st name od os)
  then show ?thesis using assms(3) clear_cache_ok
    by (cases st) (auto simp: safe_def operation_defs settings_ok_updates)
qed (use assms(3) in \<open>auto simp: safe_def operation_defs settings_ok_updates opened_kept end_stop_connections\<close>)

lemma history_safe: "history X d es d' \<Longrightarrow> integer_keeps X \<Longrightarrow> safe d \<Longrightarrow> safe d'"
  using history_invariant [of X safe d es d'] step_safe by blast

section \<open>Stopping\<close>

lemma step_stays_stopped:
  assumes "step X d e d'" and "\<not> d_continue d"
  shows "\<not> d_continue d'"
  using assms(1) assms(2)
  by (cases rule: step.cases)
    (auto simp: operation_defs receive_rusage_def process_timeout_def process_tick_def tick_def
      finish_run_rest run_plugin_rest split: prod.split sum.split fluid_status.split)

lemma step_leaves_left:
  assumes "step X d e d'" and "d_worker d = Left"
  shows "d_worker d' = Left"
  using assms(1) assms(2)
  by (cases rule: step.cases)
    (auto simp: operation_defs receive_rusage_def process_timeout_def process_tick_def tick_def
      split: prod.split sum.split fluid_status.split)

text \<open>What is left to do for the two threads once the worker is told to stop.\<close>

fun worker_rank :: "worker_phase \<Rightarrow> nat" where
  "worker_rank Left = 0"
| "worker_rank Returned = 1"
| "worker_rank In_loop = 1"
| "worker_rank Testing = 2"
| "worker_rank Running = 2"
| "worker_rank Blocked = 3"

fun main_rank :: "main_phase \<Rightarrow> nat" where
  "main_rank Stopped = 0"
| "main_rank Joining = 1"
| "main_rank Flagged = 2"
| "main_rank Polling = 3"

definition stop_rank :: "daemon \<Rightarrow> nat" where
  "stop_rank d = worker_rank (d_worker d) + (if d_worker d = Running then length (d_todo d) else 0)
     + (if d_ended d then 0 else 1) + main_rank (d_main d)"

lemma worker_rank_3: "worker_rank w \<le> 3"
  by (cases w) simp_all

lemma stopping_step:
  assumes "step X d e d'" and "safe d" and "d_main d \<noteq> Polling"
  shows "stop_rank d' < stop_rank d \<and> d_main d' \<noteq> Polling"
proof -
  have f: "worker_rank (d_worker (finish_run X e n d)) < 2" "d_worker (finish_run X e n d) \<noteq> Running" for e n
    using finish_run_worker [of X e n d] by auto
  have p: "worker_rank (d_worker (run_plugin h d)) = 0"
    if "d_todo d \<noteq> []" "d_worker (run_plugin h d) \<noteq> Running" for h
    using that run_plugin_worker [of d h] by simp
  have c: "d_worker d = Left \<or> \<not> d_continue d"
    using assms(2,3) by (cases "d_main d") (simp_all add: safe_def)
  show ?thesis
    using assms(1) c assms(3)
    by (cases rule: step.cases)
      (auto simp: operation_defs stop_rank_def finish_run_rest run_plugin_rest f p)
qed

lemma stopping_progress:
  fixes h :: host
  assumes "safe d" and "d_main d = Flagged \<or> d_main d = Joining" and "h_ext h = X"
  shows "\<exists>e d'. step X d e d'"
proof (cases "d_main d = Flagged")
  case True
  then show ?thesis using step.wakeup by blast
next
  case False
  then have j: "d_main d = Joining" using assms(2) by simp
  then have "d_worker d \<noteq> Blocked" using assms(1) by (auto simp: safe_def)
  then show ?thesis
    using j assms(3) step.join [of d X] step.ended [of d X] step.loop_head [of d X] step.wait [of d X] step.after_wait [of d X]
      step.run_plugin [of d h X] step.finish [of d X]
    by (cases "d_worker d"; cases "d_todo d = []") blast+
qed

lemma stopping_history:
  assumes "history X d es d'" and "integer_keeps X" and "safe d" and "d_main d \<noteq> Polling"
  shows "length es + stop_rank d' \<le> stop_rank d \<and> d_main d' \<noteq> Polling"
  using assms(1,3,4)
proof (induction es arbitrary: d)
  case Nil
  then show ?case by simp
next
  case (Cons e es)
  obtain u where u: "step X d e u" "history X u es d'" using Cons.prems(1) by auto
  note s = stopping_step [OF u(1) Cons.prems(2,3)]
  show ?case using Cons.IH [OF u(2) step_safe [OF u(1) assms(2) Cons.prems(2)]] s by simp
qed

text \<open>No part of a run comes after the worker is told to stop or left, unless it was in a run.\<close>

fun is_run :: "event \<Rightarrow> bool" where
  "is_run (Plugin h) = True"
| "is_run (Finish e n) = True"
| "is_run e = False"

definition no_run :: "daemon \<Rightarrow> bool" where
  "no_run d \<longleftrightarrow> d_worker d = Left \<or> (\<not> d_continue d \<and> d_worker d \<noteq> Running)"

lemma no_run_step:
  assumes "step X d e d'" and "no_run d"
  shows "no_run d' \<and> \<not> is_run e"
  using assms(1) assms(2)
  by (cases rule: step.cases)
    (auto simp: no_run_def operation_defs receive_rusage_def process_timeout_def process_tick_def tick_def
      split: prod.split sum.split fluid_status.split)

lemma no_run_history: "history X d es d' \<Longrightarrow> no_run d \<Longrightarrow> \<not> list_ex is_run es \<and> no_run d'"
  by (induction es arbitrary: d) (auto dest: no_run_step)

section \<open>A run that no message interrupts\<close>

lemma process_watch_Cons:
  "process_watch (loaded_plugins h (name # names)) json
     = andthen (process_watch (loaded_plugins h [name]) json) (\<lambda>_. process_watch (loaded_plugins h names) json)"
proof -
  have "loaded_plugins h (name # names) = loaded_plugins h [name] @ loaded_plugins h names"
    by (simp add: loaded_plugins_def List.map_filter_def)
  then show ?thesis by (simp add: process_watch_def for_each_append del: for_each.simps)
qed

text \<open>The state of the daemon after some plugins, from what \<^verbatim>\<open>process_watch\<close> gives for them.\<close>

definition watched :: "exn + unit \<Rightarrow> objects \<Rightarrow> server \<Rightarrow> string list \<Rightarrow> daemon \<Rightarrow> daemon" where
  "watched r p s names d =
     d\<lparr>d_objects := p, d_server := s, d_todo := names, d_worker := (if isl r then Left else Running)\<rparr>"

lemma run_plugin_watched:
  assumes "d_todo d = name # names"
    and "process_watch (loaded_plugins h [name]) [Key ''sitter''] (d_objects d, d_server d) = (r, (p, s))"
  shows "run_plugin h d = watched r p s names d"
  using assms by (simp add: run_plugin_def watched_def split: sum.split)

lemma plugins_in_a_row:
  assumes "h_ext h = X" and "d_worker d = Running"
    and "process_watch (loaded_plugins h (d_todo d)) [Key ''sitter''] (d_objects d, d_server d) = (r, (p, s))"
  shows "\<exists>k names. history X d (replicate k (Plugin h)) (watched r p s names d)
    \<and> k \<le> length (d_todo d) \<and> (isl r \<or> names = [])"
  using assms(2,3)
proof (induction "d_todo d" arbitrary: d)
  case Nil
  then have "r = Inr ()" "p = d_objects d" "s = d_server d"
    by (auto simp: process_watch_def loaded_plugins_def List.map_filter_def)
  moreover have "watched (Inr ()) (d_objects d) (d_server d) [] d = d"
    using Nil.hyps [symmetric] Nil.prems(1) by (simp add: watched_def)
  ultimately show ?case by (intro exI [of _ 0] exI [of _ "[]"]) simp
next
  case (Cons name names)
  obtain r1 p1 s1 where w: "process_watch (loaded_plugins h [name]) [Key ''sitter''] (d_objects d, d_server d)
      = (r1, (p1, s1))" by (metis prod_cases3)
  let ?u = "watched r1 p1 s1 names d"
  have u: "step X d (Plugin h) ?u"
    using Cons.prems(1) Cons.hyps(2) [symmetric] assms(1) run_plugin_watched [OF Cons.hyps(2) [symmetric] w]
    by (simp add: step_simps)
  note all = Cons.prems(2) [folded Cons.hyps(2), unfolded process_watch_Cons [of h name names] andthen_apply w]
  show ?case
  proof (cases r1)
    case (Inl e)
    then show ?thesis
      using u all Cons.hyps(2) [symmetric] by (intro exI [of _ 1] exI [of _ names]) auto
  next
    case (Inr x)
    have "names = d_todo ?u" "d_worker ?u = Running"
      "process_watch (loaded_plugins h (d_todo ?u)) [Key ''sitter''] (d_objects ?u, d_server ?u) = (r, (p, s))"
      using Inr all by (simp_all add: watched_def)
    from Cons.hyps(1) [OF this] obtain k ns where
      h: "history X ?u (replicate k (Plugin h)) (watched r p s ns ?u)" "k \<le> length names" "isl r \<or> ns = []"
      using \<open>names = d_todo ?u\<close> by auto
    have "watched r p s ns ?u = watched r p s ns d" by (simp add: watched_def)
    then show ?thesis
      using u h Cons.hyps(2) [symmetric] by (intro exI [of _ "Suc k"] exI [of _ ns]) auto
  qed
qed

section \<open>The ticks\<close>

fun timeouts :: "event list \<Rightarrow> int" where
  "timeouts [] = 0"
| "timeouts (Timeout # es) = 1 + timeouts es"
| "timeouts (e # es) = timeouts es"

text \<open>The ticks handed to the server by the \<open>Wait\<close> steps of a history.\<close>

inductive hands_over :: "ext \<Rightarrow> daemon \<Rightarrow> event list \<Rightarrow> int \<Rightarrow> daemon \<Rightarrow> bool" for X where
  nothing: "hands_over X d [] 0 d"
| handed: "step X d Wait u \<Longrightarrow> w_ticks u \<noteq> w_ticks d \<Longrightarrow> hands_over X u es n d'
    \<Longrightarrow> hands_over X d (Wait # es) (f_ticks (d_server u) + n) d'"
| other: "step X d e u \<Longrightarrow> e \<noteq> Wait \<or> w_ticks u = w_ticks d \<Longrightarrow> hands_over X u es n d'
    \<Longrightarrow> hands_over X d (e # es) n d'"

lemma hands_over_exists: "history X d es d' \<Longrightarrow> \<exists>n. hands_over X d es n d'"
proof (induction es arbitrary: d)
  case Nil
  then show ?case using hands_over.nothing [of X d'] by auto
next
  case (Cons e es)
  obtain u where u: "step X d e u" "history X u es d'" using Cons.prems by auto
  obtain n where n: "hands_over X u es n d'" using Cons.IH [OF u(2)] by blast
  show ?case
  proof (cases "e = Wait \<and> w_ticks u \<noteq> w_ticks d")
    case True
    then show ?thesis using hands_over.handed [of X d u es n d'] u(1) n by blast
  next
    case False
    then show ?thesis using hands_over.other [OF u(1) _ n] by blast
  qed
qed

lemma hands_over_history: "hands_over X d es n d' \<Longrightarrow> history X d es d'"
  by (induction rule: hands_over.induct) auto

lemma step_ticks:
  assumes "step X d e d'" and "d_continue d'" and "safe d"
  shows "w_ticks d' = (case e of
       Timeout \<Rightarrow> w_ticks d + 1
     | Wait \<Rightarrow> 0
     | _ \<Rightarrow> w_ticks d)
    \<and> (e = Wait \<and> w_ticks d' \<noteq> w_ticks d \<longrightarrow> f_ticks (d_server d') = w_ticks d)"
proof -
  have c: "d_continue d" using assms step_stays_stopped by blast
  show ?thesis
    using assms(1) assms(2,3) c
    by (cases rule: step.cases)
      (auto simp: safe_def operation_defs receive_rusage_def process_timeout_def process_tick_def tick_def finish_run_rest run_plugin_rest
        split: prod.split sum.split fluid_status.split)
qed

lemma history_stays_stopped: "history X d es d' \<Longrightarrow> d_continue d' \<Longrightarrow> d_continue d"
  by (induction es arbitrary: d) (auto dest: step_stays_stopped)

lemma timeouts_Cons: "timeouts (e # es) = (case e of Timeout \<Rightarrow> 1 | _ \<Rightarrow> 0) + timeouts es"
  by (cases e) simp_all

lemma ticks_balance:
  assumes "hands_over X d es n d'" and "d_continue d'" and "safe d" and "integer_keeps X"
  shows "w_ticks d + timeouts es = n + w_ticks d'"
  using assms(1-3)
proof (induction rule: hands_over.induct)
  case (nothing d)
  then show ?case by simp
next
  case (handed d u es n d')
  have "d_continue u" using history_stays_stopped [OF hands_over_history [OF handed.hyps(3)]] handed.prems(1) .
  from step_ticks [OF handed.hyps(1) this handed.prems(2)] step_safe [OF handed.hyps(1) assms(4) handed.prems(2)]
    handed show ?case by simp
next
  case (other d e u es n d')
  have "d_continue u" using history_stays_stopped [OF hands_over_history [OF other.hyps(3)]] other.prems(1) .
  from step_ticks [OF other.hyps(1) this other.prems(2)] step_safe [OF other.hyps(1) assms(4) other.prems(2)]
    other show ?case
    by (cases e) (simp_all add: timeouts_Cons)
qed

end
