(* ===== verification/Races.thy ===== *)
theory Races
  imports Daemon
begin

text \<open>
  Settings that change while the worker reads them. The getters of the server run on the worker
  thread, \<^verbatim>\<open>messenger::fluid_settings_changed()\<close> calls \<^verbatim>\<open>clear_cache()\<close> on the main thread, and
  neither takes a lock. The steps of \<open>Daemon\<close> let messages come between the plugins of a run;
  here they also come inside \<^verbatim>\<open>report_error()\<close> and what calls it: before each getter, and inside
  of it, between its test of the member (and what it loads) and the \<^verbatim>\<open>return\<close> that reads the
  member again. The reads and writes of the members are taken one at a time, in the order of
  the source.

  The lemmas give what a getter may then return: a value in its range, or -1 when its member
  was cleared inside of it. Without messages the reports are those of \<open>Worker\<close>.
\<close>

section \<open>The messages\<close>

text \<open>A new value: its name, and the options once it is stored.\<close>

type_synonym message = "string \<times> (string \<Rightarrow> bool) \<times> (string \<Rightarrow> string)"

definition new_value :: "message \<Rightarrow> server \<Rightarrow> server" where
  "new_value m s = (case m of (name, def_opt, str_opt) \<Rightarrow>
     clear_cache name (s\<lparr>opt_defined := def_opt, opt_string := str_opt\<rparr>))"

lemma new_value_settings_changed:
  "d_server (fluid_settings_changed Status_new_value name def_opt str_opt d)
     = new_value (name, def_opt, str_opt) (d_server d)"
  by (simp add: fluid_settings_changed_def new_value_def Let_def)

text \<open>
  A getter with the messages that come before it and those that come inside of it. The value it
  returns is that of its member, read again, but for the \<^verbatim>\<open>return false\<close> of the critical
  priority.
\<close>

definition contended :: "ext \<Rightarrow> setting \<Rightarrow> message list \<times> message list \<Rightarrow> (server, int) act" where
  "contended X g c s =
     (case get_setting X g (fold new_value (fst c) s) of
        (Inl e, t) \<Rightarrow> (Inl e, fold new_value (snd c) t)
      | (Inr v, t) \<Rightarrow>
          (let u = fold new_value (snd c) t in (Inr (if v = peek g t then peek g u else v), u)))"

text \<open>
  \<^verbatim>\<open>report_error()\<close> and the end of \<^verbatim>\<open>run_plugins()\<close>, \<open>c k\<close> being the messages of the read \<open>k\<close>.
\<close>

type_synonym messages = "nat \<Rightarrow> message list \<times> message list"

definition contended_span :: "ext \<Rightarrow> messages \<Rightarrow> int \<Rightarrow> (server, int) act" where
  "contended_span X c max_error_priority =
     andthen (contended X Low_span (c 1)) (\<lambda>span.
     andthen (contended X Critical_priority (c 2)) (\<lambda>critical.
     if max_error_priority \<ge> critical then contended X Critical_span (c 3)
     else
       andthen (contended X Medium_priority (c 3)) (\<lambda>medium.
       if max_error_priority \<ge> medium then contended X Medium_span (c 4)
       else ret span)))"

definition contended_report :: "ext \<Rightarrow> messages \<Rightarrow> int \<Rightarrow> int \<Rightarrow> (server, unit) act" where
  "contended_report X c now start_date =
     andthen (get get_max_error_priority) (\<lambda>max_error_priority.
     andthen (contended X Low_priority (c 0)) (\<lambda>low.
     if max_error_priority < low then ret ()
     else
       andthen (contended_span X c max_error_priority) (\<lambda>span.
       andthen (get_cache_path X ''last_email_time.txt'') (\<lambda>last_email_filename.
       mail_part X last_email_filename now start_date span))))"

text \<open>The reads 0 and 1 are those of the period and of the settle time.\<close>

definition contended_save :: "ext \<Rightarrow> message list \<times> message list \<Rightarrow> int \<Rightarrow> (server, unit) act" where
  "contended_save X c start_date =
     andthen (get (get_server_parameter ''data_path'')) (\<lambda>data_path.
     if data_path = [] then ret ()
     else
       andthen (contended X Statistics_period c) (\<lambda>period.
       andthen (get (\<lambda>s. x_json_text X (doc s))) (\<lambda>text.
       andthen (write_all X (data_path @ ''/'' @ int_text (data_date start_date period) @ ''.json'') text)
         (\<lambda>_. ret ()))))"

definition contended_after :: "ext \<Rightarrow> messages \<Rightarrow> int \<Rightarrow> int \<Rightarrow> int \<Rightarrow> (server, unit) act" where
  "contended_after X c start_date end_date now =
     andthen (contended_save X (c 0) start_date) (\<lambda>_.
     andthen (get get_error_count) (\<lambda>error_count.
     if error_count > 0 then
       andthen (contended X Settle_time (c 1)) (\<lambda>settle.
       if end_date - start_date \<ge> settle then contended_report X (\<lambda>k. c (k + 2)) now start_date
       else ret ())
     else ret ()))"

section \<open>One getter\<close>

lemma new_value_rest:
  "files (new_value m s) = files s" "outbox (new_value m s) = outbox s"
  "f_cache_path (new_value m s) = f_cache_path s" "doc (new_value m s) = doc s"
  "f_max_error_priority (new_value m s) = f_max_error_priority s"
  "f_error_count (new_value m s) = f_error_count s"
  by (auto simp: new_value_def clear_cache_def split: prod.splits)

lemma fold_new_value_rest [simp]:
  "files (fold new_value ms s) = files s" "outbox (fold new_value ms s) = outbox s"
  "f_cache_path (fold new_value ms s) = f_cache_path s" "doc (fold new_value ms s) = doc s"
  "f_max_error_priority (fold new_value ms s) = f_max_error_priority s"
  "f_error_count (fold new_value ms s) = f_error_count s"
  by (induction ms arbitrary: s) (simp_all add: new_value_rest)

lemma settings_ok_options: "settings_ok (s\<lparr>opt_defined := d, opt_string := f\<rparr>) = settings_ok s"
  by (simp add: settings_defs)

lemma new_value_ok: "settings_ok s \<Longrightarrow> settings_ok (new_value m s)"
  by (cases m) (simp add: new_value_def clear_cache_ok settings_ok_options)

lemma fold_new_value_ok: "settings_ok s \<Longrightarrow> settings_ok (fold new_value ms s)"
  by (induction ms arbitrary: s) (simp_all add: new_value_ok)

lemma contended_nothing [simp]: "contended X g ([], []) = get_setting X g"
  by (rule ext) (simp add: contended_def split: prod.split sum.split)

lemma peek_options [simp]: "peek g (s\<lparr>opt_defined := d, opt_string := f\<rparr>) = peek g s"
  by (cases g) simp_all

lemma peek_clear_cache:
  "peek g (clear_cache name s) = (if name \<in> cleared_by g then -1 else peek g s)"
  by (cases g) (simp_all add: clear_cache_def)

lemma peek_fold_new_value:
  "peek g (fold new_value ms s) = (if \<exists>m\<in>set ms. fst m \<in> cleared_by g then -1 else peek g s)"
  by (induction ms arbitrary: s) (auto simp: new_value_def peek_clear_cache split: prod.splits)

text \<open>What a getter gives when messages may come before it and inside of it.\<close>

definition clears :: "setting \<Rightarrow> message list \<Rightarrow> bool" where
  "clears g ms \<longleftrightarrow> (\<exists>m\<in>set ms. fst m \<in> cleared_by g)"

text \<open>What neither a getter nor a message changes.\<close>

definition only_settings :: "server \<Rightarrow> server \<Rightarrow> bool" where
  "only_settings s t \<longleftrightarrow> files t = files s \<and> outbox t = outbox s \<and> f_cache_path t = f_cache_path s
     \<and> f_max_error_priority t = f_max_error_priority s"

lemma contended_result:
  assumes "integer_keeps X" and "settings_ok s" and "contended X g c s = (r, t)"
  shows "settings_ok t" and "only_settings s t"
    and "r = Inr v \<Longrightarrow> in_range g v \<or> v = -1 \<and> clears g (snd c)"
proof -
  let ?s = "fold new_value (fst c) s"
  obtain q u where q: "get_setting X g ?s = (q, u)" by fastforce
  have t: "t = fold new_value (snd c) u"
    using assms(3) q by (auto simp: contended_def Let_def split: sum.splits)
  have ok: "settings_ok ?s" by (rule fold_new_value_ok [OF assms(2)])
  show "settings_ok t" using get_setting_ok [OF assms(1) ok, of g] q t by (simp add: fold_new_value_ok)
  show "only_settings s t"
    using get_setting_rest [OF assms(1) ok, of g] q t by (simp add: same_but_settings_def only_settings_def)
  assume v: "r = Inr v"
  then obtain w where w: "q = Inr w" "v = w \<or> v = peek g t \<and> w = peek g u"
    using assms(3) q t by (auto simp: contended_def Let_def split: sum.splits if_splits)
  have "in_range g w" using get_setting_read_ok [OF assms(1) ok, of g] q w(1) by (simp add: read_ok_def)
  then show "in_range g v \<or> v = -1 \<and> clears g (snd c)"
    using w(2) t by (auto simp: peek_fold_new_value clears_def split: if_splits)
qed

lemma only_settings_refl: "only_settings s s"
  by (simp add: only_settings_def)

lemma only_settings_trans: "only_settings s t \<Longrightarrow> only_settings t u \<Longrightarrow> only_settings s u"
  by (simp add: only_settings_def)

text \<open>
  \<open>Q\<close> is what is known of the option \<^verbatim>\<open>cache_path\<close> and of the path the server remembers; no
  message of \<open>c\<close> spoils it.
\<close>

definition path_kept :: "(server \<Rightarrow> bool) \<Rightarrow> messages \<Rightarrow> bool" where
  "path_kept Q c \<longleftrightarrow>
     (\<forall>s t. Q s \<and> opt_string t = opt_string s \<and> f_cache_path t = f_cache_path s \<longrightarrow> Q t)
     \<and> (\<forall>k m s. (m \<in> set (fst (c k)) \<or> m \<in> set (snd (c k))) \<and> Q s \<longrightarrow> Q (new_value m s))"

definition contends :: "ext \<Rightarrow> (server \<Rightarrow> bool) \<Rightarrow> server \<Rightarrow> server \<Rightarrow> bool" where
  "contends X Q s t \<longleftrightarrow>
     (integer_keeps X \<and> settings_ok s \<and> Q s \<longrightarrow> settings_ok t \<and> Q t \<and> only_settings s t)"

lemma reflp_contends [simp, intro]: "reflp (contends X Q)"
  by (simp add: reflpI contends_def only_settings_refl)

lemma transp_contends [simp, intro]: "transp (contends X Q)"
  by (rule transpI) (auto simp: contends_def intro: only_settings_trans)

lemma fold_new_value_path:
  assumes "path_kept Q c" and "Q s"
  shows "Q (fold new_value (fst (c k)) s)" and "Q (fold new_value (snd (c k)) s)"
proof -
  have f: "Q (fold new_value ms s)" if "\<And>m s. m \<in> set ms \<Longrightarrow> Q s \<Longrightarrow> Q (new_value m s)" for ms
    using assms(2) that by (induction ms arbitrary: s) simp_all
  have "m \<in> set (fst (c k)) \<or> m \<in> set (snd (c k)) \<Longrightarrow> Q s \<Longrightarrow> Q (new_value m s)" for m s
    using assms(1) unfolding path_kept_def by blast
  then show "Q (fold new_value (fst (c k)) s)" "Q (fold new_value (snd (c k)) s)"
    by (blast intro: f)+
qed

lemma keeps_contended:
  assumes "path_kept Q c"
  shows "keeps (contends X Q) (contended X g (c k))"
proof (rule keepsI)
  fix s
  let ?s = "fold new_value (fst (c k)) s" and ?c = "contended X g (c k)"
  obtain q u where q: "get_setting X g ?s = (q, u)" by fastforce
  have t: "snd (?c s) = fold new_value (snd (c k)) u"
    using q by (auto simp: contended_def Let_def split: sum.splits)
  have "Q (snd (?c s))" if "integer_keeps X" "settings_ok s" "Q s"
  proof -
    have "Q ?s" using fold_new_value_path(1) [OF assms that(3)] .
    moreover have "same_but_settings ?s u"
      using get_setting_rest [OF that(1) fold_new_value_ok [OF that(2)], of "fst (c k)" g] q by simp
    ultimately have "Q u" using assms unfolding path_kept_def same_but_settings_def by blast
    then show ?thesis unfolding t by (rule fold_new_value_path(2) [OF assms])
  qed
  then show "contends X Q s (snd (?c s))"
    using contended_result(1,2) [OF _ _ prod.collapse [symmetric]] by (auto simp: contends_def)
qed

lemma keeps_contended_span: "path_kept Q c \<Longrightarrow> keeps (contends X Q) (contended_span X c p)"
  unfolding contended_span_def
  by (intro keeps_andthen keeps_if keeps_ret keeps_contended reflp_contends transp_contends)

section \<open>The span\<close>

text \<open>No message inside of a getter forgets one of the three spans.\<close>

definition spans_kept :: "messages \<Rightarrow> bool" where
  "spans_kept c \<longleftrightarrow> (\<forall>k g. g \<in> {Low_span, Medium_span, Critical_span} \<longrightarrow> \<not> clears g (snd (c k)))"

lemma contended_span_read:
  assumes "integer_keeps X" and "settings_ok s" and "contended X g (c k) s = (Inr v, t)"
    and "g = Low_span \<or> g = Medium_span \<or> g = Critical_span" and "spans_kept c"
  shows "300 \<le> v"
  using contended_result(3) [OF assms(1-3) refl] assms(4,5) by (auto simp: spans_kept_def)

lemma contended_span_at_least:
  assumes "integer_keeps X" and "settings_ok s" and "contended_span X c p s = (Inr v, t)" and "spans_kept c"
  shows "300 \<le> v"
proof -
  obtain low s1 crit s2 where 1: "contended X Low_span (c 1) s = (Inr low, s1)"
    "contended X Critical_priority (c 2) s1 = (Inr crit, s2)"
    and r: "(if p \<ge> crit then contended X Critical_span (c 3)
      else andthen (contended X Medium_priority (c 3)) (\<lambda>medium.
        if p \<ge> medium then contended X Medium_span (c 4) else ret low)) s2 = (Inr v, t)"
    using assms(3) unfolding contended_span_def andthen_returns_iff by blast
  have low: "300 \<le> low" using contended_span_read [OF assms(1,2) 1(1) _ assms(4)] by blast
  have ok2: "settings_ok s2"
    using contended_result(1) [OF assms(1) contended_result(1) [OF assms(1,2) 1(1)] 1(2)] .
  show ?thesis
  proof (cases "p \<ge> crit")
    case True
    then have "contended X Critical_span (c 3) s2 = (Inr v, t)" using r by simp
    then show ?thesis using contended_span_read [OF assms(1) ok2 _ _ assms(4)] by blast
  next
    case False
    then obtain med s3 where m: "contended X Medium_priority (c 3) s2 = (Inr med, s3)"
      "(if p \<ge> med then contended X Medium_span (c 4) else ret low) s3 = (Inr v, t)"
      using r by (auto simp: andthen_returns_iff)
    have ok3: "settings_ok s3" using contended_result(1) [OF assms(1) ok2 m(1)] .
    show ?thesis
      using m(2) low contended_span_read [OF assms(1) ok3 _ _ assms(4), of Medium_span 4 v t]
      by (cases "p \<ge> med") auto
  qed
qed

section \<open>A report\<close>

lemma contended_report_result:
  assumes "integer_keeps X" and "settings_ok s" and "Q s" and "path_kept Q c" and "spans_kept c"
    and "\<forall>u. Q u \<longrightarrow> cache_file X ''last_email_time.txt'' u = f"
    and "contended_report X c now start_date s = (r, t)"
  shows "(settings_ok t \<and> Q t \<and> only_settings s t)
    \<or> (\<exists>v u cp. 300 \<le> v \<and> settings_ok u \<and> Q u \<and> only_settings s u
        \<and> get_cache_path X ''last_email_time.txt'' u = (Inr f, u\<lparr>f_cache_path := cp\<rparr>)
        \<and> mail_part X f now start_date v (u\<lparr>f_cache_path := cp\<rparr>) = (r, t))"
proof -
  let ?p = "f_max_error_priority s"
  obtain q1 s1 where 1: "contended X Low_priority (c 0) s = (q1, s1)" by fastforce
  have k1: "settings_ok s1 \<and> Q s1 \<and> only_settings s s1"
    using keeps_result [OF keeps_contended [OF assms(4)] 1] assms(1-3) by (simp add: contends_def)
  obtain q2 s2 where 2: "contended_span X c ?p s1 = (q2, s2)" by fastforce
  have k2: "settings_ok s2 \<and> Q s2 \<and> only_settings s1 s2"
    using keeps_result [OF keeps_contended_span [OF assms(4)] 2] assms(1) k1 by (simp add: contends_def)
  then have o: "only_settings s s2" using k1 by (blast intro: only_settings_trans)
  obtain cp where cp: "get_cache_path X ''last_email_time.txt'' s2 = (Inr f, s2\<lparr>f_cache_path := cp\<rparr>)"
    using get_cache_path_result [of X "''last_email_time.txt''" s2] assms(6) k2 by auto
  have report: "(case q1 of
        Inl e \<Rightarrow> (Inl e, s1)
      | Inr l \<Rightarrow> if ?p < l then (Inr (), s1)
          else (case q2 of Inl e \<Rightarrow> (Inl e, s2)
            | Inr w \<Rightarrow> mail_part X f now start_date w (s2\<lparr>f_cache_path := cp\<rparr>))) = (r, t)"
    using assms(7) 1 2 cp
    by (simp add: contended_report_def andthen_apply get_max_error_priority_def split: sum.splits if_splits)
  show ?thesis
  proof (cases "\<exists>l w. q1 = Inr l \<and> \<not> ?p < l \<and> q2 = Inr w")
    case True
    then obtain w where w: "q2 = Inr w" "mail_part X f now start_date w (s2\<lparr>f_cache_path := cp\<rparr>) = (r, t)"
      using report by auto
    have "300 \<le> w" using contended_span_at_least [OF assms(1) _ 2 [unfolded w(1)] assms(5)] k1 by blast
    then show ?thesis using w(2) k2 o cp by blast
  next
    case False
    then have "t = s1 \<or> t = s2" using report by (auto split: sum.splits if_splits)
    then show ?thesis using k1 k2 o by blast
  qed
qed

lemma mail_part_writes:
  assumes "mail_part X f now start_date v u = (r, t)" and "files u = files s" and "outbox u = outbox s"
    and "300 \<le> v"
  shows "stays_silent s t \<or> writes_date X f now s t"
proof -
  obtain t' where t': "mail_part X f now start_date v u = (Inr (), t')"
    "if too_early X (files u f) now v then t' = u
     else files t' = (if x_can_write X f then (files u)(f \<mapsto> int_text now) else files u)
       \<and> outbox t' = outbox u
           @ (if get_server_parameter ''from_email'' u = [] \<or> get_server_parameter ''administrator_email'' u = []
              then [] else [error_email X start_date u])"
    using mail_part_result [of X f now start_date v u] by blast
  then show ?thesis
    using assms by (auto simp: stays_silent_def writes_date_def split: if_splits)
qed

section \<open>A message inside of the getter of the span\<close>

text \<open>The span that \<^verbatim>\<open>report_error()\<close> uses for a priority, and the read it is at.\<close>

definition span_for :: "int \<Rightarrow> server \<Rightarrow> setting" where
  "span_for p s = (if p \<ge> f_error_report_critical_priority s then Critical_span
     else if p \<ge> f_error_report_medium_priority s then Medium_span else Low_span)"

fun span_read :: "setting \<Rightarrow> nat" where
  "span_read Critical_span = 3"
| "span_read Medium_span = 4"
| "span_read _ = 1"

definition message_at :: "nat \<Rightarrow> message \<Rightarrow> messages" where
  "message_at k m = (\<lambda>j. if j = k then ([], [m]) else ([], []))"

lemma contended_hit:
  "is_loaded g s \<Longrightarrow> fst m \<in> cleared_by g \<Longrightarrow>
     contended X g ([], [m]) s = (Inr (-1), new_value m s)"
  by (cases m) (simp add: contended_def get_setting_hit new_value_def peek_clear_cache)

lemma new_value_keeps:
  "is_loaded g s \<Longrightarrow> fst m \<notin> cleared_by g \<Longrightarrow> is_loaded g (new_value m s) \<and> peek g (new_value m s) = peek g s"
  by (cases g; cases m) (simp_all add: new_value_def clear_cache_def)

definition priorities_loaded :: "server \<Rightarrow> bool" where
  "priorities_loaded s \<longleftrightarrow> is_loaded Low_priority s \<and> is_loaded Medium_priority s \<and> is_loaded Critical_priority s"

lemma loadedD:
  "priorities_loaded s \<Longrightarrow>
     is_loaded Low_priority s \<and> is_loaded Low_span s \<and> is_loaded Medium_priority s \<and> is_loaded Medium_span s
     \<and> is_loaded Critical_priority s \<and> is_loaded Critical_span s"
  by (simp add: priorities_loaded_def)

lemma span_for_cases:
  obtains "span_for p s = Critical_span" "peek Critical_priority s \<le> p"
  | "span_for p s = Medium_span" "\<not> peek Critical_priority s \<le> p" "peek Medium_priority s \<le> p"
  | "span_for p s = Low_span" "\<not> peek Critical_priority s \<le> p" "\<not> peek Medium_priority s \<le> p"
  unfolding span_for_def peek.simps by metis

lemma racing_span:
  assumes "priorities_loaded s" and "fst m \<in> cleared_by (span_for p s)"
  shows "contended_span X (message_at (span_read (span_for p s)) m) p s = (Inr (-1), new_value m s)"
proof -
  have k: "is_loaded g (new_value m s) \<and> peek g (new_value m s) = peek g s"
    if "span_for p s = Low_span" "g = Medium_priority \<or> g = Critical_priority" for g
    using that loadedD [OF assms(1)] assms(2) by (intro new_value_keeps) auto
  show ?thesis
  proof (cases rule: span_for_cases [of p s])
    case 1
    then show ?thesis using assms(2) loadedD [OF assms(1)]
      by (simp add: contended_span_def message_at_def get_setting_hit contended_hit del: get_setting.simps peek.simps is_loaded.simps)
  next
    case 2
    then show ?thesis using assms(2) loadedD [OF assms(1)]
      by (simp add: contended_span_def message_at_def get_setting_hit contended_hit del: get_setting.simps peek.simps is_loaded.simps)
  next
    case 3
    then show ?thesis using assms(2) loadedD [OF assms(1)] k [of Medium_priority] k [of Critical_priority]
      by (simp add: contended_span_def message_at_def get_setting_hit contended_hit del: get_setting.simps peek.simps is_loaded.simps)
  qed
qed

lemma quiet_span:
  assumes "priorities_loaded s"
  shows "contended_span X (\<lambda>_. ([], [])) p s = (Inr (peek (span_for p s) s), s)"
  using loadedD [OF assms]
  by (cases rule: span_for_cases [of p s])
    (simp_all add: contended_span_def get_setting_hit del: get_setting.simps peek.simps is_loaded.simps)

text \<open>Without messages, the reports and the end of a run are the ones of the worker.\<close>

lemma contended_report_quiet: "contended_report X (\<lambda>_. ([], [])) now start_date = report_error X now start_date"
  by (simp add: contended_report_def report_error_def contended_span_def error_span_def mail_part_def
      cong: if_cong)

lemma mail_part_early: "too_early X (files s f) now v \<Longrightarrow> mail_part X f now start_date v s = (Inr (), s)"
  by (simp add: mail_part_def)

lemma mail_part_sends:
  assumes "\<not> too_early X (files s f) now v"
    and "get_server_parameter ''from_email'' s \<noteq> []" and "get_server_parameter ''administrator_email'' s \<noteq> []"
  shows "outbox (runs (mail_part X f now start_date v) s) = outbox s @ [error_email X start_date s]"
  using mail_part_result [of X f now start_date v s] assms by (auto simp: runs_def)

text \<open>\<open>report_error()\<close> when the settings are loaded, up to the span.\<close>

lemma contended_report_loaded:
  assumes "priorities_loaded s" and "f_error_report_low_priority s \<le> f_max_error_priority s"
    and "c 0 = ([], [])" and "contended_span X c (f_max_error_priority s) s = (Inr v, u)"
    and "f_cache_path s \<noteq> []" and "f_cache_path u = f_cache_path s"
  shows "contended_report X c now start_date s
    = mail_part X (f_cache_path s @ ''/last_email_time.txt'') now start_date v u"
proof -
  have "is_loaded Low_priority s" using assms(1) by (simp add: priorities_loaded_def)
  then have "contended X Low_priority (c 0) s = (Inr (f_error_report_low_priority s), s)"
    using assms(3) by (simp add: get_setting_hit del: get_setting.simps)
  then show ?thesis
    using assms(2,4-6)
    by (simp add: contended_report_def andthen_apply get_max_error_priority_def get_cache_path_def)
qed

text \<open>
  When no message comes between two reads and writes of the settings, the end of a run is the
  one that the steps of the daemon have.
\<close>

lemma quiet_reports_are_the_reports:
  "contended_after X (\<lambda>_. ([], [])) start_date end_date now = after_plugins X start_date end_date now"
  by (simp add: contended_after_def after_plugins_def contended_save_def save_data_def
      contended_report_quiet cong: if_cong)

text \<open>
  The same for the period and the settle time: the document goes to the first file of the ring,
  and no run is too quick for a report.
\<close>

lemma racing_period:
  assumes "is_loaded Statistics_period s" and "fst m = ''statistics-period''"
    and "get_server_parameter ''data_path'' s = data_path" and "data_path \<noteq> []"
  shows "runs (contended_save X ([], [m]) start_date) s
    = runs (write_all X (data_path @ ''/'' @ int_text 0 @ ''.json'') (x_json_text X (doc s))) (new_value m s)"
proof -
  have "contended X Statistics_period ([], [m]) s = (Inr (-1), new_value m s)"
    using assms(1,2) by (intro contended_hit) simp_all
  then show ?thesis
    using assms(3,4)
    by (simp add: contended_save_def andthen_apply data_date_def signed_modulo_int_def signed_divide_int_def
        new_value_rest write_all_apply runs_def)
qed

lemma racing_settle_time:
  "is_loaded Settle_time s \<Longrightarrow> fst m = ''error-report-settle-time'' \<Longrightarrow>
     contended X Settle_time ([], [m]) s = (Inr (-1), new_value m s)"
  by (intro contended_hit) simp_all

section \<open>The property\<close>

text \<open>A new critical priority, and a server that sent an email at the date 1000.\<close>

definition message0 :: message where
  "message0 = (''error-report-critical-priority'', \<lambda>_. True, \<lambda>_. ''x'')"

definition mailed0 :: server where
  "mailed0 = server0 ''/c''\<lparr>files := [''/c/last_email_time.txt'' \<mapsto> int_text 1000]\<rparr>"

lemma mailed0_fields:
  "f_cache_path mailed0 = ''/c''" "f_max_error_priority mailed0 = 100" "outbox mailed0 = []"
  "files mailed0 ''/c/last_email_time.txt'' = Some (int_text 1000)"
  "priorities_loaded mailed0" "f_error_report_low_priority mailed0 = 10"
  "span_for 100 mailed0 = Critical_span" "f_error_report_critical_span mailed0 = 86400"
  by (simp_all add: mailed0_def server0_def new_server_def priorities_loaded_def span_for_def)

text \<open>
  C6: a new value of the priority whose span \<^verbatim>\<open>report_error()\<close> is about to return, received inside of
  the getter, makes an email go out although one was sent less than a span ago: the getter reads
  -1, and no time is too early for it. Without that message the report is silent.
\<close>

theorem racing_message_sends_an_email:
  assumes "priorities_loaded s" and "f_error_report_low_priority s \<le> f_max_error_priority s"
    and "f_cache_path s \<noteq> []"
    and "files s (f_cache_path s @ ''/last_email_time.txt'') = Some text"
    and "x_integer X text 0 = (True, last_mail_date)" and "last_mail_date \<le> now"
    and "now - last_mail_date < peek (span_for (f_max_error_priority s) s) s"
    and "fst m \<in> cleared_by (span_for (f_max_error_priority s) s)"
    and "get_server_parameter ''from_email'' (new_value m s) \<noteq> []"
    and "get_server_parameter ''administrator_email'' (new_value m s) \<noteq> []"
  shows "runs (report_error X now start_date) s = s
    \<and> outbox (runs (contended_report X (message_at (span_read (span_for (f_max_error_priority s) s)) m)
          now start_date) s)
        = outbox s @ [error_email X start_date (new_value m s)]"
proof -
  let ?f = "f_cache_path s @ ''/last_email_time.txt''" and ?g = "span_for (f_max_error_priority s) s"
  have early: "too_early X (files s ?f) now (peek ?g s)" "\<not> too_early X (files s ?f) now (-1)"
    using assms(4-7) by (simp_all add: too_early_def)
  have silent: "runs (report_error X now start_date) s = s"
    using contended_report_loaded [OF assms(1,2) _ quiet_span [OF assms(1)] assms(3) refl, of X now start_date]
      early(1) by (simp add: contended_report_quiet mail_part_early runs_def)
  have c0: "message_at (span_read ?g) m 0 = ([], [])" by (cases ?g) (simp_all add: message_at_def)
  have "contended_report X (message_at (span_read ?g) m) now start_date s
      = mail_part X ?f now start_date (-1) (new_value m s)"
    by (rule contended_report_loaded [OF assms(1,2) c0 racing_span [OF assms(1,8)] assms(3)])
      (simp add: new_value_rest)
  with silent show ?thesis
    using mail_part_sends [OF _ assms(9,10), of X ?f now "-1" start_date] early(2)
    by (simp add: runs_def new_value_rest)
qed

theorem racing_message_sends_an_email_witness:
  "runs (report_error plain_host 1060 1000) mailed0 = mailed0
   \<and> outbox (runs (contended_report plain_host (message_at 3 message0) 1060 1000) mailed0)
      = [error_email plain_host 1000 (new_value message0 mailed0)]"
proof -
  have m: "get_server_parameter n (new_value message0 mailed0) = ''x''" for n
    by (simp add: message0_def new_value_def clear_cache_def get_server_parameter_def)
  have x: "x_integer plain_host (int_text 1000) 0 = (True, 1000)" by (simp add: plain_host_def)
  show ?thesis
    using racing_message_sends_an_email [of mailed0 "int_text 1000" plain_host 1000 1060 message0 1000] m x
    by (simp add: mailed0_fields) (simp add: message0_def)
qed

end
