(* ===== verification/Daemon_Use.thy ===== *)
theory Daemon_Use
  imports Daemon
begin

text \<open>
  What the daemon promises. The specification \<open>schedule\<close> is that of its two threads: ticks
  arrive and add up, one run at a time takes all of them, and nothing starts once the worker
  is told to stop or an exception went through it. The steps of the daemon implement it;
  the properties say that no tick is lost, that stopping always completes, what a run leaves in
  the counters and in the mailbox, and what an exception or a lost connection does.
\<close>

section \<open>The specification of the two threads\<close>

datatype schedule = Schedule (s_pending: int) (s_busy: bool) (s_open: bool)

inductive schedule_step :: "schedule \<Rightarrow> schedule \<Rightarrow> bool" where
  arrive: "schedule_step (Schedule n b True) (Schedule (n + 1) b True)"
| take_all: "0 < n \<Longrightarrow> schedule_step (Schedule n False True) (Schedule 0 True True)"
| complete: "schedule_step (Schedule n True q) (Schedule n False q)"
| shut: "schedule_step (Schedule n b True) (Schedule 0 (b \<and> c) False)"

definition is_open :: "daemon \<Rightarrow> bool" where
  "is_open d \<longleftrightarrow> d_continue d \<and> d_worker d \<noteq> Left"

definition is_busy :: "daemon \<Rightarrow> bool" where
  "is_busy d \<longleftrightarrow> d_worker d = Running \<or> d_worker d = Returned \<and> d_continue d"

definition schedule_of :: "daemon \<Rightarrow> schedule" where
  "schedule_of d = Schedule (if is_open d then w_ticks d else 0) (is_busy d) (is_open d)"

definition schedules :: "daemon \<Rightarrow> daemon \<Rightarrow> bool" where
  "schedules d d' \<longleftrightarrow> schedule_of d' = schedule_of d \<or> schedule_step (schedule_of d) (schedule_of d')"

lemma schedulesI:
  "schedule_of d' = schedule_of d \<Longrightarrow> schedules d d'"
  "is_open d \<Longrightarrow> is_open d' \<Longrightarrow> w_ticks d' = w_ticks d + 1 \<Longrightarrow> is_busy d' = is_busy d \<Longrightarrow> schedules d d'"
  "is_open d \<Longrightarrow> is_open d' \<Longrightarrow> 0 < w_ticks d \<Longrightarrow> w_ticks d' = 0 \<Longrightarrow> \<not> is_busy d \<Longrightarrow> is_busy d' \<Longrightarrow> schedules d d'"
  "is_open d' = is_open d \<Longrightarrow> w_ticks d' = w_ticks d \<Longrightarrow> is_busy d \<Longrightarrow> \<not> is_busy d' \<Longrightarrow> schedules d d'"
  "is_open d \<Longrightarrow> \<not> is_open d' \<Longrightarrow> (is_busy d' \<Longrightarrow> is_busy d) \<Longrightarrow> schedules d d'"
  using schedule_step.arrive schedule_step.take_all schedule_step.complete
    schedule_step.shut [of "w_ticks d" "is_busy d" "is_busy d'"]
  by (auto simp: schedules_def schedule_of_def cong: conj_cong) (cases "is_busy d"; cases "is_busy d'"; simp)+

lemma process_timeout_rest:
  "w_ticks (process_timeout X d) = w_ticks d + 1" "d_worker (process_timeout X d) = signalled (d_worker d)"
  "d_continue (process_timeout X d) = d_continue d" "d_main (process_timeout X d) = d_main d"
  "t_enabled (process_timeout X d) = t_enabled d" "d_ended (process_timeout X d) = d_ended d"
  by (simp_all add: process_timeout_def process_tick_def tick_def Let_def split: prod.split sum.split)

lemma schedule_of_rest:
  "schedule_of (d\<lparr>d_server := s\<rparr>) = schedule_of d" "schedule_of (d\<lparr>t_enabled := b\<rparr>) = schedule_of d"
  "schedule_of (d\<lparr>d_main := m\<rparr>) = schedule_of d" "schedule_of (d\<lparr>t_delay := v\<rparr>) = schedule_of d"
  "schedule_of (end_stop d) = schedule_of d" "schedule_of (thread_ended d) = schedule_of d"
  by (simp_all add: schedule_of_def is_open_def is_busy_def thread_ended_def)

lemma begin_stop_schedules:
  assumes "d_main d = Polling" and "safe d"
  shows "schedules d (begin_stop d)"
proof (cases "d_worker d = Left")
  case True
  then show ?thesis
    by (intro schedulesI(1))
      (simp add: begin_stop_def Let_def schedule_of_rest, simp add: schedule_of_def is_open_def is_busy_def)
next
  case False
  then show ?thesis using assms
    by (intro schedulesI(5)) (auto simp: begin_stop_def Let_def is_open_def is_busy_def safe_def)
qed

lemma step_schedules:
  assumes "step X d e d'" and "safe d"
  shows "schedules d d'"
  using assms(1)
proof (cases rule: step.cases)
  case (settings st name od os)
  then show ?thesis
    by (intro schedulesI(1)) (simp add: fluid_settings_changed_def fluid_ready_def schedule_of_rest Let_def
        split: fluid_status.split)
next
  case timeout
  have s: "signalled w = Left \<longleftrightarrow> w = Left" "signalled w = Running \<longleftrightarrow> w = Running"
    "signalled w = Returned \<longleftrightarrow> w = Returned" for w
    by (cases w; simp add: signalled_def)+
  show ?thesis
  proof (cases "is_open d")
    case True
    then show ?thesis
      using timeout by (intro schedulesI(2)) (simp_all add: is_open_def is_busy_def process_timeout_rest s)
  next
    case False
    then show ?thesis
      using timeout by (intro schedulesI(1)) (auto simp: schedule_of_def is_open_def is_busy_def process_timeout_rest s)
  qed
next
  case (ready now)
  then show ?thesis by (intro schedulesI(1)) (simp add: server_ready_def schedule_of_rest)
next
  case (rusage msg now)
  then show ?thesis by (intro schedulesI(1)) (simp add: receive_rusage_def schedule_of_rest)
next
  case stop_message
  then show ?thesis using begin_stop_schedules assms(2) by simp
next
  case interrupt
  then show ?thesis using begin_stop_schedules assms(2) by (simp add: process_signal_def)
next
  case thread_done
  then show ?thesis using begin_stop_schedules assms(2) by (simp add: process_read_def)
next
  case wakeup
  then show ?thesis using assms(2)
    by (intro schedulesI(1)) (auto simp: wakeup_def schedule_of_def is_open_def is_busy_def safe_def signalled_def)
next
  case join
  then show ?thesis by (intro schedulesI(1)) (simp add: schedule_of_rest)
next
  case ended
  then show ?thesis by (intro schedulesI(1)) (simp add: schedule_of_rest)
next
  case loop_head
  then show ?thesis
    by (intro schedulesI(1)) (simp add: loop_head_def schedule_of_def is_open_def is_busy_def)
next
  case wait
  have "0 \<le> w_ticks d" using assms(2) by (simp add: safe_def)
  then consider "d_continue d" "0 < w_ticks d" | "d_continue d" "w_ticks d = 0" | "\<not> d_continue d"
    by linarith
  then show ?thesis
  proof cases
    case 1
    then show ?thesis using wait
      by (intro schedulesI(3)) (simp_all add: wait_next_tick_def is_open_def is_busy_def)
  qed (use wait in \<open>auto intro!: schedulesI(1) simp: wait_next_tick_def schedule_of_def is_open_def is_busy_def\<close>)
next
  case (after_wait start_date)
  then show ?thesis
    by (intro schedulesI(1)) (simp add: after_wait_def schedule_of_def is_open_def is_busy_def)
next
  case (run_plugin h)
  have b: "is_busy d" using run_plugin by (simp add: is_busy_def)
  consider "d_worker d' = Running" | "d_worker d' = Left"
    using run_plugin_worker [OF run_plugin(4), of h] run_plugin by auto
  then show ?thesis
  proof cases
    case 1
    then show ?thesis using run_plugin
      by (intro schedulesI(1)) (simp add: schedule_of_def is_open_def is_busy_def run_plugin_rest)
  next
    case 2
    show ?thesis
    proof (cases "is_open d")
      case True
      then show ?thesis using b 2 by (intro schedulesI(5)) (auto simp: is_open_def is_busy_def)
    next
      case False
      then show ?thesis using b 2 run_plugin
        by (intro schedulesI(4)) (auto simp: is_open_def is_busy_def run_plugin_rest)
    qed
  qed
next
  case (finish e n)
  have busy: "is_busy d" "\<not> is_busy d'"
    using finish finish_run_worker [of X e n d] by (auto simp: is_busy_def)
  show ?thesis
  proof (cases "is_open d' = is_open d")
    case True
    then show ?thesis using busy finish by (intro schedulesI(4)) (simp_all add: finish_run_rest)
  next
    case False
    then show ?thesis using busy finish
      by (intro schedulesI(5)) (auto simp: is_open_def finish_run_rest)
  qed
qed

section \<open>What a run leaves behind\<close>

text \<open>A plugin that raises makes the whole run raise.\<close>

lemma for_each_raises:
  assumes "x \<in> set xs" and "\<And>s. isl (fst (f x s))"
  shows "isl (fst (for_each f xs s))"
  using assms(1)
proof (induction xs arbitrary: s)
  case (Cons y ys)
  show ?case
  proof (cases "f y s")
    case (Pair r u)
    then show ?thesis
      using Cons assms(2) [of s] by (cases r) (auto simp: andthen_apply)
  qed
qed simp

definition flag_too_high :: "host \<Rightarrow> bool" where
  "flag_too_high h \<longleftrightarrow> list_ex (\<lambda>f. 100 < fl_priority f) (h_flags h)"

lemma flags_plugin_raises:
  assumes "flag_too_high h"
  shows "isl (fst (process_watch (loaded_plugins h [''flags'']) json w))"
proof -
  let ?p = "\<lambda>json. on_snd (flags_watch (h_flags h) json) :: (objects \<times> server, unit) act"
  have "plugin_named h ''flags'' = Some ?p" by (simp add: plugin_named_def Let_def)
  then have m: "loaded_plugins h [''flags''] = [?p]" by (simp add: loaded_plugins_def List.map_filter_def)
  have ne: "h_flags h \<noteq> []" using assms by (auto simp: flag_too_high_def)
  have "isl (fst (flags_watch (h_flags h) json s))" for s
    using flags_watch_reports [OF ne, of json s] assms by (auto simp: flag_too_high_def list_ex_iff)
  then have "isl (fst (?p json w))" by (cases w) (simp add: on_snd_apply)
  then show ?thesis
    by (cases "?p json w") (auto simp: m process_watch_def andthen_apply split: sum.splits)
qed

lemma raising_plugin:
  assumes "d_todo d = ''flags'' # names" and "flag_too_high h"
  shows "d_worker (run_plugin h d) = Left"
proof -
  obtain e p s where w: "process_watch (loaded_plugins h [''flags'']) [Key ''sitter'']
      (d_objects d, d_server d) = (Inl e, (p, s))"
    using flags_plugin_raises [OF assms(2), of "[Key ''sitter'']" "(d_objects d, d_server d)"]
    by (metis isl_def prod.collapse)
  from run_plugin_watched [OF assms(1) w] show ?thesis by (simp add: watched_def)
qed

section \<open>What the steps do to the errors, the emails and the exit code\<close>

definition reports_more :: "server \<Rightarrow> server \<Rightarrow> bool" where
  "reports_more s t \<longleftrightarrow> (\<exists>l. logged t = logged s @ l \<and> f_error_count t = f_error_count s + int (length l)
     \<and> f_max_error_priority t = worst_of (f_max_error_priority s) l)"

lemma reports_more_same:
  "logged t = logged s \<Longrightarrow> f_error_count t = f_error_count s \<Longrightarrow> f_max_error_priority t = f_max_error_priority s
     \<Longrightarrow> reports_more s t"
  by (simp add: reports_more_def)

lemma reports_more_trans:
  assumes "reports_more s t" and "reports_more t u"
  shows "reports_more s u"
proof -
  obtain l k where "logged t = logged s @ l" "f_error_count t = f_error_count s + int (length l)"
    "f_max_error_priority t = worst_of (f_max_error_priority s) l"
    "logged u = logged t @ k" "f_error_count u = f_error_count t + int (length k)"
    "f_max_error_priority u = worst_of (f_max_error_priority t) k"
    using assms by (auto simp: reports_more_def)
  then show ?thesis by (auto simp: reports_more_def worst_of_append intro!: exI [of _ "l @ k"])
qed

fun is_start :: "event \<Rightarrow> bool" where
  "is_start (After_wait t) = True"
| "is_start e = False"

fun is_finish :: "event \<Rightarrow> bool" where
  "is_finish (Finish e n) = True"
| "is_finish e = False"

lemma clear_cache_rest:
  "f_communicatord_connected (clear_cache n s) = f_communicatord_connected s"
  "f_communicatord_disconnected (clear_cache n s) = f_communicatord_disconnected s"
  "logged (clear_cache n s) = logged s" "f_error_count (clear_cache n s) = f_error_count s"
  "f_max_error_priority (clear_cache n s) = f_max_error_priority s" "outbox (clear_cache n s) = outbox s"
  "f_force_restart (clear_cache n s) = f_force_restart s"
  by (simp_all add: clear_cache_def)

text \<open>The server after a step: what the main thread and the worker leave as it was.\<close>

lemma step_server:
  assumes "step X d e d'" and "integer_keeps X" and "safe d"
  shows "\<not> is_start e \<Longrightarrow> reports_more (d_server d) (d_server d') \<and> d_start d' = d_start d"
    and "\<not> is_finish e \<Longrightarrow> outbox (d_server d') = outbox (d_server d)"
    and "f_force_restart (d_server d') = f_force_restart (d_server d)"
proof -
  have "settings_ok (d_server d)" using assms(3) by (simp add: safe_def)
  note fin = finish_run_server [OF assms(2) this] and tim = timeout_result [OF this, of X]
  have "(\<not> is_start e \<longrightarrow> reports_more (d_server d) (d_server d') \<and> d_start d' = d_start d)
    \<and> (\<not> is_finish e \<longrightarrow> outbox (d_server d') = outbox (d_server d))
    \<and> f_force_restart (d_server d') = f_force_restart (d_server d)"
    using assms(1)
  proof (cases rule: step.cases)
    case (settings st name od os)
    then show ?thesis by (cases st) (simp_all add: operation_defs clear_cache_rest reports_more_same)
  next
    case timeout
    obtain v where "process_timeout X d =
       d\<lparr>w_ticks := w_ticks d + 1, d_worker := signalled (d_worker d),
         d_server := (d_server d)\<lparr>f_statistics_frequency := v\<rparr>, t_delay := v * 1000000\<rparr>"
      using tim by blast
    then show ?thesis using timeout by (simp add: reports_more_same)
  next
    case (rusage msg now)
    obtain fs where "runs (msg_rusage X msg now) (d_server d) = (d_server d)\<lparr>files := fs\<rparr>"
      using record_usage_files by blast
    then show ?thesis using rusage by (simp add: receive_rusage_def reports_more_same)
  next
    case (run_plugin h)
    then show ?thesis using run_plugin_server(1,4,7) [of h d] by (simp add: reports_more_def run_plugin_rest)
  next
    case (finish e n)
    then show ?thesis using fin by (simp add: reports_more_same finish_run_rest)
  qed (auto simp: operation_defs opened_kept reports_more_same)
  then show "\<not> is_start e \<Longrightarrow> reports_more (d_server d) (d_server d') \<and> d_start d' = d_start d"
    and "\<not> is_finish e \<Longrightarrow> outbox (d_server d') = outbox (d_server d)"
    and "f_force_restart (d_server d') = f_force_restart (d_server d)" by blast+
qed

section \<open>Histories\<close>

lemma started_safe: "settings_ok s \<Longrightarrow> integer_keeps X \<Longrightarrow> history X (new_daemon p names s) es d \<Longrightarrow> safe d"
  using history_safe new_daemon_safe by blast

text \<open>The connection dates only change with a \<open>Ready\<close> step.\<close>

fun ready_after :: "int \<Rightarrow> event \<Rightarrow> bool" where
  "ready_after n (Ready now) = (n < now)"
| "ready_after n e = True"

lemma step_dates:
  assumes "step X d e d'" and "integer_keeps X" and "safe d" and "ready_after (f_communicatord_disconnected (d_server d)) e"
  shows "f_communicatord_disconnected (d_server d') = f_communicatord_disconnected (d_server d)
    \<and> (get_communicatord_is_connected (d_server d) \<longrightarrow> get_communicatord_is_connected (d_server d'))"
  using assms(1)
proof (cases rule: step.cases)
  case timeout
  have "settings_ok (d_server d)" using assms(3) by (simp add: safe_def)
  then obtain v where "process_timeout X d =
     d\<lparr>w_ticks := w_ticks d + 1, d_worker := signalled (d_worker d),
       d_server := (d_server d)\<lparr>f_statistics_frequency := v\<rparr>, t_delay := v * 1000000\<rparr>"
    using timeout_result by blast
  then show ?thesis using timeout by (simp add: get_communicatord_is_connected_def)
next
  case (rusage msg now)
  obtain fs where "runs (msg_rusage X msg now) (d_server d) = (d_server d)\<lparr>files := fs\<rparr>"
    using record_usage_files by blast
  then show ?thesis using rusage by (simp add: receive_rusage_def get_communicatord_is_connected_def)
next
  case (run_plugin h)
  then show ?thesis using run_plugin_server(5,6) [of h d] by (simp add: get_communicatord_is_connected_def)
next
  case (finish e n)
  have "settings_ok (d_server d)" using assms(3) by (simp add: safe_def)
  from finish_run_server(5,6) [OF assms(2) this] show ?thesis
    using finish by (simp add: get_communicatord_is_connected_def)
next
  case (settings st name od os)
  then show ?thesis
    by (cases st) (simp_all add: operation_defs clear_cache_rest get_communicatord_is_connected_def)
qed (use assms(4) in \<open>auto simp: operation_defs opened_kept get_communicatord_is_connected_def\<close>)

lemma history_restart:
  "history X d es d' \<Longrightarrow> integer_keeps X \<Longrightarrow> safe d
     \<Longrightarrow> f_force_restart (d_server d') = f_force_restart (d_server d)"
proof (induction es arbitrary: d)
  case (Cons e es)
  obtain u where u: "step X d e u" "history X u es d'" using Cons.prems(1) by auto
  show ?case
    using Cons.IH [OF u(2) Cons.prems(2) step_safe [OF u(1) Cons.prems(2,3)]]
      step_server(3) [OF u(1) Cons.prems(2,3)] by simp
qed simp

lemma reports_more_refl: "reports_more s s"
  by (simp add: reports_more_same)

lemma history_reports:
  assumes "history X d es d'" and "integer_keeps X" and "safe d" and "\<not> list_ex is_start es"
  shows "reports_more (d_server d) (d_server d') \<and> d_start d' = d_start d"
  using assms(1,3,4)
proof (induction es arbitrary: d)
  case Nil
  then show ?case by (simp add: reports_more_refl)
next
  case (Cons e es)
  obtain u where u: "step X d e u" "history X u es d'" using Cons.prems(1) by auto
  have "reports_more (d_server d) (d_server u) \<and> d_start u = d_start d"
    using step_server(1) [OF u(1) assms(2) Cons.prems(2)] Cons.prems(3) by simp
  moreover have "reports_more (d_server u) (d_server d') \<and> d_start d' = d_start u"
    using Cons.IH [OF u(2) step_safe [OF u(1) assms(2) Cons.prems(2)]] Cons.prems(3) by simp
  ultimately show ?case using reports_more_trans by auto
qed

lemma history_silent:
  assumes "history X d es d'" and "integer_keeps X" and "safe d" and "\<not> list_ex is_finish es"
  shows "outbox (d_server d') = outbox (d_server d)"
  using assms(1,3,4)
proof (induction es arbitrary: d)
  case (Cons e es)
  obtain u where u: "step X d e u" "history X u es d'" using Cons.prems(1) by auto
  show ?case
    using Cons.IH [OF u(2) step_safe [OF u(1) assms(2) Cons.prems(2)]] Cons.prems(3)
      step_server(2) [OF u(1) assms(2) Cons.prems(2)] by simp
qed simp

section \<open>Properties\<close>

definition process0 :: process where
  "process0 = \<lparr>sigalrm = Saved 0, pending = 0\<rparr>"

definition started0 :: daemon where
  "started0 = new_daemon process0 [''memory'', ''flags''] (new_server (\<lambda>_. True) (\<lambda>_. ''300'') 5)"

text \<open>The timer is enabled, two ticks arrive, the worker takes them.\<close>

definition ticked0 :: daemon where
  "ticked0 = process_timeout plain_host (process_timeout plain_host
     (fluid_settings_changed Status_ready [] (\<lambda>_. True) (\<lambda>_. ''300'') started0))"

lemma ticked0_fields:
  "d_main ticked0 = Polling" "d_worker ticked0 = In_loop" "d_continue ticked0" "w_ticks ticked0 = 2"
  "\<not> d_ended ticked0"
  by (simp_all add: ticked0_def process_timeout_rest started0_def new_daemon_def fluid_settings_changed_def
      fluid_ready_def signalled_def)

lemma ticked0_history:
  "history plain_host started0 [Settings Status_ready [] (\<lambda>_. True) (\<lambda>_. ''300''), Timeout, Timeout] ticked0"
  by (simp add: step_simps ticked0_def process_timeout_rest started0_def new_daemon_def
      fluid_settings_changed_def fluid_ready_def)

lemma taken0_history:
  "history plain_host started0 ([Settings Status_ready [] (\<lambda>_. True) (\<lambda>_. ''300''), Timeout, Timeout] @ [Loop_head, Wait])
     (wait_next_tick (loop_head ticked0))"
  unfolding history_append using ticked0_history
  by (auto simp: step_simps ticked0_fields loop_head_def)

lemma started0_safe: "safe started0"
  by (simp add: started0_def new_daemon_safe)

text \<open>
  C1: every step of the daemon, from any state it can reach, is one of the specification
  \<open>schedule\<close> or leaves it as it is: a tick adds one to those pending, a run takes all of
  them and is alone, and nothing is pending nor starts once the worker is stopped or gone.
\<close>

theorem daemon_implements_schedule:
  assumes "settings_ok s" and "integer_keeps X" and "history X (new_daemon p names s) es d"
    and "step X d e d'"
  shows "schedule_of d' = schedule_of d \<or> schedule_step (schedule_of d) (schedule_of d')"
  using step_schedules [OF assms(4) started_safe [OF assms(1-3)]] by (simp add: schedules_def)

theorem daemon_implements_schedule_witness:
  "schedule_step (schedule_of (loop_head ticked0)) (schedule_of (wait_next_tick (loop_head ticked0)))"
proof -
  have h: "history plain_host (new_daemon process0 [''memory'', ''flags''] (new_server (\<lambda>_. True) (\<lambda>_. ''300'') 5))
      ([Settings Status_ready [] (\<lambda>_. True) (\<lambda>_. ''300''), Timeout, Timeout] @ [Loop_head]) (loop_head ticked0)"
    using ticked0_history unfolding history_append started0_def by (auto simp: step_simps ticked0_fields)
  have s: "step plain_host (loop_head ticked0) Wait (wait_next_tick (loop_head ticked0))"
    by (simp add: step_simps loop_head_def ticked0_fields)
  have "schedule_of (wait_next_tick (loop_head ticked0)) \<noteq> schedule_of (loop_head ticked0)"
    by (simp add: schedule_of_def is_open_def is_busy_def wait_next_tick_def loop_head_def ticked0_fields)
  with daemon_implements_schedule [OF _ plain_host_keeps h s] show ?thesis by simp
qed

text \<open>
  C2: no tick is lost: as long as the worker is not told to stop, the ticks handed to the
  plugins and those still pending add up to the time outs of the timer, and the worker never
  sleeps while a tick is pending.
\<close>

theorem no_tick_is_lost:
  assumes "settings_ok s" and "integer_keeps X" and "history X (new_daemon p names s) es d" and "d_continue d"
  shows "(\<exists>n. hands_over X (new_daemon p names s) es n d \<and> n + w_ticks d = timeouts es)
    \<and> (d_worker d = Blocked \<longrightarrow> w_ticks d = 0)"
proof -
  obtain n where n: "hands_over X (new_daemon p names s) es n d" using hands_over_exists [OF assms(3)] by blast
  have "w_ticks (new_daemon p names s) = 0" by (simp add: new_daemon_def)
  with ticks_balance [OF n assms(4) new_daemon_safe [OF assms(1)] assms(2)] n
    started_safe [OF assms(1-3)] show ?thesis by (auto simp: safe_def)
qed

theorem no_tick_is_lost_witness:
  "\<exists>n. hands_over plain_host started0 ([Settings Status_ready [] (\<lambda>_. True) (\<lambda>_. ''300''), Timeout, Timeout] @ [Loop_head, Wait]) n
       (wait_next_tick (loop_head ticked0)) \<and> n = 2"
proof -
  have c: "d_continue (wait_next_tick (loop_head ticked0))" "w_ticks (wait_next_tick (loop_head ticked0)) = 0"
    by (simp_all add: wait_next_tick_def loop_head_def ticked0_fields)
  from no_tick_is_lost [OF _ plain_host_keeps taken0_history [unfolded started0_def] c(1)] c(2)
  show ?thesis by (simp add: started0_def)
qed

text \<open>
  C3: once \<^verbatim>\<open>stop()\<close> told the worker to stop, at most six more steps are possible besides the
  plugins left in the run, no run starts, the daemon cannot be stuck before it is out of \<^verbatim>\<open>stop()\<close>
  with the thread ended and no connection left in the event loop, and \<^verbatim>\<open>main()\<close> then returns 0,
  since nothing ever asks for a restart.
\<close>

theorem stop_always_completes:
  fixes h :: host
  assumes "settings_ok s" and "integer_keeps X" and "history X (new_daemon p names s) es d"
    and "d_main d = Flagged \<or> d_main d = Joining"
    and "history X d fs d'" and "h_ext h = X"
  shows "length fs \<le> 6 + length (d_todo d)
    \<and> (d_main d' = Stopped \<and> d_ended d' \<and> d_connections d' = [] \<or> (\<exists>e u. step X d' e u))
    \<and> (d_worker d = Running \<or> \<not> list_ex is_run fs)
    \<and> sitter_main (Runs d') = (if f_force_restart s then 2 else 0)"
proof -
  have safe: "safe d" using started_safe [OF assms(1-3)] .
  have safe': "safe d'" using history_safe [OF assms(5,2) safe] .
  have rank: "stop_rank d \<le> 6 + length (d_todo d)"
    using worker_rank_3 [of "d_worker d"] assms(4) by (auto simp: stop_rank_def)
  have len: "length fs + stop_rank d' \<le> stop_rank d" "d_main d' \<noteq> Polling"
    using stopping_history [OF assms(5,2) safe] assms(4) by auto
  have runs: "d_worker d = Running \<or> \<not> list_ex is_run fs"
    using no_run_history [OF assms(5)] safe assms(4) by (auto simp: no_run_def safe_def)
  have prog: "d_main d' = Stopped \<and> d_ended d' \<and> d_connections d' = [] \<or> (\<exists>e u. step X d' e u)"
    using stopping_progress [OF safe' _ assms(6)] safe' len(2)
    by (cases "d_main d'") (auto simp: safe_def)
  have "f_force_restart (d_server d') = f_force_restart s"
    using history_restart [OF assms(3,2) new_daemon_safe [OF assms(1)]] history_restart [OF assms(5,2) safe]
    by (simp add: new_daemon_def)
  then show ?thesis using len(1) rank runs prog by (simp add: sitter_main_def exit_code_def)
qed

definition host0 :: host where
  "host0 = \<lparr>h_ext = plain_host, h_now = 0, h_cpu = \<lparr>ce_now = 0, ce_concurrency = 1, ce_freq = 100,
       ce_proc = \<lambda>_. None, ce_cpu = []\<rparr>, h_tokens = \<lambda>_. [], h_meminfo = None, h_reboot_required = False,
     h_duration_text = \<lambda>_. [], h_communicatord = None, h_ipwall = None, h_nanoseconds = 0,
     h_manager_cache = None, h_flags = [flag0 120], h_ratio_text = \<lambda>_. [], h_mounts = [],
     h_date_text = \<lambda>_ _. [], h_certificates = \<lambda>_. None, h_users = users0, h_log_confs = \<lambda>_. [],
     h_log_fs = \<lparr>fs_glob = \<lambda>_. [], fs_stat = \<lambda>_. None\<rparr>, h_package_confs = \<lambda>_. [], h_dpkg = \<lambda>_. (0, []),
     h_proc_env = env1, h_process_confs = \<lambda>_. [], h_processes = [],
     h_header = \<lparr>he_version = [], he_my_address = [], he_addresses = None\<rparr>, h_scripts = results0,
     h_script_files = \<lambda>_. [], h_clock = \<lambda>_. 0\<rparr>"

lemma stopped0_history:
  "history plain_host started0 ([Settings Status_ready [] (\<lambda>_. True) (\<lambda>_. ''300''), Timeout, Timeout] @ [Loop_head, Wait, Stop_message])
     (begin_stop (wait_next_tick (loop_head ticked0)))"
  unfolding history_append using ticked0_history
  by (auto simp: step_simps ticked0_fields loop_head_def wait_next_tick_def)

lemma stopped0_fields:
  "d_main (begin_stop (wait_next_tick (loop_head ticked0))) = Flagged"
  "d_worker (begin_stop (wait_next_tick (loop_head ticked0))) = Returned"
  by (simp_all add: begin_stop_def Let_def wait_next_tick_def loop_head_def ticked0_fields)

theorem stop_always_completes_witness:
  "\<exists>e u. step plain_host (after_wait 7 (begin_stop (wait_next_tick (loop_head ticked0)))) e u"
proof -
  have h: "history plain_host (begin_stop (wait_next_tick (loop_head ticked0))) [After_wait 7]
      (after_wait 7 (begin_stop (wait_next_tick (loop_head ticked0))))"
    by (simp add: step_simps stopped0_fields)
  have m: "d_main (after_wait 7 (begin_stop (wait_next_tick (loop_head ticked0)))) = Flagged"
    by (simp add: after_wait_def stopped0_fields)
  have x: "h_ext host0 = plain_host" by (simp add: host0_def)
  from stop_always_completes [OF _ plain_host_keeps stopped0_history [unfolded started0_def]
      disjI1 [OF stopped0_fields(1)] h x] m
  show ?thesis by auto
qed

text \<open>
  C13: when a flag of more than 100 is raised, the flags plugin raises in its turn: the worker
  leaves, no plugin is ever called again and no email ever sent, and all that the daemon can do
  is to stop.
\<close>

theorem high_flag_ends_the_checks:
  assumes "settings_ok s" and "integer_keeps X" and "history X (new_daemon p names s) es d"
    and "step X d (Plugin h) u" and "d_todo d = ''flags'' # ns" and "flag_too_high h"
    and "history X u fs v"
  shows "d_worker v = Left \<and> \<not> list_ex is_run fs \<and> outbox (d_server v) = outbox (d_server d)
    \<and> (d_main v = Polling \<longrightarrow> step X v Thread_done (process_read v) \<and> d_main (process_read v) \<in> {Flagged, Stopped})"
proof -
  have safe: "safe d" using started_safe [OF assms(1-3)] .
  have u: "u = run_plugin h d" using assms(4) by (simp add: step_simps)
  have left: "d_worker u = Left" using raising_plugin [OF assms(5,6)] u by simp
  have v: "d_worker v = Left"
    using history_invariant [of X "\<lambda>d. d_worker d = Left" u fs v] step_leaves_left assms(7) left by blast
  have no: "\<not> list_ex is_run fs" using no_run_history [OF assms(7)] left by (simp add: no_run_def)
  have "is_finish e \<Longrightarrow> is_run e" for e by (cases e) simp_all
  then have "\<not> list_ex is_finish fs" using no by (auto simp: list_ex_iff)
  from history_silent [OF assms(7,2) step_safe [OF assms(4,2) safe] this] step_server(2) [OF assms(4,2) safe]
  have "outbox (d_server v) = outbox (d_server d)" by simp
  then show ?thesis using v no by (simp add: step_simps process_read_def begin_stop_def Let_def)
qed

text \<open>A run that is at the flags plugin, one of the flags being too high.\<close>

definition running0 :: daemon where
  "running0 = after_wait 100 (wait_next_tick (loop_head ticked0))"

lemma running0_fields:
  "d_main running0 = Polling" "d_worker running0 = Running" "d_continue running0"
  "d_todo running0 = [''memory'', ''flags'']" "d_start running0 = 100" "d_plugins ticked0 = [''memory'', ''flags'']"
proof -
  have pl: "d_plugins (process_timeout X d) = d_plugins d" for X d
    by (simp add: process_timeout_def process_tick_def tick_def Let_def split: prod.split sum.split)
  show p: "d_plugins ticked0 = [''memory'', ''flags'']"
    by (simp add: ticked0_def pl fluid_settings_changed_def fluid_ready_def started0_def new_daemon_def)
  show "d_main running0 = Polling" "d_worker running0 = Running" "d_continue running0"
    "d_todo running0 = [''memory'', ''flags'']" "d_start running0 = 100"
    by (simp_all add: running0_def after_wait_def wait_next_tick_def loop_head_def ticked0_fields p)
qed

lemma taking0_fields:
  "d_worker (wait_next_tick (loop_head ticked0)) = Returned" "d_continue (wait_next_tick (loop_head ticked0))"
  by (simp_all add: wait_next_tick_def loop_head_def ticked0_fields)

lemma running0_history:
  "history plain_host started0 ([Settings Status_ready [] (\<lambda>_. True) (\<lambda>_. ''300''), Timeout, Timeout] @ [Loop_head, Wait, After_wait 100])
     running0"
  unfolding history_append using ticked0_history
  by (auto simp: step_simps ticked0_fields loop_head_def wait_next_tick_def running0_def)

lemma memory0:
  assumes "h_tokens h = (\<lambda>_. [])" and "h_meminfo h = None"
  shows "d_todo (run_plugin h running0) = [''flags'']" "d_worker (run_plugin h running0) = Running"
    "d_main (run_plugin h running0) = Polling"
proof -
  show "d_todo (run_plugin h running0) = [''flags'']" "d_main (run_plugin h running0) = Polling"
    by (simp_all add: run_plugin_rest running0_fields)
  have "get_meminfo (\<lambda>_. []) None = Inr no_meminfo" by (simp add: get_meminfo_def)
  from memory_watch_returns [OF this, of "[Key ''sitter'']" "d_server running0"] obtain t where
    t: "memory_watch (\<lambda>_. []) None [Key ''sitter''] (d_server running0) = (Inr (), t)" by blast
  have "plugin_named h ''memory'' = Some (\<lambda>json. on_snd (memory_watch (\<lambda>_. []) None json))"
    by (simp add: plugin_named_def Let_def assms)
  then have "process_watch (loaded_plugins h [''memory'']) [Key ''sitter''] (d_objects running0, d_server running0)
      = (Inr (), (d_objects running0, t))"
    by (simp add: loaded_plugins_def List.map_filter_def process_watch_def andthen_apply on_snd_apply t)
  from run_plugin_watched [OF running0_fields(4) this] show "d_worker (run_plugin h running0) = Running"
    by (simp add: watched_def)
qed

lemma memory0_host0:
  "d_todo (run_plugin host0 running0) = [''flags'']" "d_worker (run_plugin host0 running0) = Running"
  by (simp_all add: memory0 host0_def)

theorem high_flag_ends_the_checks_witness:
  "d_worker (run_plugin host0 (run_plugin host0 running0)) = Left"
proof -
  have x: "h_ext host0 = plain_host" by (simp add: host0_def)
  have h: "history plain_host started0 (([Settings Status_ready [] (\<lambda>_. True) (\<lambda>_. ''300''), Timeout, Timeout]
      @ [Loop_head, Wait, After_wait 100]) @ [Plugin host0]) (run_plugin host0 running0)"
    unfolding history_append [of _ _ _ "[Plugin host0]"] using running0_history
    by (auto simp: step_simps running0_fields x)
  have s: "step plain_host (run_plugin host0 running0) (Plugin host0) (run_plugin host0 (run_plugin host0 running0))"
    by (simp add: step_simps memory0_host0 x)
  have f: "flag_too_high host0" by (simp add: flag_too_high_def host0_def flag0_def)
  show ?thesis
    using high_flag_ends_the_checks [OF _ plain_host_keeps h [unfolded started0_def] s memory0_host0(1) f, of "[]"] by simp
qed

text \<open>
  C30: once the daemon is connected to the communicatord it says so for ever, with any sequence
  of events and a clock that advances: no event ever records a lost connection, which is what
  the network plugin looks for.
\<close>

theorem lost_connections_are_never_seen:
  assumes "settings_ok s" and "integer_keeps X" and "history X (new_daemon p names s) es d"
    and "get_communicatord_is_connected (d_server d)" and "history X d fs d'"
    and "list_all (ready_after (f_communicatord_disconnected (d_server d))) fs"
  shows "get_communicatord_is_connected (d_server d')"
proof -
  have "safe d" using started_safe [OF assms(1-3)] .
  then show ?thesis using assms(4-6)
  proof (induction fs arbitrary: d)
    case Nil
    then show ?case by simp
  next
    case (Cons e fs)
    obtain u where u: "step X d e u" "history X u fs d'" using Cons.prems(3) by auto
    show ?case
      using Cons.IH [OF step_safe [OF u(1) assms(2) Cons.prems(1)] _ u(2)] Cons.prems(2,4)
        step_dates [OF u(1) assms(2) Cons.prems(1)] by simp
  qed
qed

theorem lost_connections_are_never_seen_witness:
  "get_communicatord_is_connected (d_server (loop_head (server_ready 9 started0)))"
proof -
  have h: "history plain_host (new_daemon process0 [''memory'', ''flags''] (new_server (\<lambda>_. True) (\<lambda>_. ''300'') 5)) [Ready 9] (server_ready 9 started0)"
    by (simp add: step_simps started0_def) (simp add: new_daemon_def)
  have c: "get_communicatord_is_connected (d_server (server_ready 9 started0))"
    by (simp add: server_ready_def started0_def new_daemon_def new_server_def set_communicatord_connected_def
        get_communicatord_is_connected_def)
  have f: "history plain_host (server_ready 9 started0) [Loop_head] (loop_head (server_ready 9 started0))"
    by (simp add: step_simps) (simp add: server_ready_def started0_def new_daemon_def)
  show ?thesis
    using lost_connections_are_never_seen [OF _ plain_host_keeps h c f] by simp
qed



text \<open>
  C7: from the start of a run to the start of the next one, whatever messages come between, the
  error count is the number of errors reported since that start and the maximum priority the
  greatest of theirs, 0 with none.
\<close>

theorem run_counts_its_own_errors:
  assumes "settings_ok s" and "integer_keeps X" and "history X (new_daemon p names s) es d"
    and "step X d (After_wait start_date) u" and "d_continue d"
    and "history X u fs v" and "\<not> list_ex is_start fs"
  shows "\<exists>l. logged (d_server v) = logged (d_server d) @ l
    \<and> get_error_count (d_server v) = int (length l)
    \<and> get_max_error_priority (d_server v) = fold max (map (snd \<circ> snd) l) 0"
proof -
  have safe: "safe d" using started_safe [OF assms(1-3)] .
  have u: "d_server u = opened start_date (d_server d)"
    using assms(4,5) by (simp add: step_simps after_wait_def)
  from history_reports [OF assms(6,2) step_safe [OF assms(4,2) safe] assms(7)]
  show ?thesis
    by (auto simp: reports_more_def u opened_kept get_error_count_def get_max_error_priority_def worst_of_def)
qed

lemma running0_step: "step plain_host (wait_next_tick (loop_head ticked0)) (After_wait 100) running0"
  by (simp add: step_simps taking0_fields running0_def)

theorem run_counts_its_own_errors_witness:
  "\<exists>l. logged (d_server (run_plugin host0 running0)) = logged (d_server (wait_next_tick (loop_head ticked0))) @ l
     \<and> get_error_count (d_server (run_plugin host0 running0)) = int (length l)"
proof -
  have p: "history plain_host running0 [Plugin host0] (run_plugin host0 running0)"
    by (simp add: step_simps running0_fields) (simp add: host0_def)
  from run_counts_its_own_errors [OF _ plain_host_keeps taken0_history [unfolded started0_def] running0_step
      taking0_fields(2) p]
  show ?thesis by auto
qed

text \<open>
  A run that takes less than a minute sends no email, whatever it reports and whatever
  settings change in the meantime: the settle time, a minute at least, is compared with how
  long the run took.
\<close>

theorem quick_runs_send_no_email:
  assumes "settings_ok s" and "integer_keeps X" and "history X (new_daemon p names s) es d"
    and "step X d (After_wait start_date) u" and "d_continue d"
    and "history X u fs v" and "\<not> list_ex is_start fs" and "\<not> list_ex is_finish fs"
    and "step X v (Finish end_date now) w"
    and "end_date - start_date < 60" and "settles X (d_server v)"
  shows "outbox (d_server w) = outbox (d_server d)"
proof -
  have safe: "safe d" using started_safe [OF assms(1-3)] .
  have su: "safe u" using step_safe [OF assms(4,2) safe] .
  have sv: "safe v" using history_safe [OF assms(6,2) su] .
  have start: "d_start v = start_date"
    using history_reports [OF assms(6,2) su assms(7)] assms(4,5) by (simp add: step_simps after_wait_def)
  have box: "outbox (d_server v) = outbox (d_server d)"
    using history_silent [OF assms(6,2) su assms(8)] step_server(2) [OF assms(4,2) safe] by simp
  have ok: "settings_ok (closed end_date (d_server v))" "settles X (closed end_date (d_server v))"
    using sv assms(11) by (simp_all add: safe_def closed_kept)
  obtain t where t: "after_plugins X start_date end_date now (closed end_date (d_server v)) = (Inr (), t)"
    "outbox t = outbox (d_server v)"
    using after_quick_plugins [OF ok assms(10), of now] by (auto simp: closed_kept)
  have "w = finish_run X end_date now v" using assms(9) by (simp add: step_simps)
  then show ?thesis using t box start by (simp add: finish_run_def Let_def closed_kept)
qed

definition host1 :: host where
  "host1 = host0\<lparr>h_flags := []\<rparr>"

definition ran0 :: daemon where
  "ran0 = run_plugin host1 (run_plugin host1 running0)"

lemma memory1: "d_todo (run_plugin host1 running0) = [''flags'']" "d_worker (run_plugin host1 running0) = Running"
  by (simp_all add: memory0 host1_def host0_def)

lemma ran0_fields: "d_todo ran0 = []" "d_worker ran0 = Running"
proof -
  show "d_todo ran0 = []" by (simp add: ran0_def run_plugin_rest running0_fields)
  have "h_flags host1 = []" by (simp add: host1_def)
  then have "plugin_named host1 ''flags'' = Some (\<lambda>json. on_snd (flags_watch [] json))"
    by (simp add: plugin_named_def Let_def)
  moreover have "flags_watch [] json s = (Inr (), s)" for json s by (simp add: flags_watch_def)
  ultimately show "d_worker ran0 = Running"
    by (auto simp: ran0_def run_plugin_def [of _ "run_plugin host1 running0"] memory1 loaded_plugins_def
        List.map_filter_def process_watch_def andthen_apply on_snd_apply split: prod.split)
qed

lemma ran0_settles: "settles plain_host (d_server ran0)"
proof -
  have n: "plain_number ''300'' = Some 300" by code_simp
  have o: "opt_string (d_server (process_timeout plain_host d)) = opt_string (d_server d)"
    "settings_ok (d_server (process_timeout plain_host d))" if "settings_ok (d_server d)" for d
    using timeout_result [OF that, of plain_host] by auto
  have "opt_string (d_server ticked0) = (\<lambda>_. ''300'')"
    unfolding ticked0_def
    by (simp add: o started0_def new_daemon_def fluid_settings_changed_def fluid_ready_def settings_ok_updates)
  then have "settles plain_host (d_server running0)"
    by (simp add: settles_def running0_def after_wait_def wait_next_tick_def loop_head_def ticked0_fields
        set_ticks_def opened_kept plain_host_def n opened_def clear_errors_def)
  then show ?thesis by (simp add: ran0_def run_plugin_server(3))
qed

theorem quick_runs_send_no_email_witness:
  "outbox (d_server (finish_run plain_host 159 159 ran0)) = outbox (d_server (wait_next_tick (loop_head ticked0)))"
proof -
  have x: "h_ext host1 = plain_host" by (simp add: host1_def host0_def)
  have p: "history plain_host running0 [Plugin host1, Plugin host1] ran0"
    by (simp add: step_simps running0_fields memory1 x ran0_def)
  have f: "step plain_host ran0 (Finish 159 159) (finish_run plain_host 159 159 ran0)"
    by (simp add: step_simps ran0_fields)
  show ?thesis
    using quick_runs_send_no_email [OF _ plain_host_keeps taken0_history [unfolded started0_def] running0_step
        taking0_fields(2) p _ _ f _ ran0_settles] by simp
qed

text \<open>
  C10: a run that no message interrupts is \<^verbatim>\<open>run_plugins()\<close>: opening it, calling the plugins one
  after the other and closing it leads to the objects and the server that \<^verbatim>\<open>run_plugins()\<close> gives,
  and the thread goes on exactly when it does not raise.
\<close>

theorem uninterrupted_run:
  assumes "d_worker d = Returned" and "d_continue d" and "h_ext h = X"
    and "run_plugins X (loaded_plugins h (d_plugins d)) start_date end_date now
           (d_err_once d, d_objects d, d_server d) = (r, (b, p, s))"
  shows "\<exists>k fin v. history X d (After_wait start_date # replicate k (Plugin h) @ fin) v
    \<and> k \<le> length (d_plugins d) \<and> (fin = [] \<or> fin = [Finish end_date now])
    \<and> (d_err_once v, d_objects v, d_server v) = (b, p, s)
    \<and> d_worker v = (if isl r then Left else In_loop)"
proof -
  let ?u = "after_wait start_date d"
  have u: "step X d (After_wait start_date) ?u" "d_worker ?u = Running" "d_todo ?u = d_plugins d"
    "d_objects ?u = d_objects d" "d_server ?u = opened start_date (d_server d)" "d_start ?u = start_date"
    "d_err_once ?u = d_err_once d"
    using assms(1,2) by (simp_all add: step_simps after_wait_def)
  obtain r1 p1 s1 where w: "process_watch (loaded_plugins h (d_plugins d)) [Key ''sitter'']
      (d_objects d, opened start_date (d_server d)) = (r1, (p1, s1))" by (metis prod_cases3)
  obtain k names where k: "history X ?u (replicate k (Plugin h)) (watched r1 p1 s1 names ?u)"
    "k \<le> length (d_plugins d)" "isl r1 \<or> names = []"
    using plugins_in_a_row [OF assms(3) u(2)] w u(3-5) by auto
  show ?thesis
  proof (cases r1)
    case (Inl e)
    then have "(r, b, p, s) = (Inl e, d_err_once d, p1, s1)" using assms(4) by (simp add: run_plugins_split w)
    then show ?thesis
      using k(1,2) u Inl by (intro exI [of _ k] exI [of _ "[]"]) (auto simp: watched_def)
  next
    case (Inr x)
    let ?w = "watched r1 p1 s1 names ?u"
    have f: "step X ?w (Finish end_date now) (finish_run X end_date now ?w)"
      using k(3) Inr by (simp add: step_simps watched_def)
    have "history X d (After_wait start_date # replicate k (Plugin h) @ [Finish end_date now])
        (finish_run X end_date now ?w)"
      using u(1) k(1) f by (auto simp: history_append)
    moreover have "(d_err_once (finish_run X end_date now ?w), d_objects (finish_run X end_date now ?w),
          d_server (finish_run X end_date now ?w)) = (b, p, s)
        \<and> d_worker (finish_run X end_date now ?w) = (if isl r then Left else In_loop)"
      using assms(4) Inr u(6,7)
      by (auto simp: run_plugins_split w finish_run_def watched_def Let_def split: if_splits prod.splits sum.splits)
    ultimately show ?thesis using k(2) by blast
  qed
qed

theorem uninterrupted_run_witness:
  "\<exists>k fin v. history plain_host (wait_next_tick (loop_head ticked0))
       (After_wait 100 # replicate k (Plugin host1) @ fin) v \<and> k \<le> 2"
proof -
  let ?d = "wait_next_tick (loop_head ticked0)"
  have x: "h_ext host1 = plain_host" by (simp add: host1_def host0_def)
  obtain r b p s where r: "run_plugins plain_host (loaded_plugins host1 (d_plugins ?d)) 100 159 159
      (d_err_once ?d, d_objects ?d, d_server ?d) = (r, (b, p, s))"
    by (metis prod_cases3 surj_pair)
  have "d_plugins ?d = [''memory'', ''flags'']"
    by (simp add: wait_next_tick_def loop_head_def ticked0_fields running0_fields(6))
  then show ?thesis using uninterrupted_run [OF taking0_fields x r] by fastforce
qed

end
