(* ===== verification/Emails.thy ===== *)
theory Emails
  imports Daemon_Use
begin

text \<open>
  The emails of the daemon over time. The date of the last email is in the file
  \<^verbatim>\<open>last_email_time.txt\<close> of the cache, next to files of the plugins; nothing but
  \<^verbatim>\<open>report_error()\<close> writes to it. The relation \<open>spares f\<close> says that a computation leaves a file
  alone; each plugin keeps it, by the interpretation of \<open>server_relation\<close>.
\<close>

section \<open>Who writes where\<close>

definition spares :: "string \<Rightarrow> server \<Rightarrow> server \<Rightarrow> bool" where
  "spares f s t \<longleftrightarrow> files t f = files s f \<and> opt_string t = opt_string s
     \<and> (f_cache_path t = f_cache_path s \<or> f_cache_path s = [] \<and> f_cache_path t = opt_string s ''cache_path'')"

lemma spares_refl [simp]: "spares f s s"
  by (simp add: spares_def)

lemma spares_trans: "spares f s t \<Longrightarrow> spares f t u \<Longrightarrow> spares f s u"
  by (auto simp: spares_def)

interpretation spare: server_relation "\<lambda>_. spares f" "\<lambda>path. path \<noteq> f" for f
proof unfold_locales
  show "composes (\<lambda>_. spares f)" unfolding composes_def using spares_refl spares_trans by blast
qed (auto simp: obeys_def spares_def append_error_apply Let_def get_cache_path_def write_all_apply)

lemmas spare_writes = spare.R_member [unfolded obeys_always] spare.R_assign [unfolded obeys_always]
  spare.R_assign_all [unfolded obeys_always] spare.R_append_error [unfolded obeys_always]

text \<open>The file with the date of the last email, in the cache directory \<open>c\<close>.\<close>

definition email_file :: "string \<Rightarrow> string" where
  "email_file c = c @ ''/last_email_time.txt''"

lemma suffix_neq:
  assumes "take k (rev x) \<noteq> take k (rev y)" and "k \<le> length x" and "k \<le> length y"
  shows "a @ x \<noteq> b @ y"
proof
  assume "a @ x = b @ y"
  then have "take k (rev (a @ x)) = take k (rev (b @ y))" by simp
  then show False using assms by simp
qed

lemma other_files:
  "named ''high_cpu_usage.txt'' path \<Longrightarrow> path \<noteq> email_file c"
  "named ''reboot.txt'' path \<Longrightarrow> path \<noteq> email_file c"
  "named ''package-statuses.txt'' path \<Longrightarrow> path \<noteq> email_file c"
  "dir @ ''.json'' \<noteq> email_file c" "dir @ ''.log'' \<noteq> email_file c"
  using suffix_neq [of 6 "''/high_cpu_usage.txt''" "''/last_email_time.txt''"]
    suffix_neq [of 6 "''/reboot.txt''" "''/last_email_time.txt''"]
    suffix_neq [of 6 "''/package-statuses.txt''" "''/last_email_time.txt''"]
    suffix_neq [of 1 "''.json''" "''/last_email_time.txt''"]
    suffix_neq [of 1 "''.log''" "''/last_email_time.txt''"]
  by (auto simp: named_def email_file_def)

section \<open>The plugins\<close>

definition script_logs :: "scripts \<Rightarrow> string list" where
  "script_logs c = [f_scripts_output_log c, f_scripts_error_log c]"

definition apart :: "string \<Rightarrow> scripts \<times> server \<Rightarrow> scripts \<times> server \<Rightarrow> bool" where
  "apart f v w \<longleftrightarrow> script_logs (fst w) = script_logs (fst v)
     \<and> (f \<notin> set (script_logs (fst v)) \<longrightarrow> spares f (snd v) (snd w))"

lemma reflp_apart: "reflp (apart f)"
  by (simp add: reflp_def apart_def)

lemma transp_apart: "transp (apart f)"
  unfolding transp_def apart_def by (metis spares_trans)

lemma keeps_apart_on_snd: "keeps (spares f) m \<Longrightarrow> keeps (apart f) (on_snd m)"
  by (auto simp: keeps_def apart_def on_snd_apply)

text \<open>The same from the states with given logs, where the paths a script writes to are known.\<close>

definition apart_from :: "string list \<Rightarrow> string \<Rightarrow> scripts \<times> server \<Rightarrow> scripts \<times> server \<Rightarrow> bool" where
  "apart_from L f v w \<longleftrightarrow> (script_logs (fst v) = L \<longrightarrow>
     script_logs (fst w) = L \<and> (f \<notin> set L \<longrightarrow> spares f (snd v) (snd w)))"

lemma reflp_apart_from: "reflp (apart_from L f)"
  by (simp add: reflp_def apart_from_def)

lemma transp_apart_from: "transp (apart_from L f)"
  unfolding transp_def apart_from_def by (metis spares_trans)

lemma keeps_apart_from:
  "keeps (spares f) m \<Longrightarrow> keeps (apart_from L f) (on_snd m)"
  "path \<in> set L \<Longrightarrow> keeps (apart_from L f) (on_snd (write_all X path content))"
  "keeps (apart_from L f) (on_fst (modify (\<lambda>c. c\<lparr>f_script_filename := n, f_start_date := d\<rparr>)))"
  "(\<And>c. script_logs c = L \<Longrightarrow> keeps (apart_from L f) (g c)) \<Longrightarrow> keeps (apart_from L f) (andthen (get fst) g)"
  by (auto simp: keeps_def apart_from_def on_snd_apply on_fst_apply write_all_apply spares_def
      script_logs_def andthen_apply)

lemma keeps_apart_script: "keeps (apart f) (process_script X env P now name)"
proof -
  have "keeps (apart_from L f) (process_script X env P now name)" for L
    unfolding process_script_def Let_def
    by (intro keeps_apart_from(4) keeps_if keeps_ret keeps_apart_from(2) keeps_apart_from(1,3) keeps_andthen keeps_get
        spare_writes reflp_apart_from transp_apart_from)
      (auto simp: script_logs_def)
  then show ?thesis by (auto simp: keeps_def apart_from_def apart_def)
qed

lemma keeps_apart_watch: "keeps (apart f) (scripts_watch X env P glob clock json)"
proof -
  have m: "keeps (apart f) (on_fst (modify (\<lambda>c. c\<lparr>f_scripts := r\<rparr>)))" for r
    by (auto simp: keeps_def apart_def script_logs_def on_fst_apply)
  show ?thesis
    unfolding scripts_watch_def
    by (intro keeps_andthen keeps_get keeps_for_each keeps_apart_on_snd spare_writes m reflp_apart transp_apart)
      (auto intro: keeps_apart_script)
qed

definition leaves :: "string \<Rightarrow> objects \<times> server \<Rightarrow> objects \<times> server \<Rightarrow> bool" where
  "leaves f v w \<longleftrightarrow> apart f (o_scripts (fst v), snd v) (o_scripts (fst w), snd w)"

lemma reflp_leaves: "reflp (leaves f)"
  using reflp_apart by (auto simp: reflp_def leaves_def)

lemma transp_leaves: "transp (leaves f)"
  using transp_apart unfolding transp_def leaves_def by blast

lemma keeps_leaves_server: "keeps (spares f) m \<Longrightarrow> keeps (leaves f) (on_snd m)"
  by (auto simp: keeps_def leaves_def apart_def on_snd_apply)

lemma keeps_leaves_inside:
  assumes "keeps (second (spares f)) m" and "\<And>a v. o_scripts (upd a v) = o_scripts v"
  shows "keeps (leaves f) (inside sel upd m)"
  using assms by (auto simp: keeps_def leaves_def apart_def inside_def second_def split: prod.splits) (metis snd_conv)

lemma keeps_leaves_scripts:
  "keeps (apart f) m \<Longrightarrow> keeps (leaves f) (inside o_scripts (\<lambda>a. o_scripts_update (\<lambda>_. a)) m)"
  by (auto simp: keeps_def leaves_def inside_def split: prod.splits) (metis snd_conv)

lemmas spared_by_plugins =
  spare.keeps_apt_watch [unfolded obeys_always] spare.keeps_certificate_watch [unfolded obeys_always]
  spare.keeps_cpu_watch [OF other_files(1), unfolded obeys_always] spare.keeps_disk_watch [unfolded obeys_always]
  spare.keeps_firewall_watch [unfolded obeys_always] spare.keeps_flags_watch [unfolded obeys_always]
  spare.keeps_log_watch [unfolded obeys_always] spare.keeps_memory_watch [unfolded obeys_always]
  spare.keeps_network_watch [unfolded obeys_always]
  spare.keeps_packages_watch [OF other_files(3), unfolded obeys_always]
  spare.keeps_processes_watch [unfolded obeys_always]
  spare.keeps_reboot_watch [OF other_files(2), unfolded obeys_always]

lemma plugin_named_leaves:
  assumes "plugin_named h name = Some p"
  shows "keeps (leaves (email_file c)) (p json)"
  using assms unfolding plugin_named_def Let_def
  by (auto split: if_splits
      intro!: keeps_leaves_server keeps_leaves_inside keeps_leaves_scripts keeps_apart_watch
        spared_by_plugins)

section \<open>The steps of the daemon\<close>

text \<open>
  The emails a history sends: the dates that the \<open>Finish\<close> steps that send one have for
  \<^verbatim>\<open>report_error()\<close>.
\<close>

inductive mails_at :: "ext \<Rightarrow> daemon \<Rightarrow> event list \<Rightarrow> int list \<Rightarrow> daemon \<Rightarrow> bool" for X where
  nothing: "mails_at X d [] [] d"
| sent: "step X d (Finish end_date now) u \<Longrightarrow> outbox (d_server u) \<noteq> outbox (d_server d)
    \<Longrightarrow> mails_at X u es ds d' \<Longrightarrow> mails_at X d (Finish end_date now # es) (now # ds) d'"
| other: "step X d e u \<Longrightarrow> outbox (d_server u) = outbox (d_server d)
    \<Longrightarrow> mails_at X u es ds d' \<Longrightarrow> mails_at X d (e # es) ds d'"

text \<open>No new value of the option \<^verbatim>\<open>cache_path\<close>.\<close>

fun cache_stays :: "string \<Rightarrow> event \<Rightarrow> bool" where
  "cache_stays c (Settings st name def_opt str_opt) = (str_opt ''cache_path'' = c)"
| "cache_stays c e = True"

definition cached :: "string \<Rightarrow> daemon \<Rightarrow> bool" where
  "cached c d \<longleftrightarrow> safe d \<and> opt_string (d_server d) ''cache_path'' = c \<and> f_cache_path (d_server d) \<in> {[], c}
     \<and> email_file c \<notin> set (script_logs (o_scripts (d_objects d)))"

lemma cached_file:
  "cached c d \<Longrightarrow> x_mkdir_p X c \<noteq> 0 \<Longrightarrow> cache_file X ''last_email_time.txt'' (d_server d) = email_file c"
  by (auto simp: cached_def cache_file_def email_file_def)

lemma run_plugin_leaves:
  "leaves (email_file c) (d_objects d, d_server d) (d_objects (run_plugin h d), d_server (run_plugin h d))"
proof -
  have k: "keeps (leaves (email_file c)) (process_watch (loaded_plugins h names) json)" for names json
    unfolding process_watch_def
    by (intro keeps_for_each reflp_leaves transp_leaves)
      (auto simp: loaded_plugins_def List.map_filter_def intro: plugin_named_leaves)
  show ?thesis
    using keepsD [OF k, where s = "(d_objects d, d_server d)"]
    by (auto simp: run_plugin_def reflpD [OF reflp_leaves] split: list.split prod.split) (metis snd_conv)
qed

lemma rusage_spares: "spares (email_file c) s (runs (msg_rusage X msg now) s)"
proof -
  have "email_file c \<noteq> rusage_filename dir name now" for dir name
    using other_files(4) [of "dir @ ''/rusage/'' @ name @ ''-'' @ [char_of ((now sdiv 3600) smod 24)]" c]
    by (simp add: rusage_filename_def)
  then show ?thesis
    by (auto simp: runs_def msg_rusage_def record_usage_def spares_def andthen_apply write_all_apply Let_def)
qed

text \<open>The steps other than \<open>Finish\<close> leave the file alone.\<close>

lemma step_cached:
  assumes "step X d e u" and "integer_keeps X" and "cached c d" and "cache_stays c e" and "\<not> is_finish e"
  shows "cached c u \<and> files (d_server u) (email_file c) = files (d_server d) (email_file c)"
proof -
  have s: "safe u" using step_safe [OF assms(1,2)] assms(3) by (simp add: cached_def)
  have "settings_ok (d_server d)" using assms(3) by (simp add: cached_def safe_def)
  note tim = timeout_result [OF this, of X]
  show ?thesis
    using assms(1)
  proof (cases rule: step.cases)
    case (settings st name od os)
    then show ?thesis using assms(3-5) s
      by (cases st) (auto simp: cached_def fluid_settings_changed_def fluid_ready_def clear_cache_def Let_def)
  next
    case timeout
    then obtain v where "u = d\<lparr>w_ticks := w_ticks d + 1, d_worker := signalled (d_worker d),
         d_server := (d_server d)\<lparr>f_statistics_frequency := v\<rparr>, t_delay := v * 1000000\<rparr>"
      using tim by blast
    then show ?thesis using assms(3) s by (simp add: cached_def)
  next
    case (rusage msg now)
    then show ?thesis using rusage_spares [of c "d_server d" X msg now] assms(3) s
      by (auto simp: cached_def receive_rusage_def spares_def)
  next
    case (run_plugin h)
    then show ?thesis using run_plugin_leaves [of c d h] assms(3) s
      by (auto simp: cached_def leaves_def apart_def spares_def)
  qed (use assms(3,5) s in \<open>auto simp: cached_def operation_defs opened_def clear_errors_def\<close>)
qed

text \<open>The end of a run is a report of the errors, after steps that leave the file alone.\<close>

lemma save_data_spares:
  assumes "settings_ok s" and "save_data X start_date s = (r, t)"
  shows "files t (email_file c) = files s (email_file c) \<and> settings_ok t \<and> opt_string t = opt_string s
    \<and> outbox t = outbox s \<and> f_cache_path t = f_cache_path s"
proof -
  have n: "email_file c \<noteq> dir @ CHR ''/'' # name @ ''.json''" for dir name
    using other_files(4) [of "dir @ ''/'' @ name" c] by simp
  show ?thesis
    using save_data_result [OF assms(1), of X start_date] assms(2) n
    by (auto simp: Let_def split: if_splits)
qed

lemma finish_reports:
  assumes "integer_keeps X" and "settings_ok (d_server d)"
  obtains s where "settings_ok s" "files s (email_file c) = files (d_server d) (email_file c)"
    "opt_string s = opt_string (d_server d)" "outbox s = outbox (d_server d)"
    "f_cache_path s = f_cache_path (d_server d)"
    "d_server (finish_run X e now d) = s
      \<or> (\<exists>r. report_error X now (d_start d) s = (r, d_server (finish_run X e now d)))"
proof -
  let ?s = "closed e (d_server d)"
  let ?same = "\<lambda>s. settings_ok s \<and> files s (email_file c) = files (d_server d) (email_file c)
    \<and> opt_string s = opt_string (d_server d) \<and> outbox s = outbox (d_server d)
    \<and> f_cache_path s = f_cache_path (d_server d)"
  have s: "?same ?s" using assms(2) by (simp add: closed_kept) (simp add: closed_def)
  obtain r1 t where t: "save_data X (d_start d) ?s = (r1, t)" by fastforce
  have st: "?same t" using save_data_spares [OF _ t] s by simp
  obtain r2 u where u: "get_error_report_settle_time X t = (r2, u)" by fastforce
  have "reads X t u" using keeps_result [OF keeps_reads(7) u] .
  then have su: "?same u" using st assms(1) by (simp add: reads_def same_but_settings_def)
  obtain r3 v where v: "report_error X now (d_start d) u = (r3, v)" by fastforce
  have "\<exists>s. ?same s \<and> (d_server (finish_run X e now d) = s
      \<or> (\<exists>r. report_error X now (d_start d) s = (r, d_server (finish_run X e now d))))"
    using s st su v
    by (auto simp: finish_run_def Let_def after_plugins_def andthen_apply t u split: prod.split sum.split)
  then show ?thesis using that by blast
qed

lemma finish_cached:
  assumes "integer_keeps X" and "cached c d"
  shows "opt_string (d_server (finish_run X e now d)) = opt_string (d_server d)
    \<and> f_cache_path (d_server (finish_run X e now d)) \<in> {[], c}
    \<and> d_objects (finish_run X e now d) = d_objects d"
proof -
  obtain r t where t: "after_plugins X (d_start d) e now (closed e (d_server d)) = (r, t)" by fastforce
  have "mails X (closed e (d_server d)) t" using keeps_result [OF keeps_after_plugins t] .
  moreover have "settings_ok (closed e (d_server d))" "opt_string (d_server d) ''cache_path'' = c"
    "f_cache_path (d_server d) \<in> {[], c}"
    using assms(2) by (simp_all add: cached_def safe_def closed_kept)
  ultimately have "opt_string t = opt_string (d_server d)" "f_cache_path t \<in> {[], c}"
    using assms(1) by (simp_all add: mails_def) (auto simp: closed_def)
  moreover have "f_cache_path (closed e (d_server d)) = f_cache_path (d_server d)" by (simp add: closed_def)
  ultimately show ?thesis
    using assms(2) by (auto simp: finish_run_def Let_def t cached_def closed_kept split: sum.split)
qed

lemma report_sends_one:
  assumes "integer_keeps X" and "settings_ok s" and "report_error X now start_date s = (r, t)"
  shows "outbox t = outbox s \<or> (\<exists>e. outbox t = outbox s @ [e])"
  using report_error_cases [OF assms] by (auto simp: stays_silent_def writes_date_def)

text \<open>One step of the history of the emails, for the end of a run.\<close>

lemma finish_mail:
  assumes "integer_keeps X" and "cached c d" and "x_mkdir_p X c \<noteq> 0" and "d_worker d = Running"
    and "d_todo d = []" and "mail_history X (email_file c) s0 ds (d_server d)"
  shows "cached c (finish_run X e now d)
    \<and> mail_history X (email_file c) s0
        (if outbox (d_server (finish_run X e now d)) = outbox (d_server d) then ds else ds @ [now])
        (d_server (finish_run X e now d))
    \<and> (outbox (d_server (finish_run X e now d)) = outbox (d_server d)
       \<or> length (outbox (d_server (finish_run X e now d))) = Suc (length (outbox (d_server d))))"
proof -
  let ?u = "finish_run X e now d"
  have ok: "settings_ok (d_server d)" using assms(2) by (simp add: cached_def safe_def)
  have "step X d (Finish e now) ?u" using assms(4,5) by (simp add: step_simps)
  then have "safe ?u" using step_safe assms(1,2) by (simp add: cached_def)
  then have cu: "cached c ?u" using finish_cached [OF assms(1,2), of e now] assms(2) by (simp add: cached_def)
  obtain s where s: "settings_ok s" "files s (email_file c) = files (d_server d) (email_file c)"
    "opt_string s = opt_string (d_server d)" "outbox s = outbox (d_server d)"
    "f_cache_path s = f_cache_path (d_server d)"
    "d_server ?u = s \<or> (\<exists>r. report_error X now (d_start d) s = (r, d_server ?u))"
    using finish_reports [OF assms(1) ok] by blast
  have hs: "mail_history X (email_file c) s0 ds s"
    using mail_history.other [OF assms(6) s(2,1)] .
  show ?thesis
  proof (cases "d_server ?u = s")
    case True
    then show ?thesis using cu hs s(4) by simp
  next
    case False
    then obtain r where r: "report_error X now (d_start d) s = (r, d_server ?u)" using s(6) by blast
    have "cache_file X ''last_email_time.txt'' s = email_file c"
      using cached_file [OF assms(2,3)] s(3,5) by (simp add: cache_file_def split: if_splits)
    from mail_history.report [OF hs this r] report_sends_one [OF assms(1) s(1) r]
    show ?thesis using cu s(4) by auto
  qed
qed

lemma history_mails:
  assumes "history X d es d'" and "integer_keeps X" and "cached c d" and "x_mkdir_p X c \<noteq> 0"
    and "list_all (cache_stays c) es" and "mail_history X (email_file c) s0 ds (d_server d)"
  shows "\<exists>more. mails_at X d es more d' \<and> mail_history X (email_file c) s0 (ds @ more) (d_server d')
    \<and> length (outbox (d_server d')) = length (outbox (d_server d)) + length more"
  using assms(1,3,5,6)
proof (induction es arbitrary: d ds)
  case Nil
  then show ?case using mails_at.nothing [of X d] by (intro exI [of _ "[]"]) simp
next
  case (Cons e es)
  obtain u where u: "step X d e u" "history X u es d'" using Cons.prems(1) by auto
  have rest: "list_all (cache_stays c) es" "cache_stays c e" using Cons.prems(3) by simp_all
  show ?case
  proof (cases "is_finish e")
    case False
    note c = step_cached [OF u(1) assms(2) Cons.prems(2) rest(2) False]
    have ok: "settings_ok (d_server u)" using c by (simp add: cached_def safe_def)
    have same: "outbox (d_server u) = outbox (d_server d)"
      using step_server(2) [OF u(1) assms(2)] Cons.prems(2) False by (simp add: cached_def)
    have "mail_history X (email_file c) s0 ds (d_server u)"
      using mail_history.other [OF Cons.prems(4) _ ok] c by blast
    from Cons.IH [OF u(2) _ rest(1) this] c obtain more where
      "mails_at X u es more d'" "mail_history X (email_file c) s0 (ds @ more) (d_server d')"
      "length (outbox (d_server d')) = length (outbox (d_server u)) + length more" by blast
    then show ?thesis using mails_at.other [OF u(1) same] same by auto
  next
    case True
    then obtain end_date now where e: "e = Finish end_date now" by (cases e) simp_all
    have run: "u = finish_run X end_date now d" "d_worker d = Running" "d_todo d = []"
      using u(1) by (simp_all add: e step_simps)
    note f = finish_mail [OF assms(2) Cons.prems(2) assms(4) run(2,3) Cons.prems(4), of end_date now, folded run(1)]
    show ?thesis
    proof (cases "outbox (d_server u) = outbox (d_server d)")
      case True
      then show ?thesis
        using f Cons.IH [OF u(2) _ rest(1), of ds] mails_at.other [OF u(1) True] by fastforce
    next
      case False
      then obtain more where
        "mails_at X u es more d'" "mail_history X (email_file c) s0 ((ds @ [now]) @ more) (d_server d')"
        "length (outbox (d_server d')) = length (outbox (d_server u)) + length more"
        using f Cons.IH [OF u(2) _ rest(1), of "ds @ [now]"] by auto
      then show ?thesis
        using mails_at.sent [OF u(1) [unfolded e] False] f False e by (intro exI [of _ "now # more"]) auto
    qed
  qed
qed

section \<open>The property\<close>

lemma bootstrap_logs: "email_file c \<notin> set (script_logs (fst (bootstrap s)))"
proof -
  have "email_file c \<noteq> a @ CHR ''/'' # b @ ''/sitter-scripts.log''"
    "email_file c \<noteq> a @ CHR ''/'' # b @ ''/sitter-scripts-errors.log''" for a b
    using other_files(5) [of "a @ ''/'' @ b @ ''/sitter-scripts''" c]
      other_files(5) [of "a @ ''/'' @ b @ ''/sitter-scripts-errors''" c] by simp_all
  then show ?thesis by (simp add: script_logs_def bootstrap_def Let_def)
qed

text \<open>
  Whatever the plugins, the messages and the settings do, a daemon that can keep the date
  of its last email sends at most one email at the end of a run and waits five minutes at least
  between two, the end of a run being one step. It can when \<^verbatim>\<open>mkdir_p()\<close> does not answer 0
  (\<open>emails_without_limit\<close> is what happens otherwise), the file can be written, and the option
  \<^verbatim>\<open>cache_path\<close> keeps its value.
\<close>

theorem daemon_emails_five_minutes_apart:
  assumes "settings_ok s" and "f_cache_path s = []" and "opt_string s ''cache_path'' = c"
    and "integer_keeps X" and "integer_reads_text X"
    and "x_mkdir_p X c \<noteq> 0" and "x_can_write X (email_file c)"
    and "history X (new_daemon p names s) es d" and "list_all (cache_stays c) es"
  shows "\<exists>ds. mails_at X (new_daemon p names s) es ds d
    \<and> length (outbox (d_server d)) = length (outbox s) + length ds
    \<and> successively (\<lambda>a b. a + 300 \<le> b) ds"
proof -
  have c: "cached c (new_daemon p names s)"
    using new_daemon_safe [OF assms(1)] bootstrap_logs assms(2,3)
    by (simp add: cached_def) (simp add: new_daemon_def new_objects_def)
  have s: "d_server (new_daemon p names s) = s" by (simp add: new_daemon_def)
  have "mail_history X (email_file c) s [] (d_server (new_daemon p names s))"
    unfolding s by (rule mail_history.start [OF assms(1)])
  from history_mails [OF assms(8,4) c assms(6,9) this] s obtain ds where
    "mails_at X (new_daemon p names s) es ds d" "mail_history X (email_file c) s ds (d_server d)"
    "length (outbox (d_server d)) = length (outbox s) + length ds" by auto
  then show ?thesis using mail_history_spaced [OF _ assms(4,5,7)] by (auto simp: spaced_def)
qed

text \<open>
  A host where \<^verbatim>\<open>mkdir_p()\<close> fails, so that the cache path is kept, and the text of a document is empty.
\<close>

definition grim_host :: ext where
  "grim_host = plain_host\<lparr>x_mkdir_p := \<lambda>_. - 1, x_json_text := \<lambda>_. []\<rparr>"

definition grim_host0 :: host where
  "grim_host0 = host0\<lparr>h_ext := grim_host\<rparr>"

definition mailing0 :: daemon where
  "mailing0 = fluid_ready (new_daemon process0 [''firewall''] (new_server (\<lambda>_. True) (\<lambda>_. ''300'') 5))"

text \<open>A tick, and a run of 400 seconds of the firewall plugin, which misses its process.\<close>

definition missing0 :: daemon where
  "missing0 = run_plugin grim_host0 (after_wait 600 (wait_next_tick (loop_head (process_timeout grim_host mailing0))))"

lemma missing0_worker: "d_worker missing0 = Running"
  by code_simp

lemma missing0_mails: "length (outbox (d_server (finish_run grim_host 1000 1000 missing0))) = 1"
  by code_simp

lemma missing0_started:
  "history grim_host (new_daemon process0 [''firewall''] (new_server (\<lambda>_. True) (\<lambda>_. ''300'') 5))
     [Settings Status_ready [] (\<lambda>_. True) (\<lambda>_. ''300''), Timeout, Loop_head, Wait, After_wait 600, Plugin grim_host0]
     missing0"
proof -
  let ?d = "new_daemon process0 [''firewall''] (new_server (\<lambda>_. True) (\<lambda>_. ''300'') 5)"
  have "fluid_settings_changed Status_ready [] (\<lambda>_. True) (\<lambda>_. ''300'') ?d = mailing0"
    by (simp add: fluid_settings_changed_def mailing0_def fluid_ready_def new_daemon_def new_server_def)
  then have s: "step grim_host ?d (Settings Status_ready [] (\<lambda>_. True) (\<lambda>_. ''300'')) mailing0"
    by (simp add: step_simps) (simp add: new_daemon_def)
  have t: "d_plugins (process_timeout X d) = d_plugins d" for X d
    by (auto simp: process_timeout_def process_tick_def tick_def Let_def split: prod.split sum.split)
  have x: "h_ext grim_host0 = grim_host" by (simp add: grim_host0_def)
  have m: "d_main mailing0 = Polling" "t_enabled mailing0" "d_worker mailing0 = In_loop" "d_continue mailing0"
    "w_ticks mailing0 = 0" "d_plugins mailing0 = [''firewall'']"
    by (simp_all add: mailing0_def fluid_ready_def new_daemon_def)
  have "history grim_host mailing0 [Timeout, Loop_head, Wait, After_wait 600, Plugin grim_host0] missing0"
    by (simp add: missing0_def step_simps x m t process_timeout_rest signalled_def loop_head_def wait_next_tick_def
        after_wait_def)
  with s show ?thesis using history.simps(2) by blast
qed

lemma missing0_main: "d_main missing0 = Polling" "d_todo missing0 = []"
proof -
  have t: "d_plugins (process_timeout X d) = d_plugins d" for X d
    by (auto simp: process_timeout_def process_tick_def tick_def Let_def split: prod.split sum.split)
  show "d_main missing0 = Polling" "d_todo missing0 = []"
    by (simp_all add: missing0_def run_plugin_rest loop_head_def wait_next_tick_def after_wait_def mailing0_def
        process_timeout_rest t fluid_ready_def new_daemon_def)
qed

lemma grim_host_ok:
  "integer_keeps grim_host" "integer_reads_text grim_host" "x_mkdir_p grim_host c \<noteq> 0" "x_can_write grim_host f"
  using plain_host_keeps plain_host_reads_text
  by (simp_all add: grim_host_def integer_keeps_def integer_reads_text_def) (simp add: plain_host_def)

theorem daemon_emails_five_minutes_apart_witness:
  "\<exists>now. mails_at grim_host (new_daemon process0 [''firewall''] (new_server (\<lambda>_. True) (\<lambda>_. ''300'') 5))
      ([Settings Status_ready [] (\<lambda>_. True) (\<lambda>_. ''300''), Timeout, Loop_head, Wait, After_wait 600,
        Plugin grim_host0] @ [Finish 1000 1000]) [now] (finish_run grim_host 1000 1000 missing0)"
proof -
  let ?s = "new_server (\<lambda>_. True) (\<lambda>_. ''300'') 5"
  let ?d = "new_daemon process0 [''firewall''] ?s"
  let ?es = "[Settings Status_ready [] (\<lambda>_. True) (\<lambda>_. ''300''), Timeout, Loop_head, Wait, After_wait 600,
       Plugin grim_host0] @ [Finish 1000 1000]"
  have h: "history grim_host ?d ?es (finish_run grim_host 1000 1000 missing0)"
    unfolding history_append using missing0_started missing0_worker missing0_main by (auto simp: step_simps)
  have o: "outbox ?s = []" "settings_ok ?s" "f_cache_path ?s = []" "opt_string ?s ''cache_path'' = ''300''"
    by (simp_all add: new_server_def settings_defs)
  from daemon_emails_five_minutes_apart [OF o(2-4) grim_host_ok h] obtain ds where
    "mails_at grim_host ?d ?es ds (finish_run grim_host 1000 1000 missing0)" "length ds = 1"
    using missing0_mails o(1) by auto
  then show ?thesis by (cases ds) auto
qed

end
