(* ===== verification/Race_Emails.thy ===== *)
theory Race_Emails
  imports Races Emails
begin

text \<open>
  The emails of a daemon whose settings change at any time, also in the middle of the end of a
  run. A step is one of the daemon, or the end of a run with the messages that come in it; the
  main thread must be in its event loop for a message to come.
\<close>

section \<open>The steps\<close>

definition contended_finish :: "ext \<Rightarrow> messages \<Rightarrow> int \<Rightarrow> int \<Rightarrow> daemon \<Rightarrow> daemon" where
  "contended_finish X c end_date now d =
     (let s = closed end_date (d_server d) in
      if x_json_members X (doc s) [Key ''sitter''] \<le> 2
      then d\<lparr>d_err_once := False, d_server := s, d_worker := In_loop\<rparr>
      else (case contended_after X c (d_start d) end_date now s of
              (r, t) \<Rightarrow> d\<lparr>d_server := t, d_worker := (case r of Inl e \<Rightarrow> Left | Inr _ \<Rightarrow> In_loop)\<rparr>))"

lemma contended_finish_quiet: "contended_finish X (\<lambda>_. ([], [])) = finish_run X"
  by (intro ext) (simp only: contended_finish_def finish_run_def quiet_reports_are_the_reports)

inductive race_step :: "ext \<Rightarrow> daemon \<Rightarrow> event \<Rightarrow> messages \<Rightarrow> daemon \<Rightarrow> bool" for X where
  alone: "step X d e u \<Longrightarrow> race_step X d e (\<lambda>_. ([], [])) u"
| race: "d_worker d = Running \<Longrightarrow> d_todo d = [] \<Longrightarrow> d_main d = Polling
    \<Longrightarrow> race_step X d (Finish end_date now) c (contended_finish X c end_date now d)"

inductive_cases race_stepE: "race_step X d e c u"

fun race_history :: "ext \<Rightarrow> daemon \<Rightarrow> (event \<times> messages) list \<Rightarrow> daemon \<Rightarrow> bool" where
  "race_history X d [] d' \<longleftrightarrow> d' = d"
| "race_history X d ((e, c) # es) d' \<longleftrightarrow> (\<exists>u. race_step X d e c u \<and> race_history X u es d')"

lemma history_is_race_history:
  "history X d es d' \<Longrightarrow> race_history X d (map (\<lambda>e. (e, \<lambda>_. ([], []))) es) d'"
  by (induction es arbitrary: d) (auto intro: race_step.alone)

lemma race_history_append:
  "race_history X d (es @ fs) d' \<longleftrightarrow> (\<exists>u. race_history X d es u \<and> race_history X u fs d')"
  by (induction X d es d' rule: race_history.induct) auto

text \<open>No message with another \<^verbatim>\<open>cache_path\<close>.\<close>

definition messages_keep :: "string \<Rightarrow> messages \<Rightarrow> bool" where
  "messages_keep p c \<longleftrightarrow>
     (\<forall>k m. m \<in> set (fst (c k)) \<or> m \<in> set (snd (c k)) \<longrightarrow> snd (snd m) ''cache_path'' = p)"

definition path_known :: "string \<Rightarrow> server \<Rightarrow> bool" where
  "path_known p s \<longleftrightarrow> opt_string s ''cache_path'' = p \<and> f_cache_path s \<in> {[], p}"

lemma new_value_opt_string: "opt_string (new_value m s) = snd (snd m)"
  by (cases m) (simp add: new_value_def clear_cache_def)

lemma messages_keep_path: "messages_keep p c \<Longrightarrow> path_kept (path_known p) c"
  by (auto simp: path_kept_def path_known_def messages_keep_def new_value_opt_string new_value_rest)

lemma path_known_file:
  "x_mkdir_p X p \<noteq> 0 \<Longrightarrow> path_known p s \<Longrightarrow> cache_file X ''last_email_time.txt'' s = email_file p"
  by (auto simp: path_known_def cache_file_def email_file_def)

section \<open>The end of a run\<close>

text \<open>From \<open>s\<close>, a state with the same date of the last email, a report that is silent or waits.\<close>

definition reports_from :: "ext \<Rightarrow> string \<Rightarrow> int \<Rightarrow> server \<Rightarrow> server \<Rightarrow> bool" where
  "reports_from X p now s t \<longleftrightarrow> settings_ok t \<and> path_known p t
     \<and> (\<exists>u. files u (email_file p) = files s (email_file p) \<and> outbox u = outbox s
          \<and> (stays_silent u t \<or> writes_date X (email_file p) now u t))"

lemma reports_from_same:
  "settings_ok t \<Longrightarrow> path_known p t \<Longrightarrow> files t (email_file p) = files s (email_file p) \<Longrightarrow> outbox t = outbox s
     \<Longrightarrow> reports_from X p now s t"
  unfolding reports_from_def by (intro conjI exI [of _ t]) (simp_all add: stays_silent_def)

lemma reports_from_trans:
  "files u (email_file p) = files s (email_file p) \<Longrightarrow> outbox u = outbox s \<Longrightarrow> reports_from X p now u t
     \<Longrightarrow> reports_from X p now s t"
  by (auto simp: reports_from_def)

lemma remembered_path:
  "f_cache_path (snd (get_cache_path X name u)) \<in> {[], opt_string u ''cache_path'', f_cache_path u}"
  by (simp add: get_cache_path_def Let_def)

lemma contended_report_from:
  assumes "integer_keeps X" and "settings_ok s" and "path_known p s" and "messages_keep p c" and "spans_kept c"
    and "x_mkdir_p X p \<noteq> 0" and "contended_report X c now start_date s = (r, t)"
  shows "reports_from X p now s t"
proof -
  have named: "\<forall>u. path_known p u \<longrightarrow> cache_file X ''last_email_time.txt'' u = email_file p"
    using path_known_file [OF assms(6)] by blast
  note contended_report_result [OF assms(1-3) messages_keep_path [OF assms(4)] assms(5) named assms(7)]
  then consider "settings_ok t" "path_known p t" "only_settings s t"
    | v u cp where "300 \<le> v" "settings_ok u" "path_known p u" "only_settings s u"
        "get_cache_path X ''last_email_time.txt'' u = (Inr (email_file p), u\<lparr>f_cache_path := cp\<rparr>)"
        "mail_part X (email_file p) now start_date v (u\<lparr>f_cache_path := cp\<rparr>) = (r, t)"
    by (elim disjE exE conjE) metis+
  then show ?thesis
  proof cases
    case 1
    then show ?thesis by (intro reports_from_same) (simp_all add: only_settings_def)
  next
    case 2
    have "cp = f_cache_path (snd (get_cache_path X ''last_email_time.txt'' u))" using 2(5) by simp
    then have cp: "cp \<in> {[], p}"
      using remembered_path [of X "''last_email_time.txt''" u] 2(3) by (auto simp: path_known_def)
    obtain t' where t': "mail_part X (email_file p) now start_date v (u\<lparr>f_cache_path := cp\<rparr>) = (Inr (), t')"
      "settings_ok t' = settings_ok (u\<lparr>f_cache_path := cp\<rparr>)" "f_cache_path t' = cp" "opt_string t' = opt_string u"
      using mail_part_result [of X "email_file p" now start_date v "u\<lparr>f_cache_path := cp\<rparr>"] by auto
    have "settings_ok (u\<lparr>f_cache_path := cp\<rparr>)" using 2(2) by (simp add: settings_defs)
    then have "settings_ok t" "path_known p t"
      using t' 2(3,6) cp by (auto simp: path_known_def)
    moreover have "stays_silent (u\<lparr>f_cache_path := cp\<rparr>) t
        \<or> writes_date X (email_file p) now (u\<lparr>f_cache_path := cp\<rparr>) t"
      using mail_part_writes [OF 2(6) refl refl 2(1)] .
    ultimately show ?thesis
      unfolding reports_from_def using 2(4)
      by (intro conjI exI [of _ "u\<lparr>f_cache_path := cp\<rparr>"]) (simp_all add: only_settings_def)
  qed
qed

text \<open>What comes before the report leaves the date of the last email alone.\<close>

definition spares_date :: "ext \<Rightarrow> string \<Rightarrow> server \<Rightarrow> server \<Rightarrow> bool" where
  "spares_date X p s t \<longleftrightarrow> (integer_keeps X \<and> settings_ok s \<and> path_known p s \<longrightarrow>
     settings_ok t \<and> path_known p t \<and> files t (email_file p) = files s (email_file p) \<and> outbox t = outbox s)"

lemma reflp_spares_date: "reflp (spares_date X p)"
  by (simp add: reflpI spares_date_def)

lemma transp_spares_date: "transp (spares_date X p)"
  by (rule transpI) (auto simp: spares_date_def)

lemma keeps_date_contended: "messages_keep p c \<Longrightarrow> keeps (spares_date X p) (contended X g (c k))"
  using keeps_contended [OF messages_keep_path, of p c X g k]
  by (auto simp: keeps_def contends_def spares_date_def only_settings_def)

lemma keeps_date_write: "path \<noteq> email_file p \<Longrightarrow> keeps (spares_date X p) (write_all X path content)"
  by (auto simp: keeps_def spares_date_def write_all_apply path_known_def settings_defs)

lemma keeps_date_save: "messages_keep p c \<Longrightarrow> keeps (spares_date X p) (contended_save X (c k) start_date)"
proof -
  have "email_file p \<noteq> dir @ ''/'' @ name @ ''.json''" for dir name
    using other_files(4) [of "dir @ ''/'' @ name" p] by simp
  then have w: "keeps (spares_date X p) (write_all X (dir @ ''/'' @ name @ ''.json'') content)" for dir name content
    by (metis keeps_date_write)
  assume "messages_keep p c"
  then show ?thesis
    unfolding contended_save_def
    by (intro keeps_andthen keeps_if keeps_ret keeps_get reflp_spares_date transp_spares_date
        keeps_date_contended w)
qed

lemma contended_after_from:
  assumes "integer_keeps X" and "settings_ok s" and "path_known p s" and "messages_keep p c" and "spans_kept c"
    and "x_mkdir_p X p \<noteq> 0" and "contended_after X c start_date end_date now s = (r, t)"
  shows "reports_from X p now s t"
proof -
  have kept: "settings_ok v \<and> path_known p v \<and> files v (email_file p) = files u (email_file p) \<and> outbox v = outbox u"
    if "keeps (spares_date X p) m" "m u = (q, v)" "settings_ok u" "path_known p u"
    for m :: "(server, 'x) act" and u q v
    using keeps_result [OF that(1,2)] that(3,4) assms(1) by (simp add: spares_date_def)
  obtain q1 s1 where 1: "contended_save X (c 0) start_date s = (q1, s1)" by fastforce
  note k1 = kept [OF keeps_date_save [OF assms(4)] 1 assms(2,3)]
  obtain q2 s2 where 2: "contended X Settle_time (c 1) s1 = (q2, s2)" by fastforce
  have k2: "settings_ok s2 \<and> path_known p s2 \<and> files s2 (email_file p) = files s1 (email_file p) \<and> outbox s2 = outbox s1"
    using kept [OF keeps_date_contended [OF assms(4)] 2] k1 by blast
  have later: "messages_keep p (\<lambda>k. c (k + 2))" "spans_kept (\<lambda>k. c (k + 2))"
    using assms(4,5) unfolding messages_keep_def spans_kept_def by blast+
  obtain q3 s3 where 3: "contended_report X (\<lambda>k. c (k + 2)) now start_date s2 = (q3, s3)" by fastforce
  have "reports_from X p now s2 s3"
    using contended_report_from [OF assms(1) _ _ later assms(6) 3] k2 by blast
  then have f: "reports_from X p now s s3" using reports_from_trans k1 k2 by (metis (no_types))
  have "t = s1 \<or> t = s2 \<or> t = s3"
    using assms(7) 1 2 3 by (auto simp: contended_after_def andthen_apply split: sum.splits if_splits)
  then show ?thesis using f k1 k2 reports_from_same by (metis (no_types))
qed

lemma contended_finish_from:
  assumes "integer_keeps X" and "cached p d" and "messages_keep p c" and "spans_kept c" and "x_mkdir_p X p \<noteq> 0"
  shows "reports_from X p now (d_server d) (d_server (contended_finish X c end_date now d))"
proof -
  let ?s = "closed end_date (d_server d)"
  have s: "settings_ok ?s" "path_known p ?s" "files ?s = files (d_server d)" "outbox ?s = outbox (d_server d)"
    using assms(2) by (simp_all add: cached_def safe_def closed_kept path_known_def) (simp_all add: closed_def)
  obtain r t where t: "contended_after X c (d_start d) end_date now ?s = (r, t)" by fastforce
  have "reports_from X p now ?s t" using contended_after_from [OF assms(1) s(1,2) assms(3-5) t] .
  then have "reports_from X p now (d_server d) t" by (rule reports_from_trans [rotated 2]) (simp_all add: s)
  moreover have "reports_from X p now (d_server d) ?s" using s by (intro reports_from_same) simp_all
  ultimately show ?thesis by (simp add: contended_finish_def Let_def t)
qed

lemma contended_finish_rest:
  "d_main (contended_finish X c e n d) = d_main d" "d_objects (contended_finish X c e n d) = d_objects d"
  "w_ticks (contended_finish X c e n d) = w_ticks d" "d_continue (contended_finish X c e n d) = d_continue d"
  "t_delay (contended_finish X c e n d) = t_delay d" "d_connections (contended_finish X c e n d) = d_connections d"
  "d_ended (contended_finish X c e n d) = d_ended d"
  "d_worker (contended_finish X c e n d) \<in> {In_loop, Left}"
  by (auto simp: contended_finish_def Let_def split: prod.split sum.split)

section \<open>The emails of a history\<close>

inductive race_mails :: "ext \<Rightarrow> daemon \<Rightarrow> (event \<times> messages) list \<Rightarrow> int list \<Rightarrow> daemon \<Rightarrow> bool" for X where
  nothing: "race_mails X d [] [] d"
| sent: "race_step X d (Finish end_date now) c u \<Longrightarrow> outbox (d_server u) \<noteq> outbox (d_server d)
    \<Longrightarrow> race_mails X u es ds d' \<Longrightarrow> race_mails X d ((Finish end_date now, c) # es) (now # ds) d'"
| other: "race_step X d e c u \<Longrightarrow> outbox (d_server u) = outbox (d_server d)
    \<Longrightarrow> race_mails X u es ds d' \<Longrightarrow> race_mails X d ((e, c) # es) ds d'"

text \<open>What is asked of the messages, those between the steps and those inside of them.\<close>

definition race_ok :: "string \<Rightarrow> event \<times> messages \<Rightarrow> bool" where
  "race_ok p = (\<lambda>(e, c). cache_stays p e \<and> messages_keep p c \<and> spans_kept c)"

lemma finish_step_mails:
  assumes "integer_reads_text X" and "x_can_write X (email_file p)" and "reports_from X p now s t"
    and "spaced (email_file p) ds s"
  shows "outbox t = outbox s \<and> spaced (email_file p) ds t
    \<or> length (outbox t) = Suc (length (outbox s)) \<and> spaced (email_file p) (ds @ [now]) t"
proof -
  obtain u where u: "files u (email_file p) = files s (email_file p)" "outbox u = outbox s"
    "stays_silent u t \<or> writes_date X (email_file p) now u t" using assms(3) by (auto simp: reports_from_def)
  have su: "spaced (email_file p) ds u" using spaced_same [OF u(1) assms(4)] .
  show ?thesis
  proof (cases "stays_silent u t")
    case True
    then show ?thesis using spaced_silent [OF True su] u(2) by simp
  next
    case False
    then have w: "writes_date X (email_file p) now u t" using u(3) by simp
    show ?thesis using spaced_written [OF assms(1,2) su w] w u(2)
      by (auto simp: writes_date_def split: if_splits)
  qed
qed

lemma race_step_mails:
  assumes "race_step X d e c u" and "integer_keeps X" and "integer_reads_text X" and "x_mkdir_p X p \<noteq> 0"
    and "x_can_write X (email_file p)" and "race_ok p (e, c)" and "cached p d"
    and "spaced (email_file p) ds (d_server d)"
  shows "cached p u
    \<and> (outbox (d_server u) = outbox (d_server d) \<and> spaced (email_file p) ds (d_server u)
       \<or> (\<exists>end_date now. e = Finish end_date now
            \<and> length (outbox (d_server u)) = Suc (length (outbox (d_server d)))
            \<and> spaced (email_file p) (ds @ [now]) (d_server u)))"
proof -
  have ok: "cache_stays p e" "messages_keep p c" "spans_kept c" using assms(6) by (simp_all add: race_ok_def)
  have fin: ?thesis
    if "e = Finish end_date now" "d_worker d = Running" "d_todo d = []"
      and u: "u = contended_finish X c end_date now d" and safe: "safe u" for end_date now
  proof -
    note f = contended_finish_from [OF assms(2,7) ok(2,3) assms(4), of now end_date, folded u]
    have "cached p u"
      using f safe assms(7) by (simp add: cached_def reports_from_def path_known_def contended_finish_rest u)
    then show ?thesis using finish_step_mails [OF assms(3,5) f assms(8)] that(1) by blast
  qed
  consider (alone) "c = (\<lambda>_. ([], []))" "step X d e u"
    | (race) end_date now where "e = Finish end_date now" "d_worker d = Running" "d_todo d = []"
        "d_main d = Polling" "u = contended_finish X c end_date now d"
    using assms(1) by (auto elim: race_stepE)
  then show ?thesis
  proof cases
    case alone
    show ?thesis
    proof (cases "is_finish e")
      case True
      then obtain end_date now where e: "e = Finish end_date now" by (cases e) simp_all
      have "safe u" using step_safe [OF alone(2) assms(2)] assms(7) by (simp add: cached_def)
      then show ?thesis using fin [OF e] alone by (simp add: e step_simps contended_finish_quiet)
    next
      case False
      note st = step_cached [OF alone(2) assms(2,7) ok(1) False]
      have "outbox (d_server u) = outbox (d_server d)"
        using step_server(2) [OF alone(2) assms(2)] assms(7) False by (simp add: cached_def)
      then show ?thesis using st spaced_same [OF _ assms(8)] by blast
    qed
  next
    case race
    have "safe u"
      using contended_finish_from [OF assms(2,7) ok(2,3) assms(4), of now end_date] assms(7) race
        contended_finish_rest [of X c end_date now d]
      by (auto simp: safe_def cached_def reports_from_def)
    then show ?thesis using fin race by blast
  qed
qed

lemma race_history_mails:
  assumes "race_history X d es d'" and "integer_keeps X" and "integer_reads_text X" and "x_mkdir_p X p \<noteq> 0"
    and "x_can_write X (email_file p)" and "list_all (race_ok p) es" and "cached p d"
    and "spaced (email_file p) ds (d_server d)"
  shows "\<exists>more. race_mails X d es more d' \<and> spaced (email_file p) (ds @ more) (d_server d')
    \<and> length (outbox (d_server d')) = length (outbox (d_server d)) + length more"
  using assms(1,6-8)
proof (induction es arbitrary: d ds)
  case Nil
  then show ?case using race_mails.nothing [of X d] by (intro exI [of _ "[]"]) simp
next
  case (Cons ec es)
  obtain e c where ec: "ec = (e, c)" by fastforce
  obtain u where u: "race_step X d e c u" "race_history X u es d'" using Cons.prems(1) by (auto simp: ec)
  have ok: "race_ok p (e, c)" "list_all (race_ok p) es" using Cons.prems(2) by (simp_all add: ec)
  note s = race_step_mails [OF u(1) assms(2-5) ok(1) Cons.prems(3,4)]
  then consider "outbox (d_server u) = outbox (d_server d)" "spaced (email_file p) ds (d_server u)"
    | end_date now where "e = Finish end_date now"
        "length (outbox (d_server u)) = Suc (length (outbox (d_server d)))"
        "spaced (email_file p) (ds @ [now]) (d_server u)" by blast
  then show ?case
  proof cases
    case 1
    then obtain more where "race_mails X u es more d'" "spaced (email_file p) (ds @ more) (d_server d')"
      "length (outbox (d_server d')) = length (outbox (d_server u)) + length more"
      using Cons.IH [OF u(2) ok(2) _ 1(2)] s by blast
    then show ?thesis using race_mails.other [OF u(1) 1(1)] 1(1) by (auto simp: ec)
  next
    case 2
    then obtain more where more: "race_mails X u es more d'"
      "spaced (email_file p) ((ds @ [now]) @ more) (d_server d')"
      "length (outbox (d_server d')) = length (outbox (d_server u)) + length more"
      using Cons.IH [OF u(2) ok(2) _ 2(3)] s by blast
    have "outbox (d_server u) \<noteq> outbox (d_server d)" using 2(2) by auto
    from race_mails.sent [OF u(1) [unfolded 2(1)] this more(1)] more 2 show ?thesis
      by (intro exI [of _ "now # more"]) (simp add: ec)
  qed
qed

section \<open>The property\<close>

text \<open>
  C4: whatever the plugins, the messages and the settings do, a daemon that can keep the date
  of its last email sends at most one email at the end of a run and waits five minutes at least
  between two, with messages at any time, also before and inside of the getters of the end of a
  run, as long as none of those inside clears a priority there (\<open>racing_message_sends_an_email\<close>
  says what happens otherwise). It can when \<^verbatim>\<open>mkdir_p()\<close> does not answer 0
  (\<open>emails_without_limit\<close>), the file can be written, and the option \<^verbatim>\<open>cache_path\<close> keeps its value.
\<close>

theorem emails_wait_with_every_message:
  assumes "settings_ok s" and "f_cache_path s = []" and "opt_string s ''cache_path'' = p"
    and "integer_keeps X" and "integer_reads_text X"
    and "x_mkdir_p X p \<noteq> 0" and "x_can_write X (email_file p)"
    and "race_history X (new_daemon q names s) es d" and "list_all (race_ok p) es"
  shows "\<exists>ds. race_mails X (new_daemon q names s) es ds d
    \<and> length (outbox (d_server d)) = length (outbox s) + length ds
    \<and> successively (\<lambda>a b. a + 300 \<le> b) ds"
proof -
  have c: "cached p (new_daemon q names s)"
    using new_daemon_safe [OF assms(1)] bootstrap_logs assms(2,3)
    by (simp add: cached_def) (simp add: new_daemon_def new_objects_def)
  have s: "d_server (new_daemon q names s) = s" by (simp add: new_daemon_def)
  have "spaced (email_file p) [] (d_server (new_daemon q names s))" by (simp add: spaced_def)
  from race_history_mails [OF assms(8,4-7,9) c this] show ?thesis unfolding s by (auto simp: spaced_def)
qed

text \<open>A new low priority before each getter of the end of the run.\<close>

definition new_low0 :: messages where
  "new_low0 = (\<lambda>k. ([(''error-report-low-priority'', \<lambda>_. True, \<lambda>_. ''300'')], []))"

lemma missing0_race_mails:
  "length (outbox (d_server (contended_finish grim_host new_low0 1000 1000 missing0))) = 1"
  by code_simp

theorem emails_wait_with_every_message_witness:
  "\<exists>now. race_mails grim_host (new_daemon process0 [''firewall''] (new_server (\<lambda>_. True) (\<lambda>_. ''300'') 5))
      (map (\<lambda>e. (e, \<lambda>_. ([], []))) [Settings Status_ready [] (\<lambda>_. True) (\<lambda>_. ''300''), Timeout, Loop_head, Wait,
          After_wait 600, Plugin grim_host0] @ [(Finish 1000 1000, new_low0)])
      [now] (contended_finish grim_host new_low0 1000 1000 missing0)"
proof -
  let ?s = "new_server (\<lambda>_. True) (\<lambda>_. ''300'') 5"
  let ?d = "new_daemon process0 [''firewall''] ?s"
  let ?es = "[Settings Status_ready [] (\<lambda>_. True) (\<lambda>_. ''300''), Timeout, Loop_head, Wait, After_wait 600, Plugin grim_host0]"
  let ?rs = "map (\<lambda>e. (e, \<lambda>_. ([], []))) ?es @ [(Finish 1000 1000, new_low0)]"
  have h: "history grim_host ?d ?es missing0" by (rule missing0_started)
  have m: "d_main missing0 = Polling" "d_todo missing0 = []" by (rule missing0_main)+
  have r: "race_history grim_host ?d ?rs (contended_finish grim_host new_low0 1000 1000 missing0)"
    by (intro iffD2 [OF race_history_append] exI [of _ missing0] conjI history_is_race_history [OF h])
      (simp add: race_step.race [OF missing0_worker m(2,1)])
  have x: "integer_keeps grim_host" "integer_reads_text grim_host" "x_mkdir_p grim_host c \<noteq> 0"
    "x_can_write grim_host f" for c f
    using grim_host_ok by simp_all
  have o: "outbox ?s = []" "settings_ok ?s" "f_cache_path ?s = []" "opt_string ?s ''cache_path'' = ''300''"
    by (simp_all add: new_server_def settings_defs)
  have q: "list_all (race_ok ''300'') ?rs"
    by (simp add: race_ok_def messages_keep_def spans_kept_def clears_def new_low0_def)
  from emails_wait_with_every_message [OF o(2-4) x r q] obtain ds where
    "race_mails grim_host ?d ?rs ds (contended_finish grim_host new_low0 1000 1000 missing0)" "length ds = 1"
    using missing0_race_mails o(1) by auto
  then show ?thesis by (cases ds) auto
qed

end
