(* ===== verification/Documents.thy ===== *)
theory Documents
  imports Emails
begin

text \<open>
  What the document of a run says of its errors. The plugins append to the document through
  \<^verbatim>\<open>append_error()\<close> (\<^verbatim>\<open>sitter/sitter.cpp\<close>) and write values of their own between and inside of
  the same objects. \<open>document_errors\<close> reads the errors back from the calls that made the document;
  the relation \<open>documents\<close> says that a computation leaves there the errors it reports and no
  other, all of them unless it raises; each plugin obeys it, by an interpretation of
  \<open>server_relation\<close>, and so does every step of a run. \<^verbatim>\<open>report_error()\<close> (\<^verbatim>\<open>sitter/sitter_worker.cpp\<close>) attaches that document to its email.
\<close>

section \<open>The errors of a document\<close>

text \<open>
  An error is the next item \<open>e\<close> of an array \<^verbatim>\<open>error\<close>, with its three members set at once by the
  calls \<open>d\<close> that follow its \<open>Append\<close>. The calls \<open>pre\<close> are those made before, which number the items.
\<close>

fun item_error :: "jref \<Rightarrow> jdoc \<Rightarrow> (string \<times> int) list" where
  "item_error e (Assign a (JStr p) # Assign b (JStr m) # Assign c (JInt n) # d) =
     (if a = sub e ''plugin_name'' \<and> b = sub e ''message'' \<and> c = sub e ''priority'' then [(p, n)] else [])"
| "item_error e d = []"

definition error_array :: "jref \<Rightarrow> bool" where
  "error_array r \<longleftrightarrow> r \<noteq> [] \<and> last r = Key ''error''"

definition next_item :: "jdoc \<Rightarrow> jref \<Rightarrow> jref" where
  "next_item pre r = r @ [Item (appended pre r)]"

fun document_errors :: "jdoc \<Rightarrow> jdoc \<Rightarrow> (string \<times> int) list" where
  "document_errors pre [] = []"
| "document_errors pre (Append r # d) =
     (if error_array r then item_error (next_item pre r) d else []) @ document_errors (pre @ [Append r]) d"
| "document_errors pre (Member r # d) = document_errors (pre @ [Member r]) d"
| "document_errors pre (Assign r v # d) = document_errors (pre @ [Assign r v]) d"

text \<open>Every item of an array \<^verbatim>\<open>error\<close> has its members.\<close>

fun complete :: "jdoc \<Rightarrow> jdoc \<Rightarrow> bool" where
  "complete pre [] = True"
| "complete pre (Append r # d) =
     ((error_array r \<longrightarrow> item_error (next_item pre r) d \<noteq> []) \<and> complete (pre @ [Append r]) d)"
| "complete pre (Member r # d) = complete (pre @ [Member r]) d"
| "complete pre (Assign r v # d) = complete (pre @ [Assign r v]) d"

lemma item_error_append: "item_error e d \<noteq> [] \<Longrightarrow> item_error e (d @ d') = item_error e d"
  by (induction e d rule: item_error.induct) auto

lemma document_errors_append:
  "complete pre d \<Longrightarrow> document_errors pre (d @ d') = document_errors pre d @ document_errors (pre @ d) d'"
  by (induction pre d rule: document_errors.induct) (auto simp: item_error_append)

lemma complete_append: "complete pre d \<Longrightarrow> complete (pre @ d) d' \<Longrightarrow> complete pre (d @ d')"
  by (induction pre d rule: complete.induct) (auto simp: item_error_append)

lemma error_array_sub [simp]: "error_array (sub r k) \<longleftrightarrow> k = ''error''"
  by (simp add: error_array_def sub_def)

text \<open>The errors that \<^verbatim>\<open>append_error()\<close> accepts, as the document has them.\<close>

definition accepted :: "(severity \<times> string \<times> int) list \<Rightarrow> (string \<times> int) list" where
  "accepted l = filter (\<lambda>(p, n). 0 \<le> n \<and> n \<le> 100) (map snd l)"

lemma accepted_append: "accepted (l @ k) = accepted l @ accepted k"
  by (simp add: accepted_def)

section \<open>Every plugin documents the errors it reports\<close>

definition documents :: "bool \<Rightarrow> server \<Rightarrow> server \<Rightarrow> bool" where
  "documents b s t \<longleftrightarrow> (\<exists>l d. logged t = logged s @ l \<and> doc t = doc s @ d \<and> complete (doc s) d
     \<and> document_errors (doc s) d = accepted l \<and> (\<not> b \<longrightarrow> accepted l = map snd l))"

lemma documentsI:
  "logged t = logged s @ l \<Longrightarrow> doc t = doc s @ d \<Longrightarrow> complete (doc s) d
     \<Longrightarrow> document_errors (doc s) d = accepted l \<Longrightarrow> b \<or> accepted l = map snd l \<Longrightarrow> documents b s t"
  by (auto simp: documents_def)

lemma documents_same: "logged t = logged s \<Longrightarrow> doc t = doc s \<Longrightarrow> documents b s t"
  by (rule documentsI [of _ _ "[]" "[]"]) (simp_all add: accepted_def)

lemma documents_trans:
  assumes "documents b s t" and "documents c t u" and "b \<longrightarrow> c"
  shows "documents c s u"
proof -
  obtain l d where 1: "logged t = logged s @ l" "doc t = doc s @ d" "complete (doc s) d"
    "document_errors (doc s) d = accepted l" "b \<or> accepted l = map snd l"
    using assms(1) by (auto simp: documents_def)
  obtain k e where 2: "logged u = logged t @ k" "doc u = doc t @ e" "complete (doc t) e"
    "document_errors (doc t) e = accepted k" "c \<or> accepted k = map snd k"
    using assms(2) by (auto simp: documents_def)
  from 1 2 assms(3) show ?thesis
    by (intro documentsI [of _ _ "l @ k" "d @ e"])
      (auto simp: complete_append document_errors_append accepted_append)
qed

lemma append_error_documents: "obeys documents (append_error r p m prio)"
proof (rule obeysI)
  fix s :: server
  let ?e = "sub r ''error'' @ [Item (appended (doc s) (sub r ''error''))]"
  let ?d = "[Append (sub r ''error''), Assign (sub ?e ''plugin_name'') (JStr p), Assign (sub ?e ''message'') (JStr m),
    Assign (sub ?e ''priority'') (JInt prio)]"
  show "documents (isl (fst (append_error r p m prio s))) s (snd (append_error r p m prio s))"
  proof (cases "prio < 0 \<or> 100 < prio")
    case True
    then show ?thesis
      by (intro documentsI [of _ _ "[(error_severity prio, p, prio)]" "[]"])
        (auto simp: append_error_apply Let_def accepted_def)
  next
    case False
    then show ?thesis
      by (intro documentsI [of _ _ "[(error_severity prio, p, prio)]" ?d])
        (simp_all add: append_error_apply Let_def accepted_def next_item_def)
  qed
qed

interpretation documented: server_relation documents "\<lambda>path. True"
proof unfold_locales
  show "composes documents"
    unfolding composes_def using documents_same documents_trans by blast
  show "obeys documents (member r)" "obeys documents (assign r v)" for r v
    by (auto simp: obeys_def intro: documentsI [of _ _ "[]"] simp: accepted_def)
  show "obeys documents (append_item (sub r k))" if "k \<noteq> ''error''" for r k
    using that by (auto simp: obeys_def intro!: documentsI [of _ _ "[]" "[Append (sub r k)]"] simp: accepted_def)
  show "obeys documents (append_error r p m prio)" for r p m prio
    by (rule append_error_documents)
qed (auto simp: obeys_def get_cache_path_def write_all_apply Let_def intro!: documents_same)

text \<open>A plugin that raises ends the worker.\<close>

lemma run_plugin_documents: "documents (d_worker (run_plugin h d) = Left) (d_server d) (d_server (run_plugin h d))"
proof (cases "d_todo d")
  case Nil
  then show ?thesis by (simp add: run_plugin_def documents_same)
next
  case (Cons name names)
  obtain r p t where w: "process_watch (loaded_plugins h [name]) [Key ''sitter''] (d_objects d, d_server d) = (r, (p, t))"
    by (metis prod_cases3)
  have "second (documents (isl r)) (d_objects d, d_server d) (p, t)"
    using obeys_result [OF documented.loaded_plugins_obey [OF TrueI] w] .
  then show ?thesis using Cons w by (cases r) (simp_all add: run_plugin_def second_def)
qed

section \<open>The steps of a run\<close>

lemma finish_run_doc:
  assumes "integer_keeps X" and "settings_ok (d_server d)"
  shows "doc (d_server (finish_run X e n d)) = doc (closed e (d_server d))"
proof -
  obtain r t where t: "after_plugins X (d_start d) e n (closed e (d_server d)) = (r, t)" by fastforce
  from keeps_result [OF keeps_after_plugins t] assms have "doc t = doc (closed e (d_server d))"
    by (simp add: mails_def closed_kept)
  then show ?thesis by (simp add: finish_run_def Let_def t split: sum.split)
qed

lemma finish_run_documents:
  assumes "integer_keeps X" and "settings_ok (d_server d)"
  shows "documents b (d_server d) (d_server (finish_run X e n d))"
  using finish_run_doc [OF assms, of e n] finish_run_server(2) [OF assms, of e n]
  by (intro documentsI [of _ _ "[]" "[Assign (sub [Key ''sitter''] ''end_date'') (JInt e)]"])
    (simp_all add: closed_def accepted_def)

lemma step_documents:
  assumes "step X d e d'" and "integer_keeps X" and "safe d" and "\<not> is_start e"
  shows "documents (d_worker d' = Left) (d_server d) (d_server d')"
  using assms(1)
proof (cases rule: step.cases)
  case (settings st name od os)
  then show ?thesis by (cases st) (simp_all add: operation_defs clear_cache_rest clear_cache_def documents_same)
next
  case timeout
  have "settings_ok (d_server d)" using assms(3) by (simp add: safe_def)
  then obtain v where "process_timeout X d =
     d\<lparr>w_ticks := w_ticks d + 1, d_worker := signalled (d_worker d),
       d_server := (d_server d)\<lparr>f_statistics_frequency := v\<rparr>, t_delay := v * 1000000\<rparr>"
    using timeout_result by blast
  then show ?thesis using timeout by (simp add: documents_same)
next
  case (rusage msg now)
  obtain fs where "runs (msg_rusage X msg now) (d_server d) = (d_server d)\<lparr>files := fs\<rparr>"
    using record_usage_files by blast
  then show ?thesis using rusage by (simp add: receive_rusage_def documents_same)
next
  case (run_plugin h)
  then show ?thesis using run_plugin_documents by simp
next
  case (finish e n)
  have "settings_ok (d_server d)" using assms(3) by (simp add: safe_def)
  then show ?thesis using finish finish_run_documents [OF assms(2)] by simp
qed (use assms(4) in \<open>auto simp: operation_defs documents_same\<close>)

lemma history_leaves_left: "history X d es d' \<Longrightarrow> d_worker d = Left \<Longrightarrow> d_worker d' = Left"
  by (induction es arbitrary: d) (auto dest: step_leaves_left)

lemma history_documents:
  assumes "history X d es d'" and "integer_keeps X" and "safe d" and "\<not> list_ex is_start es"
  shows "documents (d_worker d' = Left) (d_server d) (d_server d')"
  using assms(1,3,4)
proof (induction es arbitrary: d)
  case Nil
  then show ?case by (simp add: documents_same)
next
  case (Cons e es)
  obtain u where u: "step X d e u" "history X u es d'" using Cons.prems(1) by auto
  have "documents (d_worker u = Left) (d_server d) (d_server u)"
    using step_documents [OF u(1) assms(2) Cons.prems(2)] Cons.prems(3) by simp
  moreover have "documents (d_worker d' = Left) (d_server u) (d_server d')"
    using Cons.IH [OF u(2) step_safe [OF u(1) assms(2) Cons.prems(2)]] Cons.prems(3) by simp
  moreover have "d_worker u = Left \<longrightarrow> d_worker d' = Left" using history_leaves_left [OF u(2)] by blast
  ultimately show ?case by (rule documents_trans)
qed

section \<open>The email of a run\<close>

text \<open>The email that \<^verbatim>\<open>report_error()\<close> sends, if it does: the settings it reads do not change it.\<close>

definition mailed :: "ext \<Rightarrow> int \<Rightarrow> server \<Rightarrow> server \<Rightarrow> bool" where
  "mailed X start_date s t \<longleftrightarrow> outbox t = outbox s \<or> outbox t = outbox s @ [error_email X start_date s]"

lemma error_email_cong:
  "doc t = doc s \<Longrightarrow> f_error_count t = f_error_count s \<Longrightarrow> opt_string t = opt_string s \<Longrightarrow> opt_defined t = opt_defined s
     \<Longrightarrow> error_email X start_date t = error_email X start_date s"
  by (simp add: error_email_def error_subject_def get_error_count_def get_server_parameter_def Let_def)

lemma reads_email:
  "integer_keeps X \<Longrightarrow> settings_ok s \<Longrightarrow> reads X s t
     \<Longrightarrow> settings_ok t \<and> outbox t = outbox s \<and> error_email X start_date t = error_email X start_date s"
  by (auto simp: reads_def same_but_settings_def intro: error_email_cong)

lemma report_error_mailed:
  assumes "integer_keeps X" and "settings_ok s" and "report_error X now start_date s = (r, t)"
  shows "mailed X start_date s t"
proof -
  consider "same_but_settings s t"
    | v u where "outbox u = outbox s" "doc u = doc s" "opt_string u = opt_string s" "opt_defined u = opt_defined s"
        "f_error_count u = f_error_count s"
        "mail_part X (cache_file X ''last_email_time.txt'' s) now start_date v u = (r, t)"
    using report_error_split [OF assms(1,2), of now start_date] assms(3) by auto
  then show ?thesis
  proof cases
    case 1
    then show ?thesis by (simp add: same_but_settings_def mailed_def)
  next
    case 2
    from mail_part_result [of X "cache_file X ''last_email_time.txt'' s" now start_date v u] 2(6)
    have "mailed X start_date u t" by (auto simp: mailed_def split: if_splits)
    then show ?thesis using 2 error_email_cong [of u s X start_date] by (simp add: mailed_def)
  qed
qed

lemma save_data_changes:
  assumes "settings_ok s" and "save_data X start_date s = (r, t)"
  shows "\<exists>v fs. t = s\<lparr>f_statistics_period := v, files := fs\<rparr>"
proof (cases "get_server_parameter ''data_path'' s = []")
  case True
  then show ?thesis using assms(2)
    by (intro exI [of _ "f_statistics_period s"] exI [of _ "files s"]) (simp add: save_data_def)
next
  case False
  have st: "stats_ok s" using assms(1) by (simp add: settings_ok_def)
  obtain p u where u: "get_statistics_period X s = (p, u)" by fastforce
  obtain v where v: "u = s\<lparr>f_statistics_period := v\<rparr>" using period_fetch(4) [OF u st] by blast
  have "t = u \<or> (\<exists>fs. t = u\<lparr>files := fs\<rparr>)"
    using False assms(2) u
    by (cases p) (auto simp: save_data_def andthen_apply write_all_apply split: if_splits)
  moreover have "u = u\<lparr>files := files u\<rparr>" by simp
  ultimately show ?thesis unfolding v by blast
qed

lemma save_data_email:
  assumes "settings_ok s" and "save_data X start_date s = (r, t)"
  shows "settings_ok t \<and> outbox t = outbox s \<and> error_email X start_date t = error_email X start_date s"
  using save_data_changes [OF assms] save_data_result [OF assms(1), of X start_date] assms(2)
  by (auto intro: error_email_cong)

lemma finish_mailed:
  assumes "integer_keeps X" and "settings_ok (d_server d)"
  shows "mailed X (d_start d) (closed e (d_server d)) (d_server (finish_run X e now d))"
proof -
  let ?s = "closed e (d_server d)"
  have s: "settings_ok ?s" using assms(2) by (simp add: closed_kept)
  obtain r1 t where t: "save_data X (d_start d) ?s = (r1, t)" by fastforce
  note st = save_data_email [OF s t]
  obtain r2 u where u: "get_error_report_settle_time X t = (r2, u)" by fastforce
  note su = reads_email [OF assms(1) _ keeps_result [OF keeps_reads(7) u], of "d_start d"]
  obtain r3 v where v: "report_error X now (d_start d) u = (r3, v)" by fastforce
  note sv = report_error_mailed [OF assms(1) _ v]
  show ?thesis
    using st su sv
    by (auto simp: finish_run_def Let_def after_plugins_def andthen_apply t u v mailed_def split: prod.split sum.split)
qed

section \<open>The property\<close>

text \<open>
  C8: whatever plugins run, and whatever messages come between them, the document that a run ends
  with has one entry, an item of its own, for each error reported since its start, with its plugin
  and its priority, in the order of the reports, and no other; when the run sends an email, it has
  that document attached and the number of its errors in the subject. A run with a priority outside
  of 0 to 100 does not come to its end.
\<close>

theorem email_has_every_error:
  assumes "settings_ok s" and "integer_keeps X" and "history X (new_daemon p names s) es d"
    and "step X d (After_wait start_date) u" and "d_continue d"
    and "history X u fs v" and "\<not> list_ex is_start fs" and "\<not> list_ex is_finish fs"
    and "step X v (Finish end_date now) w"
  shows "\<exists>l. logged (d_server w) = logged (d_server d) @ l
    \<and> document_errors [] (doc (d_server w)) = map snd l \<and> complete [] (doc (d_server w))
    \<and> (outbox (d_server w) = outbox (d_server d)
       \<or> (\<exists>m. outbox (d_server w) = outbox (d_server d) @ [m]
            \<and> em_attachment m = x_json_text X (doc (d_server w))
            \<and> em_subject m = ''sitter: found '' @ int_text (int (length l)) @ '' error''
                @ (if length l = 1 then [] else ''s'') @ '' on '' @ x_hostname X))"
proof -
  have safe: "safe d" using started_safe [OF assms(1-3)] .
  have su: "safe u" using step_safe [OF assms(4,2) safe] .
  have sv: "safe v" using history_safe [OF assms(6,2) su] .
  have ok: "settings_ok (d_server v)" using sv by (simp add: safe_def)
  have w: "w = finish_run X end_date now v" using assms(9) by (simp add: step_simps)
  have u: "d_server u = opened start_date (d_server d)"
    using assms(4,5) by (simp add: step_simps after_wait_def)
  have h: "history X u (fs @ [Finish end_date now]) w" unfolding history_append using assms(6,9) by auto
  have ns: "\<not> list_ex is_start (fs @ [Finish end_date now])" using assms(7) by simp
  have "documents False (d_server u) (d_server v)"
    using history_documents [OF assms(6,2) su assms(7)] assms(9) by (auto simp: step_simps)
  moreover have "documents False (d_server v) (d_server w)" unfolding w by (rule finish_run_documents [OF assms(2) ok])
  ultimately have "documents False (d_server u) (d_server w)" by (rule documents_trans) simp
  then obtain l k where l: "logged (d_server w) = logged (d_server u) @ l" "doc (d_server w) = doc (d_server u) @ k"
    "complete (doc (d_server u)) k" "document_errors (doc (d_server u)) k = map snd l"
    by (auto simp: documents_def)
  have count: "f_error_count (d_server v) = int (length l)"
    using history_reports [OF h assms(2) su ns] l(1) finish_run_server(3) [OF assms(2) ok, of end_date now]
    by (auto simp: reports_more_def u opened_kept w)
  have box: "outbox (d_server v) = outbox (d_server d)"
    using history_silent [OF assms(6,2) su assms(8)] step_server(2) [OF assms(4,2) safe] by simp
  have "complete [] (doc (d_server u))" "document_errors [] (doc (d_server u)) = []"
    by (simp_all add: u opened_def clear_errors_def)
  then have "document_errors [] (doc (d_server w)) = map snd l \<and> complete [] (doc (d_server w))"
    using l by (simp add: document_errors_append complete_append)
  moreover have "mailed X (d_start v) (closed end_date (d_server v)) (d_server w)"
    using finish_mailed [OF assms(2) ok] w by simp
  ultimately show ?thesis
    using l(1) box count finish_run_doc [OF assms(2) ok, of end_date now]
    by (auto simp: mailed_def u opened_kept closed_kept w error_email_def error_subject_def get_error_count_def Let_def)
qed

text \<open>The run of \<open>missing0\<close>, whose firewall plugin misses its process, and its email.\<close>

theorem email_has_every_error_witness:
  "\<exists>(l :: (severity \<times> string \<times> int) list) m. document_errors [] (doc (d_server (finish_run grim_host 1000 1000 missing0))) = map snd l
     \<and> outbox (d_server (finish_run grim_host 1000 1000 missing0)) = [m]
     \<and> em_attachment m = x_json_text grim_host (doc (d_server (finish_run grim_host 1000 1000 missing0)))"
proof -
  let ?s = "new_server (\<lambda>_. True) (\<lambda>_. ''300'') 5"
  let ?w = "finish_run grim_host 1000 1000 missing0"
  let ?es = "[Settings Status_ready [] (\<lambda>_. True) (\<lambda>_. ''300''), Timeout, Loop_head, Wait]"
  have ok: "settings_ok ?s" by (simp add: new_server_def settings_defs)
  have "history grim_host (new_daemon process0 [''firewall''] ?s) (?es @ After_wait 600 # [Plugin grim_host0]) missing0"
    using missing0_started by simp
  then obtain d where d: "history grim_host (new_daemon process0 [''firewall''] ?s) ?es d"
    and "history grim_host d (After_wait 600 # [Plugin grim_host0]) missing0"
    unfolding history_append by blast
  then obtain u where u: "step grim_host d (After_wait 600) u" "history grim_host u [Plugin grim_host0] missing0"
    by auto
  have c: "d_continue d" using u by (auto simp: step_simps after_wait_def split: if_splits)
  have f: "step grim_host missing0 (Finish 1000 1000) ?w"
    using missing0_worker missing0_main by (simp add: step_simps)
  have "outbox (d_server d) = []"
    using history_silent [OF d grim_host_ok(1) new_daemon_safe [OF ok]] by (simp add: new_daemon_def new_server_def)
  with email_has_every_error [OF ok grim_host_ok(1) d u(1) c u(2) _ _ f] missing0_mails show ?thesis by auto
qed

end
