(* ===== verification/Mail_Rule.thy ===== *)
theory Mail_Rule
  imports Documents
begin

text \<open>
  Exactly when the end of a run sends its email (\<^verbatim>\<open>run_plugins()\<close> and \<^verbatim>\<open>report_error()\<close> of
  \<^verbatim>\<open>sitter/sitter_worker.cpp\<close>). The settings are what their getters would return; each getter only
  looks at its own members and option, so what the others loaded in between does not matter.
\<close>

section \<open>The settings of a report\<close>

definition for_reports :: "setting list" where
  "for_reports = [Low_priority, Low_span, Medium_priority, Medium_span, Critical_priority, Critical_span]"

definition read_as :: "ext \<Rightarrow> (setting \<Rightarrow> int) \<Rightarrow> setting list \<Rightarrow> server \<Rightarrow> bool" where
  "read_as X v gs s \<longleftrightarrow> list_all (\<lambda>g. fst (get_setting X g s) = Inr (v g)) gs"

definition span_of :: "(setting \<Rightarrow> int) \<Rightarrow> int \<Rightarrow> int" where
  "span_of v p = (if v Critical_priority \<le> p then v Critical_span
     else if v Medium_priority \<le> p then v Medium_span else v Low_span)"

text \<open>The members that a getter reads and writes, for the settings of a report.\<close>

fun own :: "setting \<Rightarrow> server \<Rightarrow> int \<times> int" where
  "own Low_priority s = (f_error_report_low_priority s, f_error_report_low_span s)"
| "own Low_span s = (f_error_report_low_priority s, f_error_report_low_span s)"
| "own Medium_priority s = (f_error_report_medium_priority s, f_error_report_medium_span s)"
| "own Medium_span s = (f_error_report_medium_priority s, f_error_report_medium_span s)"
| "own Critical_priority s = (f_error_report_critical_priority s, f_error_report_critical_span s)"
| "own Critical_span s = (f_error_report_critical_priority s, f_error_report_critical_span s)"
| "own Settle_time s = (f_error_report_settle_time s, 0)"
| "own Statistics_frequency s = (f_statistics_frequency s, 0)"
| "own Statistics_period s = (f_statistics_period s, 0)"
| "own Statistics_ttl s = (f_statistics_ttl s, f_statistics_period s)"

lemma low_cong:
  assumes "own Low_priority t = own Low_priority s" and "opt_string t = opt_string s"
  shows "fst (get_error_report_low_priority X t) = fst (get_error_report_low_priority X s)
    \<and> f_error_report_low_span (snd (get_error_report_low_priority X t))
      = f_error_report_low_span (snd (get_error_report_low_priority X s))"
  using assms by (simp add: get_error_report_low_priority_def Let_def split: list.split option.split)

lemma medium_cong:
  assumes "own Medium_priority t = own Medium_priority s" and "opt_string t = opt_string s"
  shows "fst (get_error_report_medium_priority X t) = fst (get_error_report_medium_priority X s)
    \<and> f_error_report_medium_span (snd (get_error_report_medium_priority X t))
      = f_error_report_medium_span (snd (get_error_report_medium_priority X s))"
  using assms by (simp add: get_error_report_medium_priority_def Let_def split: list.split option.split)

lemma critical_cong:
  assumes "own Critical_priority t = own Critical_priority s" and "opt_string t = opt_string s"
  shows "fst (get_error_report_critical_priority X t) = fst (get_error_report_critical_priority X s)
    \<and> f_error_report_critical_span (snd (get_error_report_critical_priority X t))
      = f_error_report_critical_span (snd (get_error_report_critical_priority X s))"
  using assms by (simp add: get_error_report_critical_priority_def Let_def split: list.split option.split)

lemma get_setting_cong:
  assumes "own g t = own g s" and "opt_string t = opt_string s"
  shows "fst (get_setting X g t) = fst (get_setting X g s)"
  using assms low_cong [of t s X] medium_cong [of t s X] critical_cong [of t s X]
  by (cases g)
    (simp_all add: span_result get_statistics_frequency_def get_statistics_period_def get_statistics_ttl_def
      get_error_report_settle_time_def Let_def split: option.split)

section \<open>One read after another\<close>

text \<open>The settings that share their members with another.\<close>

fun priority_of :: "setting \<Rightarrow> setting" where
  "priority_of Low_span = Low_priority"
| "priority_of Medium_span = Medium_priority"
| "priority_of Critical_span = Critical_priority"
| "priority_of g = g"

lemma read_other:
  assumes "integer_keeps X" and "settings_ok s" and "g \<in> set for_reports" and "h \<in> set for_reports"
    and "priority_of g \<noteq> priority_of h"
  shows "fst (get_setting X h (snd (get_setting X g s))) = fst (get_setting X h s)"
proof (rule get_setting_cong)
  show "opt_string (snd (get_setting X g s)) = opt_string s"
    using get_setting_rest [OF assms(1,2)] by (simp add: same_but_settings_def)
  show "own h (snd (get_setting X g s)) = own h s"
    using get_setting_frame [OF assms(1,2), of g] assms(3-5)
    by (cases g; cases h) (auto simp: for_reports_def)
qed

text \<open>A span after its priority.\<close>

lemma read_span:
  assumes "integer_keeps X" and "settings_ok s" and "h \<in> {Low_span, Medium_span, Critical_span}"
    and "fst (get_setting X (priority_of h) s) = Inr v"
  shows "fst (get_setting X h (snd (get_setting X (priority_of h) s))) = fst (get_setting X h s)"
proof -
  have ok: "low_ok s" "medium_ok s" "critical_ok s" using assms(2) by (simp_all add: settings_ok_def)
  let ?t = "snd (get_setting X (priority_of h) s)"
  have "is_loaded h ?t"
    using assms(3) low_fetch(2) [OF surjective_pairing assms(1) ok(1)]
      medium_fetch(2) [OF surjective_pairing assms(1) ok(2)] critical_fetch(2) [OF surjective_pairing assms(1) ok(3)]
    by auto
  then have "fst (get_setting X h ?t) = Inr (peek h ?t)" by (simp only: get_setting_hit fst_conv)
  then show ?thesis using assms(3,4) by (auto simp: span_result)
qed

section \<open>The rule\<close>

lemma error_span_value:
  assumes "integer_keeps X" and "settings_ok s"
    and "fst (get_setting X Low_span s) = Inr (v Low_span)"
    and "fst (get_setting X Critical_priority s) = Inr (v Critical_priority)"
    and "fst (get_setting X Critical_span s) = Inr (v Critical_span)"
    and "fst (get_setting X Medium_priority s) = Inr (v Medium_priority)"
    and "fst (get_setting X Medium_span s) = Inr (v Medium_span)"
  shows "fst (error_span X p s) = Inr (span_of v p)"
proof -
  let ?s1 = "snd (get_setting X Low_span s)"
  let ?s2 = "snd (get_setting X Critical_priority ?s1)"
  let ?s3 = "snd (get_setting X Medium_priority ?s2)"
  have ok1: "settings_ok ?s1" using get_setting_ok [OF assms(1,2)] .
  have ok2: "settings_ok ?s2" using get_setting_ok [OF assms(1) ok1] .
  have r1: "fst (get_setting X h ?s1) = fst (get_setting X h s)"
    if "h \<in> {Medium_priority, Medium_span, Critical_priority, Critical_span}" for h
    using that by (intro read_other [OF assms(1,2)]) (auto simp: for_reports_def)
  have r2: "fst (get_setting X h ?s2) = fst (get_setting X h s)" if "h \<in> {Medium_priority, Medium_span}" for h
    using that r1 [of h] read_other [OF assms(1) ok1, of Critical_priority h] by (auto simp: for_reports_def)
  have c: "fst (get_setting X Critical_span ?s2) = Inr (v Critical_span)"
    using read_span [OF assms(1) ok1, of Critical_span] r1 [of Critical_priority] r1 [of Critical_span] assms(4,5) by simp
  have m: "fst (get_setting X Medium_span ?s3) = Inr (v Medium_span)"
    using read_span [OF assms(1) ok2, of Medium_span] r2 [of Medium_priority] r2 [of Medium_span] assms(6,7) by simp
  obtain s1 s2 s3 where s: "s1 = ?s1" "s2 = ?s2" "s3 = ?s3" by blast
  then have "get_setting X Low_span s = (Inr (v Low_span), s1)"
    "get_setting X Critical_priority s1 = (Inr (v Critical_priority), s2)"
    "get_setting X Medium_priority s2 = (Inr (v Medium_priority), s3)"
    using assms(3,4,6) r1 [of Critical_priority] r2 [of Medium_priority] by (simp_all add: prod_eq_iff)
  then have "error_span X p s =
     (if v Critical_priority \<le> p then get_setting X Critical_span s2
      else if v Medium_priority \<le> p then get_setting X Medium_span s3 else (Inr (v Low_span), s3))"
    by (simp add: error_span_def andthen_apply)
  then show ?thesis using c m s by (simp add: span_of_def)
qed

text \<open>What \<^verbatim>\<open>report_error()\<close> asks of the server, the settings being \<open>v\<close>.\<close>

definition email_due :: "ext \<Rightarrow> (setting \<Rightarrow> int) \<Rightarrow> int \<Rightarrow> server \<Rightarrow> bool" where
  "email_due X v now s \<longleftrightarrow> v Low_priority \<le> get_max_error_priority s
     \<and> \<not> too_early X (files s (cache_file X ''last_email_time.txt'' s)) now (span_of v (get_max_error_priority s))
     \<and> get_server_parameter ''from_email'' s \<noteq> [] \<and> get_server_parameter ''administrator_email'' s \<noteq> []"

lemma report_error_sends:
  assumes "integer_keeps X" and "settings_ok s" and "read_as X v for_reports s"
  shows "outbox (runs (report_error X now start_date) s)
    = outbox s @ (if email_due X v now s then [error_email X start_date s] else [])"
proof -
  have v: "fst (get_setting X g s) = Inr (v g)"
    if "g \<in> {Low_priority, Low_span, Medium_priority, Medium_span, Critical_priority, Critical_span}" for g
    using assms(3) that by (auto simp: read_as_def for_reports_def)
  let ?p = "f_max_error_priority s"
  obtain s1 where 1: "get_error_report_low_priority X s = (Inr (v Low_priority), s1)"
    using v [of Low_priority] by (cases "get_error_report_low_priority X s") simp
  have k1: "settings_ok s1" "same_but_settings s s1"
    using keeps_result [OF keeps_reads(1) 1] assms(1,2) by (simp_all add: reads_def)
  have r1: "fst (get_setting X h s1) = Inr (v h)"
    if "h \<in> {Medium_priority, Medium_span, Critical_priority, Critical_span}" for h
    using read_other [OF assms(1,2), of Low_priority h] 1 v [of h] that by (auto simp: for_reports_def)
  have "fst (get_setting X Low_span s1) = Inr (v Low_span)"
    using read_span [OF assms(1,2), of Low_span] 1 v [of Low_span] by simp
  then have "fst (error_span X ?p s1) = Inr (span_of v ?p)"
    by (rule error_span_value [OF assms(1) k1(1) _ r1 r1 r1 r1]) simp_all
  then obtain s2 where 2: "error_span X ?p s1 = (Inr (span_of v ?p), s2)" by (metis prod.collapse)
  have "same_but_settings s1 s2"
    using keeps_result [OF keeps_error_span 2] assms(1) k1 by (simp add: reads_def)
  then have k: "same_but_settings s s2" using k1(2) by (simp add: same_but_settings_def)
  obtain cp where cp: "get_cache_path X ''last_email_time.txt'' s2
      = (Inr (cache_file X ''last_email_time.txt'' s2), s2\<lparr>f_cache_path := cp\<rparr>)"
    using get_cache_path_result by blast
  let ?f = "cache_file X ''last_email_time.txt'' s" and ?u = "s2\<lparr>f_cache_path := cp\<rparr>"
  have f: "cache_file X ''last_email_time.txt'' s2 = ?f" using k by (simp add: same_but_settings_def cache_file_def)
  have report: "report_error X now start_date s =
     (if ?p < v Low_priority then (Inr (), s1) else mail_part X ?f now start_date (span_of v ?p) ?u)"
    unfolding report_error_def mail_part_def
    using 1 2 cp by (simp add: andthen_apply get_max_error_priority_def f)
  obtain t where t: "mail_part X ?f now start_date (span_of v ?p) ?u = (Inr (), t)"
    "if too_early X (files ?u ?f) now (span_of v ?p) then t = ?u
     else files t = (if x_can_write X ?f then (files ?u)(?f \<mapsto> int_text now) else files ?u)
       \<and> outbox t = outbox ?u
         @ (if get_server_parameter ''from_email'' ?u = [] \<or> get_server_parameter ''administrator_email'' ?u = []
            then [] else [error_email X start_date ?u])"
    using mail_part_result [of X ?f now start_date "span_of v ?p" ?u] by blast
  have "error_email X start_date ?u = error_email X start_date s"
    using k by (intro error_email_cong) (simp_all add: same_but_settings_def)
  then show ?thesis
    using t k k1(2) report
    by (auto simp: runs_def email_due_def get_max_error_priority_def same_but_settings_def get_server_parameter_def
        split: if_splits)
qed

section \<open>The end of a run\<close>

lemma read_as_cong:
  assumes "read_as X v gs s" and "opt_string t = opt_string s" and "\<And>g. g \<in> set gs \<Longrightarrow> own g t = own g s"
  shows "read_as X v gs t"
  using assms get_setting_cong [of _ t s X] by (simp add: read_as_def list_all_iff)

text \<open>Neither the data file nor the settings read before it change what the report sees.\<close>

lemma email_due_cong:
  assumes "opt_string t = opt_string s" and "opt_defined t = opt_defined s" and "f_cache_path t = f_cache_path s"
    and "f_max_error_priority t = f_max_error_priority s"
    and "files t (cache_file X ''last_email_time.txt'' s) = files s (cache_file X ''last_email_time.txt'' s)"
  shows "email_due X v now t = email_due X v now s"
proof -
  have "cache_file X ''last_email_time.txt'' t = cache_file X ''last_email_time.txt'' s"
    using assms(1,3) by (simp add: cache_file_def)
  then show ?thesis using assms by (simp add: email_due_def get_max_error_priority_def get_server_parameter_def)
qed

lemma cache_file_not_json: "cache_file X ''last_email_time.txt'' s \<noteq> dir @ CHR ''/'' # name @ ''.json''"
proof -
  have "email_file c \<noteq> dir @ CHR ''/'' # name @ ''.json''" for c
    using other_files(4) [of "dir @ ''/'' @ name" c] by simp
  then show ?thesis by (simp add: cache_file_def email_file_def)
qed

lemma save_data_unseen:
  assumes "settings_ok s" and "save_data X start_date s = (r, t)"
  shows "r = Inr () \<and> settings_ok t \<and> f_error_count t = f_error_count s
    \<and> (\<forall>g \<in> set (Settle_time # for_reports). own g t = own g s) \<and> opt_string t = opt_string s
    \<and> email_due X v now t = email_due X v now s"
proof -
  obtain p fs where t: "t = s\<lparr>f_statistics_period := p, files := fs\<rparr>"
    using save_data_changes [OF assms] by blast
  have "files t (cache_file X ''last_email_time.txt'' s) = files s (cache_file X ''last_email_time.txt'' s)"
    using save_data_result [OF assms(1), of X start_date] assms(2) cache_file_not_json
    by (auto simp: Let_def split: if_splits)
  then have "email_due X v now t = email_due X v now s" by (intro email_due_cong) (simp_all add: t)
  moreover have "settings_ok t" "r = Inr ()" using save_data_result [OF assms(1), of X start_date] assms(2) by auto
  ultimately show ?thesis by (simp add: t for_reports_def)
qed

lemma finish_sends:
  assumes "integer_keeps X" and "settings_ok (d_server d)" and "read_as X v (Settle_time # for_reports) (d_server d)"
  shows "outbox (d_server (finish_run X e now d)) = outbox (d_server d)
    @ (if 2 < x_json_members X (doc (closed e (d_server d))) [Key ''sitter''] \<and> 0 < get_error_count (d_server d)
          \<and> v Settle_time \<le> e - d_start d \<and> email_due X v now (d_server d)
       then [error_email X (d_start d) (closed e (d_server d))] else [])"
proof -
  let ?s = "closed e (d_server d)"
  have s: "settings_ok ?s" "email_due X v now ?s = email_due X v now (d_server d)"
    using assms(2) by (simp add: closed_kept) (intro email_due_cong, simp_all add: closed_def)
  obtain r t where t: "save_data X (d_start d) ?s = (r, t)" by fastforce
  note st = save_data_unseen [OF s(1) t, of v now] and se = save_data_email [OF s(1) t]
  have rt: "read_as X v (Settle_time # for_reports) t"
    using st by (intro read_as_cong [OF assms(3)]) (auto simp: closed_def for_reports_def)
  obtain u where u: "get_error_report_settle_time X t = (Inr (v Settle_time), u)"
    using rt by (cases "get_error_report_settle_time X t") (simp add: read_as_def)
  have su: "settings_ok u" "same_but_settings t u"
    using keeps_result [OF keeps_reads(7) u] assms(1) st by (simp_all add: reads_def)
  have "own g u = own g t" if "g \<in> set for_reports" for g
    using get_setting_frame [OF assms(1), of t Settle_time] u st that
    by (cases g) (auto simp: for_reports_def)
  then have ru: "read_as X v for_reports u"
    using rt su(2) by (intro read_as_cong [of X v for_reports t u]) (simp_all add: read_as_def same_but_settings_def)
  have du: "email_due X v now u = email_due X v now (d_server d)"
    using su(2) st s(2) by (simp add: email_due_cong [of u t] same_but_settings_def)
  have eu: "error_email X (d_start d) u = error_email X (d_start d) ?s" "outbox u = outbox (d_server d)"
    using su(2) se error_email_cong [of u t X "d_start d"] by (simp_all add: same_but_settings_def closed_kept)
  obtain q w where w: "report_error X now (d_start d) u = (q, w)" by fastforce
  have "outbox w = outbox (d_server d)
      @ (if email_due X v now (d_server d) then [error_email X (d_start d) ?s] else [])"
    using report_error_sends [OF assms(1) su(1) ru, of now "d_start d"] w du eu by (simp add: runs_def)
  then show ?thesis
    using st se su(2) t u w
    by (auto simp: finish_run_def Let_def after_plugins_def andthen_apply get_error_count_def closed_kept
        same_but_settings_def split: sum.split)
qed

section \<open>The property\<close>

text \<open>
  C9: in every history, the end of a run sends an email exactly when the document has more than its
  two dates, the run reported errors, it took the settle time at least, the worst priority is not
  under the low one, the last email is older than the span of that priority, and both addresses
  are set; it sends one, with the document and the counters of the run. The settings \<open>v\<close> are what
  the getters answer at that point.
\<close>

theorem run_sends_email_exactly_when_due:
  assumes "settings_ok s" and "integer_keeps X" and "history X (new_daemon p names s) es d"
    and "read_as X v (Settle_time # for_reports) (d_server d)"
    and "step X d (Finish end_date now) w"
  shows "outbox (d_server w) = outbox (d_server d)
    @ (if 2 < x_json_members X (doc (d_server w)) [Key ''sitter''] \<and> 0 < get_error_count (d_server d)
          \<and> v Settle_time \<le> end_date - d_start d \<and> email_due X v now (d_server d)
       then [error_email X (d_start d) (closed end_date (d_server d))] else [])"
proof -
  have ok: "settings_ok (d_server d)" using started_safe [OF assms(1-3)] by (simp add: safe_def)
  have w: "w = finish_run X end_date now d" using assms(5) by (simp add: step_simps)
  show ?thesis
    using finish_sends [OF assms(2) ok assms(4), of end_date now] finish_run_doc [OF assms(2) ok, of end_date now]
    by (simp add: w)
qed

text \<open>The settings that \<open>300\<close> gives for every option, and the run of \<open>missing0\<close>.\<close>

fun settings0 :: "setting \<Rightarrow> int" where
  "settings0 Settle_time = 300"
| "settings0 Low_priority = 50"
| "settings0 Low_span = 604800"
| "settings0 Medium_priority = 90"
| "settings0 Medium_span = 259200"
| "settings0 Critical_priority = 90"
| "settings0 Critical_span = 86400"
| "settings0 _ = 0"

lemma missing0_settings: "read_as grim_host settings0 (Settle_time # for_reports) (d_server missing0)"
  by code_simp

lemma missing0_start: "d_start missing0 = 600"
  by code_simp

lemma missing0_due: "email_due grim_host settings0 1000 (d_server missing0)"
  by code_simp

theorem run_sends_email_exactly_when_due_witness:
  "outbox (d_server (finish_run grim_host 1000 1000 missing0)) = [error_email grim_host 600 (closed 1000 (d_server missing0))]
   \<and> outbox (d_server (finish_run grim_host 800 800 missing0)) = outbox (d_server missing0)"
proof -
  have ok: "settings_ok (new_server (\<lambda>_. True) (\<lambda>_. ''300'') 5)" by (simp add: new_server_def settings_defs)
  have f: "step grim_host missing0 (Finish e n) (finish_run grim_host e n missing0)" for e n
    using missing0_worker missing0_main by (simp add: step_simps)
  note rule = run_sends_email_exactly_when_due [OF ok grim_host_ok(1) missing0_started missing0_settings f,
      unfolded missing0_start]
  have "outbox (d_server missing0) = []"
    using history_silent [OF missing0_started grim_host_ok(1) new_daemon_safe [OF ok]]
    by (simp add: new_daemon_def new_server_def)
  then show ?thesis
    using rule [of 1000 1000] rule [of 800 800] missing0_mails missing0_due by (simp split: if_splits)
qed

end
