(* ===== verification/Worker_Rest.thy ===== *)
theory Worker_Rest
  imports Daemon_Use
begin

text \<open>
  The worker alone: what \<^verbatim>\<open>loop()\<close>, \<^verbatim>\<open>wait_next_tick()\<close> and \<^verbatim>\<open>run_plugins()\<close> do while the main thread
  does nothing. The loop has no bound of its own; the lemmas give one, from the ticks that are
  pending and the plugins that are loaded: the ticks are taken all at once, so there is at most
  one more run, and then the thread waits.
\<close>

section \<open>The steps that are left\<close>

fun of_worker :: "event \<Rightarrow> bool" where
  "of_worker Loop_head = True"
| "of_worker Wait = True"
| "of_worker (After_wait start_date) = True"
| "of_worker (Plugin h) = True"
| "of_worker (Finish end_date now) = True"
| "of_worker Ended = True"
| "of_worker e = False"

text \<open>From the test of the ticks: the wait only, or else a whole run and the wait.\<close>

definition steps_from_test :: "daemon \<Rightarrow> nat" where
  "steps_from_test d = (if w_ticks d = 0 then 1 else length (d_plugins d) + 5)"

fun steps_from :: "worker_phase \<Rightarrow> daemon \<Rightarrow> nat" where
  "steps_from Left d = 0"
| "steps_from Blocked d = 0"
| "steps_from Testing d = (if d_continue d then steps_from_test d else 2)"
| "steps_from In_loop d = (if d_continue d then steps_from_test d + 1 else 1)"
| "steps_from Returned d = (if d_continue d then length (d_plugins d) + 3 + steps_from_test d else 1)"
| "steps_from Running d = length (d_todo d) + (if d_continue d then steps_from_test d + 2 else 2)"

definition steps_left :: "daemon \<Rightarrow> nat" where
  "steps_left d = steps_from (d_worker d) d + (if d_ended d then 0 else 1)"

lemma steps_left_bound: "steps_left d \<le> length (d_todo d) + 2 * length (d_plugins d) + 9"
  by (cases "d_worker d") (simp_all add: steps_left_def steps_from_test_def)

lemma worker_step_decreases:
  assumes "step X d e u" and "of_worker e"
  shows "steps_left u < steps_left d"
proof -
  have f: "steps_left (finish_run X e n d) < steps_left d" if "d_worker d = Running" for e n
    using that finish_run_worker [of X e n d]
    by (auto simp: steps_left_def steps_from_test_def finish_run_rest)
  have p: "steps_left (run_plugin h d) < steps_left d" if "d_worker d = Running" "d_todo d \<noteq> []" for h
    using that run_plugin_worker [of d h]
    by (cases "d_todo d") (auto simp: steps_left_def steps_from_test_def run_plugin_rest)
  have w: "d_worker d = In_loop \<Longrightarrow> steps_left (loop_head d) < steps_left d"
    "d_worker d = Testing \<Longrightarrow> steps_left (wait_next_tick d) < steps_left d"
    "d_worker d = Returned \<Longrightarrow> steps_left (after_wait n d) < steps_left d" for n
    by (auto simp: steps_left_def steps_from_test_def loop_head_def wait_next_tick_def after_wait_def)
  have "d_worker d = Left \<Longrightarrow> \<not> d_ended d \<Longrightarrow> steps_left (thread_ended d) < steps_left d"
    by (simp add: steps_left_def thread_ended_def)
  note w = w this
  show ?thesis using assms by (cases rule: step.cases) (simp_all add: f p w)
qed

lemma worker_history:
  assumes "history X d es d'" and "list_all of_worker es"
  shows "length es + steps_left d' \<le> steps_left d"
  using assms
proof (induction es arbitrary: d)
  case Nil
  then show ?case by simp
next
  case (Cons e es)
  obtain u where u: "step X d e u" "history X u es d'" using Cons.prems(1) by auto
  show ?case using worker_step_decreases [OF u(1)] Cons.IH [OF u(2)] Cons.prems(2) by simp
qed

lemma worker_progress:
  fixes h :: host
  assumes "h_ext h = X" and "d_worker d \<noteq> Blocked" and "\<not> d_ended d"
  shows "\<exists>e u. of_worker e \<and> step X d e u"
proof (cases "d_worker d")
  case Running
  then show ?thesis
    using assms(1) step.run_plugin [of d h X] step.finish [of d X] of_worker.simps(4,5)
    by (cases "d_todo d = []") blast+
qed (use assms step.loop_head [of d X] step.wait [of d X] step.after_wait [of d X] step.ended [of d X] of_worker.simps(1-3,6) in blast)+

section \<open>The property\<close>

text \<open>
  C5: left alone by the main thread, the worker comes to rest: whatever ticks are pending, it
  makes at most 2 n + 9 steps besides the plugins left in its run, n being the number of
  plugins that are loaded, and it can go on until it waits with no tick pending or has ended.
\<close>

theorem worker_comes_to_rest:
  fixes h :: host
  assumes "settings_ok s" and "integer_keeps X" and "history X (new_daemon p names s) es d"
    and "history X d fs d'" and "list_all of_worker fs" and "h_ext h = X"
  shows "length fs \<le> length (d_todo d) + 2 * length (d_plugins d) + 9
    \<and> (d_ended d' \<or> d_worker d' = Blocked \<and> w_ticks d' = 0 \<or> (\<exists>e u. of_worker e \<and> step X d' e u))"
proof -
  have "length fs \<le> length (d_todo d) + 2 * length (d_plugins d) + 9"
    using worker_history [OF assms(4,5)] steps_left_bound [of d] by simp
  moreover have "safe d'" using history_safe [OF assms(4,2) started_safe [OF assms(1-3)]] .
  ultimately show ?thesis using worker_progress [OF assms(6), of d'] by (auto simp: safe_def)
qed

text \<open>After two ticks: one run of the two plugins, and the worker waits.\<close>

theorem worker_comes_to_rest_witness:
  "\<exists>e u. of_worker e \<and> step plain_host running0 e u"
proof -
  have h: "history plain_host ticked0 [Loop_head, Wait, After_wait 100] running0"
    using running0_step by (simp add: step_simps ticked0_fields running0_def loop_head_def wait_next_tick_def)
  have x: "h_ext host0 = plain_host" by (simp add: host0_def)
  have w: "d_worker running0 = Running" "\<not> d_ended running0"
    by (simp_all add: running0_fields) (simp add: running0_def after_wait_def wait_next_tick_def loop_head_def ticked0_fields)
  from worker_comes_to_rest [OF _ plain_host_keeps ticked0_history [unfolded started0_def] h _ x] w
  show ?thesis by simp
qed

end
