(* ===== verification/Find_Process.thy ===== *)
theory Find_Process
  imports Host
begin

text \<open>
  The \<^verbatim>\<open>find-process\<close> tool (\<^verbatim>\<open>tools/find_process.cpp\<close>): its exit code tells a shell script whether
  a process runs. The running processes are what \<^verbatim>\<open>cppprocess::process_list\<close> iterates over:
  the base name of each and its arguments, the first of which is the command itself.
\<close>

section \<open>The command line\<close>

record find_opts =
  fo_verbose :: bool
  fo_regex :: bool
  fo_script :: string
  fo_process_name :: string

text \<open>What constructing \<^verbatim>\<open>advgetopt::getopt\<close> ends with.\<close>

datatype getopt = Getopt_exit int | Getopt_raises | Options find_opts

type_synonym running = "string \<times> string list"

section \<open>The tool\<close>

text \<open>\<^verbatim>\<open>std::regex\<close> raises for an invalid pattern when it is constructed.\<close>

definition new_regex :: "ext \<Rightarrow> string \<Rightarrow> exn + string" where
  "new_regex X pattern = (if x_regex X pattern [] = None then Inl Regex_error else Inr pattern)"

definition full_match :: "ext \<Rightarrow> bool \<Rightarrow> string \<Rightarrow> string \<Rightarrow> bool" where
  "full_match X regex name pattern = (if regex then x_regex X pattern name = Some True else name = pattern)"

text \<open>The first argument that is not an option.\<close>

fun script_command :: "string list \<Rightarrow> string" where
  "script_command [] = []"
| "script_command (a # as) = (if a \<noteq> [] \<and> hd a \<noteq> CHR ''-'' then a else script_command as)"

definition base_name :: "string \<Rightarrow> string" where
  "base_name command = after_last (CHR ''/'') command"

text \<open>The loop over the processes: the exit value, and what the verbose mode prints.\<close>

definition say :: "find_opts \<Rightarrow> string \<Rightarrow> string list \<Rightarrow> string list" where
  "say opts line out = (if fo_verbose opts then out @ [line] else out)"

fun find_loop :: "ext \<Rightarrow> find_opts \<Rightarrow> running list \<Rightarrow> string list \<Rightarrow> int \<times> string list" where
  "find_loop X opts [] out = (1, out)"
| "find_loop X opts ((name, args) # ps) out =
     (if name = [] then find_loop X opts ps out
      else if fo_script opts \<noteq> [] then
        let command = script_command (drop 1 args) in
        if command = [] then
          find_loop X opts ps (say opts (''find_process: skipping \"'' @ name
              @ ''\" as it does not seem to define a command.'') out)
        else if \<not> full_match X (fo_regex opts) name (fo_script opts) then find_loop X opts ps out
        else
          let out1 = say opts (''find_process: found \"'' @ name @ ''\", its command is \"''
                @ command @ ''\".'') out;
              name1 = base_name command in
          if full_match X (fo_regex opts) name1 (fo_process_name opts)
          then (0, say opts (''find_process: success! Found \"'' @ name1 @ ''\".'') out1)
          else find_loop X opts ps out1
      else if full_match X (fo_regex opts) name (fo_process_name opts)
      then (0, say opts (''find_process: success! Found \"'' @ name @ ''\".'') out)
      else find_loop X opts ps out)"

definition find_try :: "ext \<Rightarrow> find_opts \<Rightarrow> running list \<Rightarrow> exn + int \<times> string list" where
  "find_try X opts l =
     (let start = (\<lambda>out. let (exitval, out1) = find_loop X opts l out in
            Inr (exitval, if exitval \<noteq> 0 then say opts (''find_process: failure. Could not find \"''
                            @ fo_process_name opts @ ''\".'') out1 else out1))
      in if fo_regex opts then
           (case (if fo_script opts \<noteq> [] then new_regex X (fo_script opts) else Inr []) of
              Inl e \<Rightarrow> Inl e
            | Inr _ \<Rightarrow>
               (case new_regex X (fo_process_name opts) of
                  Inl e \<Rightarrow> Inl e
                | Inr _ \<Rightarrow> start (say opts ''find_process: using regular expressions for testing.'' [])))
         else start [])"

definition find_process_main :: "ext \<Rightarrow> getopt \<Rightarrow> running list \<Rightarrow> int" where
  "find_process_main X parsed l =
     (case parsed of
        Getopt_exit code \<Rightarrow> code
      | Getopt_raises \<Rightarrow> 1
      | Options opts \<Rightarrow>
          (case find_try X opts l of Inl e \<Rightarrow> 1 | Inr (exitval, out) \<Rightarrow> exitval))"

section \<open>What the exit code says\<close>

text \<open>The name a process is known by: that of the script, when scripts are looked for.\<close>

definition known_as :: "ext \<Rightarrow> find_opts \<Rightarrow> running \<Rightarrow> string option" where
  "known_as X opts = (\<lambda>(name, args).
     if name = [] then None
     else if fo_script opts = [] then Some name
     else if script_command (drop 1 args) \<noteq> [] \<and> full_match X (fo_regex opts) name (fo_script opts)
     then Some (base_name (script_command (drop 1 args))) else None)"

definition is_wanted :: "ext \<Rightarrow> find_opts \<Rightarrow> running \<Rightarrow> bool" where
  "is_wanted X opts r =
     (case known_as X opts r of None \<Rightarrow> False | Some n \<Rightarrow> full_match X (fo_regex opts) n (fo_process_name opts))"

definition patterns_compile :: "ext \<Rightarrow> find_opts \<Rightarrow> bool" where
  "patterns_compile X opts \<longleftrightarrow> \<not> fo_regex opts
     \<or> (fo_script opts = [] \<or> x_regex X (fo_script opts) [] \<noteq> None)
       \<and> x_regex X (fo_process_name opts) [] \<noteq> None"

lemma find_loop_exit: "fst (find_loop X opts l out) = (if list_ex (is_wanted X opts) l then 0 else 1)"
  by (induction X opts l out rule: find_loop.induct)
    (auto simp: is_wanted_def known_as_def Let_def)

lemma find_loop_silent: "\<not> fo_verbose opts \<Longrightarrow> snd (find_loop X opts l out) = out"
  by (induction X opts l out rule: find_loop.induct) (auto simp: say_def Let_def)

lemma script_command_spec:
  "script_command as = (case filter (\<lambda>a. a \<noteq> [] \<and> hd a \<noteq> CHR ''-'') as of [] \<Rightarrow> [] | a # _ \<Rightarrow> a)"
  by (induction as) auto

lemma base_name_no_slash: "CHR ''/'' \<notin> set (base_name c)"
  unfolding base_name_def after_last_def using set_takeWhileD by fastforce

lemma base_name_path: "CHR ''/'' \<notin> set f \<Longrightarrow> base_name (d @ CHR ''/'' # f) = f"
proof -
  assume "CHR ''/'' \<notin> set f"
  then have "takeWhile (\<lambda>x. x \<noteq> CHR ''/'') (rev f @ CHR ''/'' # rev d) = rev f"
    by (subst takeWhile_append2) auto
  then show ?thesis by (simp add: base_name_def after_last_def)
qed

lemma base_name_plain: "CHR ''/'' \<notin> set f \<Longrightarrow> base_name f = f"
proof -
  assume "CHR ''/'' \<notin> set f"
  then have "takeWhile (\<lambda>x. x \<noteq> CHR ''/'') (rev f) = rev f" by (subst takeWhile_eq_all_conv) auto
  then show ?thesis unfolding base_name_def after_last_def by (simp only: rev_rev_ident)
qed

text \<open>
  C28: with a valid command line, \<^verbatim>\<open>find-process\<close> exits with 0 exactly when its patterns are
  valid and some running process is the wanted one, and with 1 otherwise; it prints nothing
  unless verbose.
\<close>

theorem find_process_exit_code:
  "find_process_main X (Options opts) l
     = (if patterns_compile X opts \<and> list_ex (is_wanted X opts) l then 0 else 1)
   \<and> (patterns_compile X opts \<longrightarrow> \<not> fo_verbose opts \<longrightarrow>
       find_try X opts l = Inr (find_process_main X (Options opts) l, []))"
proof -
  let ?start = "\<lambda>out. let (exitval, out1) = find_loop X opts l out in
            Inr (exitval, if exitval \<noteq> 0 then say opts (''find_process: failure. Could not find \"''
                            @ fo_process_name opts @ ''\".'') out1 else out1) :: exn + int \<times> string list"
  have code: "\<exists>out'. ?start out = Inr (if list_ex (is_wanted X opts) l then 0 else 1, out')" for out
    using find_loop_exit [of X opts l out] by (cases "find_loop X opts l out") simp
  have silent: "?start [] = Inr (if list_ex (is_wanted X opts) l then 0 else 1, [])" if "\<not> fo_verbose opts"
    using find_loop_exit [of X opts l "[]"] find_loop_silent [OF that, of X l "[]"] that
    by (cases "find_loop X opts l []") (simp add: say_def)
  have tried: "find_try X opts l = (if patterns_compile X opts
      then ?start (if fo_regex opts then say opts ''find_process: using regular expressions for testing.'' [] else [])
      else Inl Regex_error)"
    unfolding find_try_def Let_def new_regex_def patterns_compile_def
    by (cases "x_regex X (fo_process_name opts) []"; cases "x_regex X (fo_script opts) []") simp_all
  obtain out where out: "?start (if fo_regex opts then say opts ''find_process: using regular expressions for testing.'' []
      else []) = Inr (if list_ex (is_wanted X opts) l then 0 else 1, out)"
    using code by blast
  have res: "find_try X opts l = (if patterns_compile X opts
      then Inr (if list_ex (is_wanted X opts) l then 0 else 1, out) else Inl Regex_error)"
    unfolding tried by (rule if_cong [OF refl out refl])
  have main: "find_process_main X (Options opts) l
     = (if patterns_compile X opts \<and> list_ex (is_wanted X opts) l then 0 else 1)"
    unfolding find_process_main_def by (simp add: res)
  have "patterns_compile X opts \<longrightarrow> \<not> fo_verbose opts \<longrightarrow>
      find_try X opts l = Inr (if list_ex (is_wanted X opts) l then 0 else 1, [])"
    using silent unfolding tried by (simp add: say_def)
  then show ?thesis unfolding main by simp
qed

definition opts0 :: find_opts where
  "opts0 = \<lparr>fo_verbose = False, fo_regex = False, fo_script = ''sh'', fo_process_name = ''backup''\<rparr>"

theorem find_process_exit_code_witness:
  "find_process_main plain_host (Options opts0)
     [(''sh'', [''sh'', ''-e'', ''/usr/bin/restore'']), (''sh'', [''sh'', ''-e'', ''/usr/bin/backup'', ''/''])] = 0"
  using find_process_exit_code [of plain_host opts0
      "[(''sh'', [''sh'', ''-e'', ''/usr/bin/restore'']), (''sh'', [''sh'', ''-e'', ''/usr/bin/backup'', ''/''])]"]
  by (simp add: patterns_compile_def opts0_def is_wanted_def known_as_def base_name_def after_last_def full_match_def)

end
