(* ===== verification/Spec2Isabelle.thy ===== *)
theory Spec2Isabelle
  imports Race_Emails Mail_Rule Worker_Rest Meminfo Sys_Stats Find_Process
begin

text \<open>
  \<^bold>\<open>The sitter daemon.\<close>

  \<^verbatim>\<open>sitter\<close> watches a computer. Once a minute, or as often as its settings say, it runs a list of
  plugins. Each looks at one part of the computer (load, memory, disks, processes, packages,
  logs, certificates, scripts), writes what it finds in a JSON document, and reports what is wrong
  with \<^verbatim>\<open>server::append_error()\<close>, with a priority from 0 to 100. The document is saved to a file, and
  when there were errors an email may be sent, not more often than the priority of the worst
  error allows. A second program, \<^verbatim>\<open>find-process\<close>, says whether a process runs. These theories
  translate the C++ sources below \<^verbatim>\<open>src/\<close> and prove what they do.

  \<^bold>\<open>The parts, and the theories that model them.\<close>

  \<^item> \<open>Prelude\<close>: a computation on a state that may raise, \<open>('s, 'a) act\<close>; the exceptions of
    \<^verbatim>\<open>sitter/exception.h\<close>; decimal text; searches in a text.
  \<^item> \<open>Host\<close>: the functions of the libraries, as the fields of a record \<open>ext\<close> that every
    definition takes as an argument, the JSON document as the list of calls made on it, and
    the named hypotheses about the libraries (below).
  \<^item> \<open>Server_State\<close>, \<open>Settings\<close>, \<open>Settings_Use\<close>, \<open>Server\<close>: the class \<^verbatim>\<open>server\<close> of
    \<^verbatim>\<open>sitter/sitter.cpp\<close>. A record \<open>server\<close> has its members, and what it leaves behind: the
    files, the document, the errors logged, the emails. The settings are getters that
    read an option once; \<open>clear_cache\<close> forgets one. \<open>append_error\<close> and \<open>clear_errors\<close> are
    the sink of the errors.
  \<^item> \<open>Meminfo\<close>, \<open>Sys_Stats\<close>: the readers of \<^verbatim>\<open>/proc\<close> (\<^verbatim>\<open>sitter/meminfo.cpp\<close>,
    \<^verbatim>\<open>sitter/sys_stats.cpp\<close>).
  \<^item> \<open>Plugin\<close>: the contract of a plugin. \<open>Cpu\<close>, \<open>Memory\<close>, \<open>Reboot\<close>, \<open>Network\<close> (with the
    firewall plugin), \<open>Apt\<close> (with the flags plugin), \<open>Disk\<close>, \<open>Certificate\<close>, \<open>Log_Definition\<close> and
    \<open>Log\<close>, \<open>Packages\<close>, \<open>Processes\<close>, \<open>Scripts\<close>: the plugins of \<^verbatim>\<open>plugins/sitter_*\<close>, one
    definition for each function of the source and \<open>*_watch\<close> for \<^verbatim>\<open>on_process_watch()\<close>.
    \<open>Ordered_Map\<close> is the part of \<^verbatim>\<open>std::map\<close> they use.
  \<^item> \<open>Worker\<close>: a run of the plugins, the data file and the email (\<^verbatim>\<open>sitter/sitter_worker.cpp\<close>).
  \<^item> \<open>All_Plugins\<close>: the thirteen plugins as the list that \<^verbatim>\<open>process_watch\<close> calls.
  \<^item> \<open>Daemon\<close>, \<open>Daemon_Use\<close>: the two threads of the daemon, the main one with its event loop
    (\<^verbatim>\<open>sitter.cpp\<close>, \<^verbatim>\<open>tick_timer.cpp\<close>, \<^verbatim>\<open>messenger.cpp\<close>, \<^verbatim>\<open>interrupt.cpp\<close>, \<^verbatim>\<open>worker_done.cpp\<close>) and
    the worker (\<^verbatim>\<open>sitter_worker.cpp\<close>), as a step relation.
  \<^item> \<open>Emails\<close>: the emails of the daemon over time: which files the plugins, the messages and the
    runs leave alone, and what follows for the date of the last email.
  \<^item> \<open>Documents\<close>: the errors that the document of a run holds, \<open>document_errors\<close>, and the email it is
    attached to.
  \<^item> \<open>Mail_Rule\<close>: when the end of a run sends its email, from what the getters of the settings answer.
  \<^item> \<open>Races\<close>, \<open>Race_Emails\<close>: settings that change while the worker reads them, for one report and
    for the histories of the daemon. \<open>contended\<close> is a getter with the messages that come before
    and inside of it; \<open>contended_report\<close>, \<open>contended_after\<close> and \<open>contended_finish\<close> are the end of a run
    over it; \<open>race_step\<close> adds that end to the steps.
  \<^item> \<open>Worker_Rest\<close>: the worker while the main thread does nothing.
  \<^item> \<open>Find_Process\<close>: \<^verbatim>\<open>tools/find_process.cpp\<close>.

  \<^bold>\<open>How they interact.\<close> The timer of the main thread gives ticks to the worker
  (\<open>process_timeout\<close>, \<open>tick\<close>); the worker sleeps until there is one, takes them all
  (\<open>wait_next_tick\<close>) and runs the plugins (\<open>after_wait\<close>, \<open>run_plugin\<close>, \<open>finish_run\<close>).
  Every plugin works on its own object and on the server. At the end of a run the worker
  reads the counters of the server, the settings and the date of the last email. Messages
  clear the cache of a setting, start the timer, record the connection to the communicatord,
  or stop the daemon; an exception of a plugin ends the worker, whose end stops the daemon.

  \<^bold>\<open>What is proved.\<close>

  \<^item> The daemon: its steps implement the specification \<open>schedule\<close> (ticks add up, one run takes
    all of them); no tick is lost; \<^verbatim>\<open>stop()\<close> always ends, in at most six steps besides the plugins
    left in the run, with no connection left in the event loop; left alone, the worker comes to
    rest after at most one more run; a plugin that raises ends the checks; a lost connection is never recorded;
    the settings and the delay of the timer stay in range in every state that can be
    reached; without a message in it, a run of steps is \<^verbatim>\<open>run_plugins()\<close>.
  \<^item> A run: the counters are those of the errors reported since it started; its document, and so its
    email, has an entry for each of them, an item of its own, and no other; it sends an email exactly when
    its worst priority, its length, the date of the last email and the settings ask for it; in any history of the
    daemon two emails are five minutes apart at least if the date can be kept, which no plugin
    spoils, nor any message but one that clears a priority inside of the getter of its span (an email
    then goes out at once), and come without limit if it cannot; a run of less than a minute
    sends none; the data files form a ring.
  \<^item> The settings: in range, stable until cleared, fresh afterwards.
  \<^item> The plugins: for each, exactly which errors are reported, with which priority, on every
    branch (for a sequence of runs where the plugin remembers something); what the loaders of the
    definitions accept and how they merge; round trips of the cache of the packages and of
    the octal modes. Several theorems show behaviour that a comment or a manual page
    contradicts: the names of the files that configure the certificates, the units of the symbolic modes, the line end that \<^verbatim>\<open>systemctl\<close> prints, the
    statistics of \<^verbatim>\<open>/proc/vmstat\<close>.
  \<^item> The locales are the interfaces: \<open>cached_setting\<close> for the getters, \<open>error_sink\<close> for the reports,
    \<open>load_once\<close> for the loaders of statistics, \<open>dictionary\<close> for the maps, \<open>watch_plugin\<close> for a
    plugin, extended to a list of plugins by \<open>plugin_list\<close>, \<open>server_relation\<close> for what the operations
    of a plugin keep (interpreted on the contract of the plugins, on the files
    they spare and on the errors they leave in the document). Each is interpreted on the
    definitions of the program; \<open>plugin_list\<close> on the real list in \<open>All_Plugins\<close>.

  \<^bold>\<open>Numbers and bounds.\<close> Integers of a fixed width that can wrap are words (the figures of
  \<^verbatim>\<open>/proc/meminfo\<close>, modes, sizes of files, blocks of a disk, the alarm). Times, priorities and
  settings are \<open>int\<close>: the bounds proved about them keep them within 64 bits. A double is
  a rational, which leaves out rounding, infinities and NaN. A division of a signed
  integer is \<open>sdiv\<close>, as in C++. No definition needs fuel: the loops are structural, and the
  two loops that may not end (\<^verbatim>\<open>sitter_worker::loop()\<close>, \<^verbatim>\<open>wait_next_tick()\<close>) are steps.

  \<^bold>\<open>Hypotheses about the libraries.\<close> \<open>integer_keeps\<close>: a failed conversion leaves its variable
  alone. \<open>integer_reads_text\<close>: the decimal text of a number is read back. \<open>x_can_write\<close>: whether a
  file can be written; a file that was written is read back. Nothing else is assumed of \<open>ext\<close>;
  \<open>plain_host\<close> is the instance the witnesses use.

  \<^bold>\<open>Atomicity.\<close> What a thread does between two points where the other can see it is one step. A
  run is one step to open it, one for each plugin and one to close it (the data file and the
  email); messages and ticks come between these steps in any order, each plugin with its own
  state of the computer (\<open>host\<close>). The sources take no lock around the settings, so the main thread
  can also clear one in the middle of a step. For the end of a run, which is where the worker reads
  them, \<open>Races\<close> and \<open>Race_Emails\<close> let messages come before each getter and inside of it, between what
  it loads and its \<^verbatim>\<open>return\<close>; the accesses to one member are taken one after the other, which C++
  does not promise for a data race. The plugins read options
  and no cached setting; their options change between two plugins only. The plugins that \<^verbatim>\<open>enter()\<close> loads are any list of names.

  \<^bold>\<open>Not modelled.\<close> Messages to the logger, apart from the severity and the priority of each
  reported error. The constructor of the server and the command line (\<^verbatim>\<open>main()\<close> gives the exit code
  for each way the server ends). The libraries:
  loading the plugins, the event dispatcher, running a process, reading a configuration file,
  reading a certificate (the names that its pattern asks for are modelled, as \<^verbatim>\<open>glob(7)\<close> documents them), the mount table, sending an email; their answers are parameters.
  Of an email, the mail library's own headers. \<^verbatim>\<open>version.cpp\<close> and the tests of it. Files of
  configuration, packaging and documentation.
\<close>

end
